(* ===== verification/Hive_Prelude.thy ===== *)
theory Hive_Prelude
  imports Main "HOL-Library.Word" "HOL-Library.AList" "HOL-Library.Product_Lexorder"
begin

text \<open>
  Shared vocabulary of the development. It holds the widths of Rust's machine integers as
  \<^typ>\<open>'a word\<close> synonyms, results whose error is a value (a Rust \<open>Result\<close>, or a panic with
  its message), the saturating and checked arithmetic of the standard library, and the
  \<open>HashMap\<close> of the standard library: the interface as the locale \<open>hash_map\<close>, its client
  lemmas (sums and counts over the values) proved once inside the locale, and an
  association list as its implementation. Rust's plain \<open>+\<close>, \<open>-\<close> and \<open>*\<close> wrap at
  their width, as in a release build; where the source guards an operation the guard is kept.
\<close>

section \<open>Machine integers\<close>

type_synonym u8 = "8 word"
type_synonym u16 = "16 word"
type_synonym u32 = "32 word"
type_synonym u64 = "64 word"
type_synonym i32 = "32 word"

named_theorems hm_eval \<open>evaluation rules of the hash map on closed terms\<close>
named_theorems res_simps \<open>rewriting of results\<close>
named_theorems word_nat \<open>word comparisons and saturating operations read as natural numbers\<close>

definition saturating_add :: "'a::len word \<Rightarrow> 'a word \<Rightarrow> 'a word" where
  "saturating_add a b = (if unat a + unat b < 2 ^ LENGTH('a) then a + b else - 1)"

definition saturating_sub :: "'a::len word \<Rightarrow> 'a word \<Rightarrow> 'a word" where
  "saturating_sub a b = (if b \<le> a then a - b else 0)"

definition saturating_mul :: "'a::len word \<Rightarrow> 'a word \<Rightarrow> 'a word" where
  "saturating_mul a b = (if unat a * unat b < 2 ^ LENGTH('a) then a * b else - 1)"

definition checked_add :: "'a::len word \<Rightarrow> 'a word \<Rightarrow> 'a word option" where
  "checked_add a b = (if unat a + unat b < 2 ^ LENGTH('a) then Some (a + b) else None)"

section \<open>Results\<close>

text \<open>
  \<open>Inl\<close> carries the error. A function that may panic has the panic message as its error,
  so that an \<open>assert!\<close>, \<open>expect\<close> or out-of-range index is a branch of the model.
\<close>

type_synonym 'a res = "string + 'a"

definition and_then :: "'e + 'a \<Rightarrow> ('a \<Rightarrow> 'e + 'b) \<Rightarrow> 'e + 'b" where
  "and_then r f = (case r of Inl e \<Rightarrow> Inl e | Inr x \<Rightarrow> f x)"

definition ensure :: "bool \<Rightarrow> 'e \<Rightarrow> 'e + unit" where
  "ensure b e = (if b then Inr () else Inl e)"

definition expect :: "'a option \<Rightarrow> 'e \<Rightarrow> 'e + 'a" where
  "expect x e = (case x of None \<Rightarrow> Inl e | Some y \<Rightarrow> Inr y)"

definition map_err :: "('e \<Rightarrow> 'f) \<Rightarrow> 'e + 'a \<Rightarrow> 'f + 'a" where
  "map_err f r = (case r of Inl e \<Rightarrow> Inl (f e) | Inr x \<Rightarrow> Inr x)"

primrec fold_res :: "('a \<Rightarrow> 's \<Rightarrow> 'e + 's) \<Rightarrow> 'a list \<Rightarrow> 's \<Rightarrow> 'e + 's" where
  "fold_res f [] s = Inr s"
| "fold_res f (x # xs) s = and_then (f x s) (fold_res f xs)"

text \<open>A computation that may also not return at all, which is \<open>None\<close>.\<close>

definition bind_run :: "'a res option \<Rightarrow> ('a \<Rightarrow> 'b res option) \<Rightarrow> 'b res option" where
  "bind_run r f = (case r of None \<Rightarrow> None | Some (Inl e) \<Rightarrow> Some (Inl e) | Some (Inr x) \<Rightarrow> f x)"

primrec fold_run :: "('a \<Rightarrow> 's \<Rightarrow> 's res option) \<Rightarrow> 'a list \<Rightarrow> 's \<Rightarrow> 's res option" where
  "fold_run f [] s = Some (Inr s)"
| "fold_run f (x # xs) s = bind_run (f x s) (fold_run f xs)"

definition opt_list :: "'m option \<Rightarrow> 'm list" where
  "opt_list m = (case m of None \<Rightarrow> [] | Some x \<Rightarrow> [x])"

section \<open>Hash maps\<close>

text \<open>
  The keys of a \<open>HashMap\<close> are distinct and every use in the source is independent of the
  iteration order (the keys are sorted, or the values are counted, summed or minimised), so an
  association list with distinct keys represents it.
\<close>

type_synonym ('k, 'v) hashmap = "('k \<times> 'v) list"

definition hm_get :: "('k, 'v) hashmap \<Rightarrow> 'k \<Rightarrow> 'v option" where
  "hm_get m k = map_of m k"

definition hm_insert :: "'k \<Rightarrow> 'v \<Rightarrow> ('k, 'v) hashmap \<Rightarrow> ('k, 'v) hashmap" where
  "hm_insert k v m = AList.update k v m"

definition hm_remove :: "'k \<Rightarrow> ('k, 'v) hashmap \<Rightarrow> ('k, 'v) hashmap" where
  "hm_remove k m = AList.delete k m"

definition hm_entries :: "('k, 'v) hashmap \<Rightarrow> ('k \<times> 'v) list" where
  "hm_entries m = m"

definition hm_keys :: "('k, 'v) hashmap \<Rightarrow> 'k list" where
  "hm_keys m = map fst m"

definition hm_values :: "('k, 'v) hashmap \<Rightarrow> 'v list" where
  "hm_values m = map snd m"

definition hm_len :: "('k, 'v) hashmap \<Rightarrow> nat" where
  "hm_len m = length m"

definition hm_wf :: "('k, 'v) hashmap \<Rightarrow> bool" where
  "hm_wf m = distinct (map fst m)"

definition hm_modify :: "'k \<Rightarrow> ('v \<Rightarrow> 'v) \<Rightarrow> ('k, 'v) hashmap \<Rightarrow> ('k, 'v) hashmap" where
  "hm_modify k f m = (case hm_get m k of None \<Rightarrow> m | Some v \<Rightarrow> hm_insert k (f v) m)"

lemmas hm_defs [hm_eval] =
  hm_get_def hm_insert_def hm_remove_def hm_entries_def hm_keys_def hm_values_def hm_len_def
  hm_wf_def hm_modify_def

section \<open>Lemmas on words\<close>

lemma unat_saturating_add [word_nat]:
  "unat (saturating_add a b) = min (unat a + unat b) (2 ^ LENGTH('a) - 1)"
  for a b :: "'a::len word"
proof (cases "unat a + unat b < 2 ^ LENGTH('a)")
  case True
  then show ?thesis by (simp add: saturating_add_def unat_word_ariths)
next
  case False
  then show ?thesis by (simp add: saturating_add_def unsigned_minus_1_eq_mask mask_eq_exp_minus_1)
qed

lemma unat_saturating_sub [word_nat]: "unat (saturating_sub a b) = unat a - unat b"
  by (simp add: saturating_sub_def unat_sub word_le_nat_alt)

lemma checked_add_Some [word_nat]: "checked_add a b = Some c \<Longrightarrow> unat c = unat a + unat b"
  by (auto simp: checked_add_def unat_word_ariths split: if_splits)

lemma unat_less_pow: "unat (a :: 'a::len word) < 2 ^ LENGTH('a)"
  by (rule unsigned_less)

lemma unat_ucast_up:
  fixes x :: "'a::len word"
  assumes "LENGTH('a) \<le> LENGTH('b::len)"
  shows "unat (ucast x :: 'b word) = unat x"
proof -
  have "unat x < 2 ^ LENGTH('b)"
    using unat_less_pow [of x] power_increasing [OF assms, of "2 :: nat"] by linarith
  then show ?thesis by (simp add: unsigned_ucast_eq take_bit_nat_eq_self)
qed

lemma unat_add_no_overflow:
  "unat (a :: 'a::len word) + unat b < 2 ^ LENGTH('a) \<Longrightarrow> unat (a + b) = unat a + unat b"
  by (simp add: unat_word_ariths)

lemma unat_minus_one: "unat (- 1 :: 'a::len word) = 2 ^ LENGTH('a) - 1"
  by (simp add: unsigned_minus_1_eq_mask mask_eq_exp_minus_1)

lemma saturating_add_le_imp:
  fixes a b c :: "'a::len word"
  assumes "saturating_add a b \<le> c" and "c \<noteq> - 1"
  shows "unat a + unat b \<le> unat c"
proof -
  have "unat (saturating_add a b) \<le> unat c" using assms(1) by (simp add: word_le_nat_alt)
  moreover have "unat c \<noteq> 2 ^ LENGTH('a) - 1"
    using assms(2) unat_minus_one [where 'a = 'a] by (metis word_unat_eq_iff)
  then have "unat c < 2 ^ LENGTH('a) - 1"
    using unat_less_pow [of c] by linarith
  ultimately show ?thesis by (simp add: unat_saturating_add)
qed

section \<open>Lemmas on results\<close>

lemma and_then_simps [simp, res_simps]:
  "and_then (Inl e) f = Inl e" "and_then (Inr x) f = f x"
  by (simp_all add: and_then_def)

lemma and_then_Inr [res_simps]: "and_then r f = Inr y \<longleftrightarrow> (\<exists>x. r = Inr x \<and> f x = Inr y)"
  by (cases r) simp_all

lemma and_then_Inl [res_simps]:
  "and_then r f = Inl e \<longleftrightarrow> r = Inl e \<or> (\<exists>x. r = Inr x \<and> f x = Inl e)"
  by (cases r) auto

lemma ensure_Inr [simp, res_simps]: "ensure b e = Inr u \<longleftrightarrow> b"
  by (simp add: ensure_def)

lemma ensure_True [simp]: "b \<Longrightarrow> ensure b e = Inr ()"
  by (simp add: ensure_def)

lemma ensure_False [simp]: "\<not> b \<Longrightarrow> ensure b e = Inl e"
  by (simp add: ensure_def)

lemma expect_simps [simp, res_simps]:
  "expect None e = Inl e" "expect (Some x) e = Inr x"
  by (simp_all add: expect_def)

lemma expect_Inr [res_simps]: "expect x e = Inr y \<longleftrightarrow> x = Some y"
  by (cases x) simp_all

lemma map_err_simps [simp, res_simps]:
  "map_err f (Inl e) = Inl (f e)" "map_err f (Inr x) = Inr x"
  by (simp_all add: map_err_def)

lemma map_err_Inr [res_simps]: "map_err f r = Inr x \<longleftrightarrow> r = Inr x"
  by (cases r) simp_all

lemma opt_list_None [simp]: "opt_list None = []"
  by (simp add: opt_list_def)

lemma bind_run_Some: "r \<noteq> None \<Longrightarrow> (\<And>x. f x \<noteq> None) \<Longrightarrow> bind_run r f \<noteq> None"
  by (cases r) (auto simp: bind_run_def split: sum.split)

lemma bind_run_SomeE:
  assumes "bind_run r f = Some (Inr y)"
  obtains x where "r = Some (Inr x)" "f x = Some (Inr y)"
  using assms by (auto simp: bind_run_def split: option.splits sum.splits)

lemma fold_res_append: "fold_res f (xs @ ys) s = and_then (fold_res f xs s) (fold_res f ys)"
proof (induction xs arbitrary: s)
  case Nil
  then show ?case by simp
next
  case (Cons x xs)
  show ?case
  proof (cases "f x s")
    case (Inl e)
    then show ?thesis by simp
  next
    case (Inr t)
    then show ?thesis using Cons.IH by simp
  qed
qed

lemma fold_res_inv:
  assumes "fold_res f xs s = Inr t" and "I s"
    and "\<And>x s t. x \<in> set xs \<Longrightarrow> I s \<Longrightarrow> f x s = Inr t \<Longrightarrow> I t"
  shows "I t"
  using assms
proof (induction xs arbitrary: s)
  case Nil
  then show ?case by simp
next
  case (Cons x xs)
  from Cons.prems(1) obtain u where u: "f x s = Inr u" "fold_res f xs u = Inr t"
    by (auto simp: and_then_Inr)
  have "I u" using Cons.prems(2,3) u(1) by (meson list.set_intros(1))
  with u(2) Cons.IH Cons.prems(3) show ?case by (meson list.set_intros(2))
qed

lemma fold_res_total:
  assumes "I s" and "\<And>x s. x \<in> set xs \<Longrightarrow> I s \<Longrightarrow> \<exists>t. f x s = Inr t \<and> I t"
  shows "\<exists>t. fold_res f xs s = Inr t \<and> I t"
  using assms
proof (induction xs arbitrary: s)
  case Nil
  then show ?case by simp
next
  case (Cons x xs)
  then obtain u where "f x s = Inr u" "I u" by (meson list.set_intros(1))
  moreover from this Cons obtain t where "fold_res f xs u = Inr t" "I t"
    by (meson list.set_intros(2))
  ultimately show ?case by auto
qed

section \<open>The hash map interface\<close>

text \<open>
  What the rest of the program relies on: a lookup after an insertion or a removal, and an
  enumeration of the entries without duplicate keys. Sums over the values are a function of
  the lookup alone, which gives the arithmetic of resource accounting.
\<close>

locale hash_map =
  fixes get :: "'m \<Rightarrow> 'k \<Rightarrow> 'v option"
    and ins :: "'k \<Rightarrow> 'v \<Rightarrow> 'm \<Rightarrow> 'm"
    and rem :: "'k \<Rightarrow> 'm \<Rightarrow> 'm"
    and entries :: "'m \<Rightarrow> ('k \<times> 'v) list"
    and wf :: "'m \<Rightarrow> bool"
  assumes get_ins: "get (ins k v m) = (get m)(k \<mapsto> v)"
    and get_rem: "get (rem k m) = (get m)(k := None)"
    and get_entries: "get m = map_of (entries m)"
    and distinct_entries: "wf m \<Longrightarrow> distinct (map fst (entries m))"
    and wf_ins: "wf m \<Longrightarrow> wf (ins k v m)"
    and wf_rem: "wf m \<Longrightarrow> wf (rem k m)"
begin

definition total :: "('v \<Rightarrow> nat) \<Rightarrow> 'm \<Rightarrow> nat" where
  "total f m = sum_list (map (f \<circ> snd) (entries m))"

lemma finite_dom_get: "finite (dom (get m))"
  by (simp add: get_entries finite_dom_map_of)

lemma total_sum_dom:
  assumes "wf m"
  shows "total f m = (\<Sum>k\<in>dom (get m). f (the (get m k)))"
proof -
  have d: "distinct (map fst (entries m))" by (rule distinct_entries [OF assms])
  have "total f m = sum_list (map (\<lambda>k. f (the (get m k))) (map fst (entries m)))"
    unfolding total_def map_map
  proof (rule arg_cong [where f = sum_list], rule map_cong [OF refl])
    fix e assume "e \<in> set (entries m)"
    then have "get m (fst e) = Some (snd e)" using d by (simp add: get_entries)
    then show "(f \<circ> snd) e = ((\<lambda>k. f (the (get m k))) \<circ> fst) e" by simp
  qed
  also have "\<dots> = (\<Sum>k\<in>set (map fst (entries m)). f (the (get m k)))"
    using d by (rule sum_list_distinct_conv_sum_set)
  also have "set (map fst (entries m)) = dom (get m)"
    by (simp add: get_entries dom_map_of_conv_image_fst)
  finally show ?thesis .
qed

lemma total_rem:
  assumes "wf m" and "get m k = Some v"
  shows "total f m = f v + total f (rem k m)"
proof -
  have d: "dom (get m) = insert k (dom (get m) - {k})" using assms(2) by auto
  have "total f m = f v + (\<Sum>j\<in>dom (get m) - {k}. f (the (get m j)))"
    unfolding total_sum_dom [OF assms(1)]
    by (subst sum.remove [of _ k]) (auto simp: finite_dom_get assms(2))
  also have "(\<Sum>j\<in>dom (get m) - {k}. f (the (get m j))) = total f (rem k m)"
    unfolding total_sum_dom [OF wf_rem [OF assms(1)]] get_rem
    by (rule sum.cong) auto
  finally show ?thesis .
qed

lemma total_ins_new:
  assumes "wf m" and "get m k = None"
  shows "total f (ins k v m) = f v + total f m"
proof -
  have "total f (ins k v m) = f v + total f (rem k (ins k v m))"
    by (rule total_rem) (simp_all add: wf_ins [OF assms(1)] get_ins)
  also have "total f (rem k (ins k v m)) = total f m"
    unfolding total_sum_dom [OF wf_rem [OF wf_ins [OF assms(1)]]] total_sum_dom [OF assms(1)]
    using assms(2) by (intro sum.cong) (auto simp: get_rem get_ins)
  finally show ?thesis .
qed

lemma total_ins_upd:
  assumes "wf m" and "get m k = Some u"
  shows "total f (ins k v m) + f u = total f m + f v"
proof -
  have "total f (ins k v m) = f v + total f (rem k (ins k v m))"
    by (rule total_rem) (simp_all add: wf_ins [OF assms(1)] get_ins)
  moreover have "total f (rem k (ins k v m)) = total f (rem k m)"
    unfolding total_sum_dom [OF wf_rem [OF wf_ins [OF assms(1)]]]
      total_sum_dom [OF wf_rem [OF assms(1)]]
    by (intro sum.cong) (auto simp: get_rem get_ins)
  moreover have "total f m = f u + total f (rem k m)"
    by (rule total_rem) (simp_all add: assms)
  ultimately show ?thesis by simp
qed

lemma total_mono:
  "(\<And>v. f v \<le> g v) \<Longrightarrow> total f m \<le> total g m"
  unfolding total_def by (rule sum_list_mono) simp

lemma total_zero: "(\<And>k v. get m k = Some v \<Longrightarrow> f v = 0) \<Longrightarrow> wf m \<Longrightarrow> total f m = 0"
  by (subst total_sum_dom) (auto intro!: sum.neutral)

lemma total_entry_le: "wf m \<Longrightarrow> get m k = Some v \<Longrightarrow> f v \<le> total f m"
  by (simp add: total_rem)

end

section \<open>Association lists implement hash maps\<close>

interpretation hm: hash_map hm_get hm_insert hm_remove hm_entries hm_wf
proof
  fix k :: 'k and v :: 'v and m :: "('k, 'v) hashmap"
  show "hm_get (hm_insert k v m) = (hm_get m)(k \<mapsto> v)"
    by (simp add: hm_get_def hm_insert_def fun_eq_iff update_conv)
  show "hm_get (hm_remove k m) = (hm_get m)(k := None)"
    by (simp add: hm_get_def hm_remove_def fun_eq_iff delete_conv)
  show "hm_get m = map_of (hm_entries m)"
    by (simp add: hm_get_def hm_entries_def fun_eq_iff)
  show "hm_wf m \<Longrightarrow> distinct (map fst (hm_entries m))"
    by (simp add: hm_wf_def hm_entries_def)
  show "hm_wf m \<Longrightarrow> hm_wf (hm_insert k v m)"
    by (simp add: hm_wf_def hm_insert_def distinct_update)
  show "hm_wf m \<Longrightarrow> hm_wf (hm_remove k m)"
    by (simp add: hm_wf_def hm_remove_def distinct_delete)
qed

lemmas hm_laws [simp] = hm.get_ins hm.get_rem hm.wf_ins hm.wf_rem

lemma hm_get_empty [simp]: "hm_get [] k = None"
  by (simp add: hm_get_def)

lemma hm_wf_empty [simp]: "hm_wf []"
  by (simp add: hm_wf_def)

lemma set_hm_keys [simp]: "set (hm_keys m) = dom (hm_get m)"
  by (simp add: hm_keys_def hm_get_def [abs_def] dom_map_of_conv_image_fst)

lemma distinct_hm_keys [simp]: "hm_wf m \<Longrightarrow> distinct (hm_keys m)"
  by (simp add: hm_keys_def hm_wf_def)

lemma set_hm_values: "hm_wf m \<Longrightarrow> v \<in> set (hm_values m) \<longleftrightarrow> (\<exists>k. hm_get m k = Some v)"
  by (force simp: hm_values_def hm_get_def hm_wf_def image_iff dest: map_of_SomeD)

lemma hm_len_total: "hm_len m = hm.total (\<lambda>_. 1) m"
  by (simp add: hm_len_def hm.total_def hm_entries_def sum_list_triv comp_def)

lemma filter_values_total: "length (filter P (hm_values m)) = hm.total (\<lambda>v. if P v then 1 else 0) m"
  unfolding hm.total_def hm_values_def hm_entries_def by (induction m) auto

lemma sum_values_total:
  "sum_list (map f (filter P (hm_values m))) = hm.total (\<lambda>v. if P v then f v else 0) m"
  unfolding hm.total_def hm_values_def hm_entries_def by (induction m) auto

lemma get_hm_modify: "hm_get (hm_modify k f m) j = (if j = k then map_option f (hm_get m k) else hm_get m j)"
  by (simp add: hm_modify_def split: option.split)

lemma wf_hm_modify [simp]: "hm_wf m \<Longrightarrow> hm_wf (hm_modify k f m)"
  by (simp add: hm_modify_def split: option.split)

lemma hm_remove_None [simp]: "hm_get m k = None \<Longrightarrow> hm_remove k m = m"
  by (simp add: hm_remove_def hm_get_def delete_idem map_of_eq_None_iff)

lemma hm_len_insert:
  "hm_wf m \<Longrightarrow> hm_len (hm_insert k v m) = (if hm_get m k = None then Suc (hm_len m) else hm_len m)"
  by (cases "hm_get m k")
     (use hm.total_ins_new [of m k "\<lambda>_. 1"] hm.total_ins_upd [of m k _ "\<lambda>_. 1"] in
       \<open>auto simp: hm_len_total\<close>)

lemma hm_len_remove: "hm_wf m \<Longrightarrow> hm_get m k = Some v \<Longrightarrow> Suc (hm_len (hm_remove k m)) = hm_len m"
  using hm.total_rem [of m k v "\<lambda>_. 1"] by (simp add: hm_len_total)

end
