(* ===== verification/Hive_Prng.thy ===== *)
theory Hive_Prng
  imports Hive_Prelude
begin

text \<open>
  \<^verbatim>\<open>worker/src/prng.rs\<close>: the ratio type of the fault injectors and the xorshift64 generator
  every simulated component draws from. The generator is a permutation of the 64-bit words that
  fixes only 0, so a generator built by \<open>init\<close> never reaches the absorbing state 0.
\<close>

unbundle bit_operations_syntax

section \<open>Ratio\<close>

record ratio =
  numerator :: u32
  denominator :: u32

definition ratio_new :: "u32 \<Rightarrow> u32 \<Rightarrow> ratio" where
  "ratio_new n d = \<lparr>numerator = n, denominator = d\<rparr>"

definition ratio_zero :: ratio where
  "ratio_zero = \<lparr>numerator = 0, denominator = 1\<rparr>"

definition from_percent :: "u8 \<Rightarrow> ratio" where
  "from_percent pct = \<lparr>numerator = ucast pct, denominator = 100\<rparr>"

definition is_zero :: "ratio \<Rightarrow> bool" where
  "is_zero r = (numerator r = 0)"

section \<open>Prng\<close>

record prng =
  prng_state :: u64

definition prng_init :: "u64 \<Rightarrow> prng" where
  "prng_init seed = \<lparr>prng_state = (if seed = 0 then 1 else seed)\<rparr>"

definition prng_next :: "prng \<Rightarrow> u64 \<times> prng" where
  "prng_next p =
     (let x = prng_state p;
          x = x XOR push_bit 13 x;
          x = x XOR drop_bit 7 x;
          x = x XOR push_bit 17 x
      in (x, p\<lparr>prng_state := x\<rparr>))"

definition bounded :: "prng \<Rightarrow> u64 \<Rightarrow> (u64 \<times> prng) res" where
  "bounded p bound =
     and_then (ensure (bound > 0) ''assertion failed: bound > 0'')
       (\<lambda>_. let (x, p') = prng_next p in Inr (x mod bound, p'))"

definition chance :: "prng \<Rightarrow> u8 \<Rightarrow> (bool \<times> prng) res" where
  "chance p percent =
     and_then (bounded p 100) (\<lambda>(x, p'). Inr (x < ucast percent, p'))"

definition chance_ratio :: "prng \<Rightarrow> ratio \<Rightarrow> (bool \<times> prng) res" where
  "chance_ratio p r =
     (if numerator r = 0 then Inr (False, p)
      else if numerator r \<ge> denominator r then Inr (True, p)
      else and_then (bounded p (ucast (denominator r)))
             (\<lambda>(x, p'). Inr (x < ucast (numerator r), p')))"

section \<open>The generator is a permutation\<close>

lemma xor_shift_left_kernel:
  fixes x :: "'a::len word"
  assumes "x XOR push_bit k x = 0" and "0 < k"
  shows "x = 0"
proof (rule bit_word_eqI)
  fix n assume "n < LENGTH('a)"
  then show "bit x n \<longleftrightarrow> bit (0 :: 'a word) n"
  proof (induction n rule: less_induct)
    case (less n)
    have "bit (x XOR push_bit k x) n = False" using assms(1) by simp
    then have "bit x n \<longleftrightarrow> k \<le> n \<and> bit x (n - k)"
      using less.prems by (auto simp: bit_xor_iff bit_push_bit_iff)
    with less assms(2) show ?case by auto
  qed
qed

lemma xor_shift_right_kernel:
  fixes x :: "'a::len word"
  assumes "x XOR drop_bit k x = 0" and "0 < k"
  shows "x = 0"
proof -
  have eq: "bit x n \<longleftrightarrow> bit x (n + k)" for n
  proof -
    have "bit (x XOR drop_bit k x) n = False" using assms(1) by simp
    then show ?thesis by (auto simp: bit_xor_iff bit_drop_bit_eq add.commute)
  qed
  have "\<not> bit x n" for n
  proof (induction "LENGTH('a) - n" arbitrary: n rule: less_induct)
    case less
    show ?case
    proof (cases "n < LENGTH('a)")
      case True
      then have "LENGTH('a) - (n + k) < LENGTH('a) - n" using assms(2) by arith
      with less have "\<not> bit x (n + k)" by blast
      with eq show ?thesis by blast
    next
      case False
      then show ?thesis using bit_imp_le_length by blast
    qed
  qed
  then show ?thesis by (intro bit_word_eqI) simp
qed

text \<open>A map that distributes over \<open>XOR\<close> and sends only 0 to 0 is injective.\<close>

lemma xor_linear_inj:
  fixes f :: "'a::len word \<Rightarrow> 'a word"
  assumes lin: "\<And>x y. f (x XOR y) = f x XOR f y" and ker: "\<And>x. f x = 0 \<Longrightarrow> x = 0"
  shows "inj f"
proof (rule injI)
  fix x y assume "f x = f y"
  then have "f (x XOR y) = 0" using lin by simp
  then have "x XOR y = 0" by (rule ker)
  then have "(x XOR y) XOR y = 0 XOR y" by (rule arg_cong)
  then show "x = y" by (simp only: xor.assoc xor_self_eq xor.left_neutral xor.right_neutral)
qed

definition xorshift :: "u64 \<Rightarrow> u64" where
  "xorshift x = fst (prng_next \<lparr>prng_state = x\<rparr>)"

lemma prng_next_xorshift:
  "prng_next p = (xorshift (prng_state p), p\<lparr>prng_state := xorshift (prng_state p)\<rparr>)"
  by (cases p) (simp add: xorshift_def prng_next_def Let_def)

lemma xorshift_comp:
  "xorshift = (\<lambda>x. x XOR push_bit 17 x) \<circ> (\<lambda>x. x XOR drop_bit 7 x) \<circ> (\<lambda>x. x XOR push_bit 13 x)"
  by (simp add: fun_eq_iff xorshift_def prng_next_def Let_def)

lemma inj_shift_left: "0 < k \<Longrightarrow> inj (\<lambda>x :: 'a::len word. x XOR push_bit k x)"
  by (rule xor_linear_inj)
     (auto simp: push_bit_xor ac_simps intro: xor_shift_left_kernel)

lemma inj_shift_right: "0 < k \<Longrightarrow> inj (\<lambda>x :: 'a::len word. x XOR drop_bit k x)"
  by (rule xor_linear_inj)
     (auto simp: drop_bit_xor ac_simps intro: xor_shift_right_kernel)

lemma inj_xorshift: "inj xorshift"
  unfolding xorshift_comp by (intro inj_compose inj_shift_left inj_shift_right) simp_all

lemma bij_xorshift: "bij xorshift"
  using inj_xorshift finite_UNIV_inj_surj [OF _ inj_xorshift] by (simp add: bij_def)

lemma xorshift_0 [simp]: "xorshift 0 = 0"
  by (simp add: xorshift_comp)

lemma xorshift_eq_0_iff [simp]: "xorshift x = 0 \<longleftrightarrow> x = 0"
  using inj_xorshift xorshift_0 by (metis injD)

definition prng_ok :: "prng \<Rightarrow> bool" where
  "prng_ok p = (prng_state p \<noteq> 0)"

lemma prng_ok_init [simp]: "prng_ok (prng_init seed)"
  by (simp add: prng_ok_def prng_init_def)

lemma prng_ok_next: "prng_ok p \<Longrightarrow> prng_ok (snd (prng_next p))"
  by (simp add: prng_ok_def prng_next_xorshift)

lemma bounded_Inr:
  "bounded p b = Inr (x, p') \<longleftrightarrow>
     b > 0 \<and> x = xorshift (prng_state p) mod b \<and> p' = p\<lparr>prng_state := xorshift (prng_state p)\<rparr>"
  by (auto simp: bounded_def prng_next_xorshift res_simps)

lemma bounded_less: "bounded p b = Inr (x, p') \<Longrightarrow> x < b"
  by (auto simp: bounded_Inr word_less_nat_alt unat_mod_distrib word_neq_0_conv)

lemma bounded_total: "b > 0 \<Longrightarrow> \<exists>x p'. bounded p b = Inr (x, p')"
  by (simp add: bounded_Inr)

lemma prng_ok_bounded: "bounded p b = Inr (x, p') \<Longrightarrow> prng_ok p \<Longrightarrow> prng_ok p'"
  by (auto simp: bounded_Inr prng_ok_def)

lemma prng_ok_chance_ratio: "chance_ratio p r = Inr (c, p') \<Longrightarrow> prng_ok p \<Longrightarrow> prng_ok p'"
  by (auto simp: chance_ratio_def and_then_Inr dest: prng_ok_bounded split: if_splits prod.splits)

lemma chance_ratio_total: "\<exists>c p'. chance_ratio p r = Inr (c, p')"
proof -
  have "\<exists>c p'. chance_ratio p r = Inr (c, p')"
    if "numerator r \<noteq> 0" "\<not> denominator r \<le> numerator r"
  proof -
    have "denominator r \<noteq> 0" using that by auto
    then have "unat (denominator r) \<noteq> 0" by (simp add: unat_eq_0)
    then have "unat (ucast (denominator r) :: u64) \<noteq> 0" by (simp add: unat_ucast_up)
    then have "(ucast (denominator r) :: u64) > 0" by (simp add: word_less_nat_alt)
    then obtain x p' where "bounded p (ucast (denominator r)) = Inr (x, p')"
      using bounded_total by blast
    with that show ?thesis by (simp add: chance_ratio_def)
  qed
  then show ?thesis by (auto simp: chance_ratio_def)
qed

end
