(* ===== verification/Rust_Text.thy ===== *)
theory Rust_Text
  imports Hive_Prelude "HOL-Library.Sublist"
begin

text \<open>
  The parts of Rust's standard library on bytes and strings that the worker uses. A Rust
  \<open>String\<close> is its UTF-8 encoding, so it is an Isabelle \<^typ>\<open>string\<close> whose characters
  are the bytes, and \<open>len\<close> counts bytes. The theory has the decimal and hexadecimal
  formatting of \<open>format!\<close>, little-endian encoding (\<open>to_le_bytes\<close>, \<open>from_le_bytes\<close>),
  \<open>String::from_utf8_lossy\<close> with its maximal-prefix replacement rule, and the splitting of
  text into lines and words.
\<close>

section \<open>Bytes and characters\<close>

definition byte_of_char :: "char \<Rightarrow> u8" where
  "byte_of_char c = word_of_nat (of_char c)"

definition char_of_byte :: "u8 \<Rightarrow> char" where
  "char_of_byte b = char_of (unat b)"

definition as_bytes :: "string \<Rightarrow> u8 list" where
  "as_bytes s = map byte_of_char s"

definition of_bytes :: "u8 list \<Rightarrow> string" where
  "of_bytes bs = map char_of_byte bs"

section \<open>Formatting\<close>

definition digit_char :: "nat \<Rightarrow> char" where
  "digit_char d = char_of (48 + d)"

fun dec :: "nat \<Rightarrow> string" where
  "dec n = (if n < 10 then [digit_char n] else dec (n div 10) @ [digit_char (n mod 10)])"

declare dec.simps [simp del]

definition dec_signed :: "int \<Rightarrow> string" where
  "dec_signed i = (if i < 0 then ''-'' @ dec (nat (- i)) else dec (nat i))"

definition hex_char :: "nat \<Rightarrow> char" where
  "hex_char d = (if d < 10 then char_of (48 + d) else char_of (87 + d))"

definition hex02 :: "u8 \<Rightarrow> string" where
  "hex02 b = [hex_char (unat b div 16), hex_char (unat b mod 16)]"

section \<open>Little-endian integers\<close>

primrec le_bytes :: "nat \<Rightarrow> nat \<Rightarrow> u8 list" where
  "le_bytes 0 x = []"
| "le_bytes (Suc k) x = word_of_nat x # le_bytes k (x div 256)"

primrec le_nat :: "u8 list \<Rightarrow> nat" where
  "le_nat [] = 0"
| "le_nat (b # bs) = unat b + 256 * le_nat bs"

definition u16_to_le :: "u16 \<Rightarrow> u8 list" where "u16_to_le x = le_bytes 2 (unat x)"
definition u32_to_le :: "u32 \<Rightarrow> u8 list" where "u32_to_le x = le_bytes 4 (unat x)"
definition u64_to_le :: "u64 \<Rightarrow> u8 list" where "u64_to_le x = le_bytes 8 (unat x)"
definition u16_from_le :: "u8 list \<Rightarrow> u16" where "u16_from_le bs = word_of_nat (le_nat bs)"
definition u32_from_le :: "u8 list \<Rightarrow> u32" where "u32_from_le bs = word_of_nat (le_nat bs)"
definition u64_from_le :: "u8 list \<Rightarrow> u64" where "u64_from_le bs = word_of_nat (le_nat bs)"

section \<open>Slices\<close>

definition slice :: "nat \<Rightarrow> nat \<Rightarrow> 'a list \<Rightarrow> 'a list" where
  "slice i j xs = take (j - i) (drop i xs)"

definition overwrite_at :: "nat \<Rightarrow> 'a list \<Rightarrow> 'a list \<Rightarrow> 'a list" where
  "overwrite_at i ys xs = take i xs @ ys @ drop (i + length ys) xs"

section \<open>Lossy UTF-8 decoding\<close>

definition safe_get :: "u8 list \<Rightarrow> nat \<Rightarrow> nat" where
  "safe_get bs i = (if i < length bs then unat (bs ! i) else 0)"

definition is_cont :: "nat \<Rightarrow> bool" where
  "is_cont b = (128 \<le> b \<and> b < 192)"

definition utf8_char_width :: "nat \<Rightarrow> nat" where
  "utf8_char_width b =
     (if b < 128 then 1 else if 194 \<le> b \<and> b \<le> 223 then 2
      else if 224 \<le> b \<and> b \<le> 239 then 3 else if 240 \<le> b \<and> b \<le> 244 then 4 else 0)"

definition second_of_three :: "nat \<Rightarrow> nat \<Rightarrow> bool" where
  "second_of_three b c =
     (if b = 224 then 160 \<le> c \<and> c \<le> 191
      else if b = 237 then 128 \<le> c \<and> c \<le> 159 else 128 \<le> c \<and> c \<le> 191)"

definition second_of_four :: "nat \<Rightarrow> nat \<Rightarrow> bool" where
  "second_of_four b c =
     (if b = 240 then 144 \<le> c \<and> c \<le> 191
      else if b = 244 then 128 \<le> c \<and> c \<le> 143 else 128 \<le> c \<and> c \<le> 191)"

text \<open>
  One step of the decoder at the first byte: how many bytes it takes and whether they are one
  well-formed character. An ill-formed step takes the longest prefix that could still have
  started a character.
\<close>

definition utf8_step :: "u8 list \<Rightarrow> nat \<times> bool" where
  "utf8_step bs =
     (let b = safe_get bs 0; w = utf8_char_width b in
      if w = 1 then (1, True)
      else if w = 2 then (if is_cont (safe_get bs 1) then (2, True) else (1, False))
      else if w = 3 then
        (if \<not> second_of_three b (safe_get bs 1) then (1, False)
         else if \<not> is_cont (safe_get bs 2) then (2, False) else (3, True))
      else if w = 4 then
        (if \<not> second_of_four b (safe_get bs 1) then (1, False)
         else if \<not> is_cont (safe_get bs 2) then (2, False)
         else if \<not> is_cont (safe_get bs 3) then (3, False) else (4, True))
      else (1, False))"

definition replacement :: "u8 list" where
  "replacement = [0xEF, 0xBF, 0xBD]"

lemma utf8_step_pos: "0 < fst (utf8_step bs)"
  by (simp add: utf8_step_def Let_def)

function lossy_bytes :: "u8 list \<Rightarrow> u8 list" where
  "lossy_bytes bs =
     (if bs = [] then []
      else (if snd (utf8_step bs) then take (fst (utf8_step bs)) bs else replacement)
             @ lossy_bytes (drop (fst (utf8_step bs)) bs))"
  by pat_completeness auto
termination
  by (relation "measure length") (auto simp: utf8_step_pos)

declare lossy_bytes.simps [simp del]

function utf8_valid :: "u8 list \<Rightarrow> bool" where
  "utf8_valid bs =
     (if bs = [] then True
      else snd (utf8_step bs) \<and> utf8_valid (drop (fst (utf8_step bs)) bs))"
  by pat_completeness auto
termination
  by (relation "measure length") (auto simp: utf8_step_pos)

declare utf8_valid.simps [simp del]

definition from_utf8_lossy :: "u8 list \<Rightarrow> string" where
  "from_utf8_lossy bs = of_bytes (lossy_bytes bs)"

section \<open>Lines and words\<close>

text \<open>
  \<open>str::lines\<close>: split at line feeds, drop one carriage return at the end of each line, no
  empty line after a final line feed.
\<close>

definition LF :: char where "LF = CHR 0x0A"
definition CR :: char where "CR = CHR 0x0D"

definition chomp :: "string \<Rightarrow> string" where
  "chomp s = (if s \<noteq> [] \<and> last s = CR then butlast s else s)"

fun lines_from :: "string \<Rightarrow> string \<Rightarrow> string list" where
  "lines_from acc [] = (if acc = [] then [] else [rev acc])"
| "lines_from acc (c # cs) =
     (if c = LF then chomp (rev acc) # lines_from [] cs else lines_from (c # acc) cs)"

definition lines :: "string \<Rightarrow> string list" where
  "lines s = lines_from [] s"

text \<open>
  \<open>str::split_whitespace\<close> uses the Unicode \<open>White_Space\<close> property; \<open>ws_width\<close> is
  the length in bytes of a white-space character at the head of a string, 0 if there is none.
\<close>

definition ws_width :: "string \<Rightarrow> nat" where
  "ws_width s =
     (let b = map of_char (take 3 s) :: nat list in
      case b of
        [] \<Rightarrow> 0
      | x # xs \<Rightarrow>
          if 9 \<le> x \<and> x \<le> 13 \<or> x = 32 then 1
          else if x = 194 \<and> xs \<noteq> [] \<and> (hd xs = 133 \<or> hd xs = 160) then 2
          else if x = 225 \<and> xs = [154, 128] then 3
          else if x = 226 \<and> length xs = 2 \<and> xs ! 0 = 128
               \<and> (128 \<le> xs ! 1 \<and> xs ! 1 \<le> 138 \<or> xs ! 1 = 168 \<or> xs ! 1 = 169 \<or> xs ! 1 = 175) then 3
          else if x = 226 \<and> xs = [129, 159] then 3
          else if x = 227 \<and> xs = [128, 128] then 3
          else 0)"

function words_from :: "string \<Rightarrow> string \<Rightarrow> string list" where
  "words_from acc s =
     (if s = [] then (if acc = [] then [] else [rev acc])
      else if ws_width s = 0 then words_from (hd s # acc) (tl s)
      else (if acc = [] then [] else [rev acc]) @ words_from [] (drop (ws_width s) s))"
  by pat_completeness auto
termination
  by (relation "measure (\<lambda>(acc, s). length s)") auto

declare words_from.simps [simp del]

definition split_whitespace :: "string \<Rightarrow> string list" where
  "split_whitespace s = words_from [] s"

section \<open>Lemmas on characters\<close>

lemma unat_byte_of_char [simp]: "unat (byte_of_char c) = of_char c"
proof -
  have "of_char c < (256 :: nat)" by simp
  then show ?thesis by (simp add: byte_of_char_def unat_of_nat)
qed

lemma char_of_byte_of_char [simp]: "char_of_byte (byte_of_char c) = c"
  by (simp add: char_of_byte_def)

lemma byte_of_char_of_byte [simp]: "byte_of_char (char_of_byte b) = b"
proof -
  have "unat b < 256" using unsigned_less [of b, where ?'a = nat] by simp
  then show ?thesis by (simp add: byte_of_char_def char_of_byte_def)
qed

lemma of_bytes_as_bytes [simp]: "of_bytes (as_bytes s) = s"
  by (simp add: of_bytes_def as_bytes_def comp_def)

lemma as_bytes_of_bytes [simp]: "as_bytes (of_bytes bs) = bs"
  by (simp add: of_bytes_def as_bytes_def comp_def)

lemma length_as_bytes [simp]: "length (as_bytes s) = length s"
  by (simp add: as_bytes_def)

lemma length_of_bytes [simp]: "length (of_bytes bs) = length bs"
  by (simp add: of_bytes_def)

section \<open>Lemmas on decimal numbers\<close>

primrec undigits :: "nat \<Rightarrow> string \<Rightarrow> nat" where
  "undigits acc [] = acc"
| "undigits acc (c # cs) = undigits (10 * acc + (of_char c - 48)) cs"

lemma of_char_digit: "d < 10 \<Longrightarrow> of_char (digit_char d) = 48 + d"
  by (simp add: digit_char_def)

lemma undigits_append: "undigits a (xs @ ys) = undigits (undigits a xs) ys"
  by (induction xs arbitrary: a) auto

lemma undigits_dec: "undigits 0 (dec n) = n"
proof (induction n rule: dec.induct)
  case (1 n)
  show ?case
  proof (cases "n < 10")
    case True
    then show ?thesis by (simp add: dec.simps [of n] of_char_digit)
  next
    case False
    with 1 have "undigits 0 (dec (n div 10)) = n div 10" by simp
    with False show ?thesis by (simp add: dec.simps [of n] undigits_append of_char_digit)
  qed
qed

lemma dec_inject [simp]: "dec m = dec n \<longleftrightarrow> m = n"
  by (metis undigits_dec)

lemma dec_digits: "c \<in> set (dec n) \<Longrightarrow> 48 \<le> (of_char c :: nat) \<and> (of_char c :: nat) \<le> 57"
proof (induction n rule: dec.induct)
  case (1 n)
  show ?case
  proof (cases "n < 10")
    case True
    with 1 show ?thesis by (auto simp: dec.simps [of n] of_char_digit)
  next
    case False
    with 1 show ?thesis by (auto simp: dec.simps [of n] of_char_digit)
  qed
qed

section \<open>Lemmas on little-endian integers\<close>

lemma length_le_bytes [simp]: "length (le_bytes k x) = k"
  by (induction k arbitrary: x) auto

lemma unat_word_of_nat_u8: "unat (word_of_nat x :: u8) = x mod 256"
  by (simp add: unsigned_of_nat take_bit_eq_mod)

lemma le_nat_le_bytes: "le_nat (le_bytes k x) = x mod 256 ^ k"
proof (induction k arbitrary: x)
  case 0
  then show ?case by simp
next
  case (Suc k)
  have "le_nat (le_bytes (Suc k) x) = x mod 256 + 256 * (x div 256 mod 256 ^ k)"
    by (simp add: Suc.IH unat_word_of_nat_u8)
  also have "\<dots> = x mod (256 * 256 ^ k)" by (simp add: mod_mult2_eq)
  finally show ?case by simp
qed

lemma le_nat_bound: "le_nat bs < 256 ^ length bs"
proof (induction bs)
  case Nil
  then show ?case by simp
next
  case (Cons b bs)
  have "unat b < 256" using unsigned_less [of b, where ?'a = nat] by simp
  with Cons show ?case by simp
qed

lemma le_bytes_le_nat: "le_bytes (length bs) (le_nat bs) = bs"
proof (induction bs)
  case Nil
  then show ?case by simp
next
  case (Cons b bs)
  have b: "unat b < 256" using unsigned_less [of b, where ?'a = nat] by simp
  have "(word_of_nat (unat b + 256 * le_nat bs) :: u8) = b"
    unfolding word_unat_eq_iff unat_word_of_nat_u8 using b by simp
  moreover have "(unat b + 256 * le_nat bs) div 256 = le_nat bs" using b by simp
  ultimately show ?case using Cons.IH by simp
qed

lemma u16_le_roundtrip [simp]: "u16_from_le (u16_to_le x) = x"
  using unsigned_less [of x, where ?'a = nat]
  by (simp add: u16_from_le_def u16_to_le_def le_nat_le_bytes)

lemma u32_le_roundtrip [simp]: "u32_from_le (u32_to_le x) = x"
  using unsigned_less [of x, where ?'a = nat]
  by (simp add: u32_from_le_def u32_to_le_def le_nat_le_bytes)

lemma u64_le_roundtrip [simp]: "u64_from_le (u64_to_le x) = x"
  using unsigned_less [of x, where ?'a = nat]
  by (simp add: u64_from_le_def u64_to_le_def le_nat_le_bytes)

lemma length_to_le [simp]:
  "length (u16_to_le a) = 2" "length (u32_to_le b) = 4" "length (u64_to_le c) = 8"
  by (simp_all add: u16_to_le_def u32_to_le_def u64_to_le_def)

lemma u32_to_from_le: "length bs = 4 \<Longrightarrow> u32_to_le (u32_from_le bs) = bs"
  using le_nat_bound [of bs] le_bytes_le_nat [of bs]
  by (simp add: u32_from_le_def u32_to_le_def unat_of_nat)

lemma u64_to_from_le: "length bs = 8 \<Longrightarrow> u64_to_le (u64_from_le bs) = bs"
  using le_nat_bound [of bs] le_bytes_le_nat [of bs]
  by (simp add: u64_from_le_def u64_to_le_def unat_of_nat)

section \<open>Lemmas on slices\<close>

lemma slice_append_drop: "i \<le> j \<Longrightarrow> slice i j xs @ drop j xs = drop i xs"
  by (simp add: slice_def) (metis append_take_drop_id drop_drop le_add_diff_inverse2)


lemma length_slice [simp]: "j \<le> length xs \<Longrightarrow> length (slice i j xs) = j - i"
  by (simp add: slice_def)

lemma length_overwrite_at [simp]:
  "i + length ys \<le> length xs \<Longrightarrow> length (overwrite_at i ys xs) = length xs"
  by (simp add: overwrite_at_def)

section \<open>Lemmas on UTF-8\<close>

lemma safe_get_in_range:
  "is_cont (safe_get bs i) \<Longrightarrow> i < length bs"
  "second_of_three b (safe_get bs i) \<Longrightarrow> i < length bs"
  "second_of_four b (safe_get bs i) \<Longrightarrow> i < length bs"
  by (auto simp: safe_get_def is_cont_def second_of_three_def second_of_four_def split: if_splits)

lemma utf8_step_le: "bs \<noteq> [] \<Longrightarrow> snd (utf8_step bs) \<Longrightarrow> fst (utf8_step bs) \<le> length bs"
  unfolding utf8_step_def Let_def
  by (auto split: if_splits simp: Suc_le_eq dest: safe_get_in_range)

lemma lossy_bytes_valid: "utf8_valid bs \<Longrightarrow> lossy_bytes bs = bs"
proof (induction bs rule: utf8_valid.induct)
  case (1 bs)
  show ?case
  proof (cases "bs = []")
    case True
    then show ?thesis by (simp add: lossy_bytes.simps)
  next
    case False
    with "1.prems" have "snd (utf8_step bs)" "utf8_valid (drop (fst (utf8_step bs)) bs)"
      by (simp_all add: utf8_valid.simps [of bs])
    with "1.IH" False show ?thesis by (simp add: lossy_bytes.simps [of bs])
  qed
qed

lemma utf8_valid_ascii: "\<forall>b \<in> set bs. unat b < 128 \<Longrightarrow> utf8_valid bs"
proof (induction bs)
  case Nil
  then show ?case by (simp add: utf8_valid.simps)
next
  case (Cons b bs)
  then have "utf8_step (b # bs) = (1, True)"
    by (simp add: utf8_step_def safe_get_def utf8_char_width_def)
  with Cons show ?case by (simp add: utf8_valid.simps [of "b # bs"])
qed

lemma from_utf8_lossy_as_bytes: "utf8_valid (as_bytes s) \<Longrightarrow> from_utf8_lossy (as_bytes s) = s"
  by (simp add: from_utf8_lossy_def lossy_bytes_valid)

section \<open>Indexing\<close>

text \<open>\<open>xs[i]\<close>, which panics out of range.\<close>

definition index_at :: "'a list \<Rightarrow> nat \<Rightarrow> 'a res" where
  "index_at xs i =
     (if i < length xs then Inr (xs ! i)
      else Inl (''index out of bounds: the len is '' @ dec (length xs) @ '' but the index is '' @ dec i))"

lemma index_at_Inr: "index_at xs i = Inr x \<longleftrightarrow> i < length xs \<and> x = xs ! i"
  by (auto simp: index_at_def)

lemma index_at_ok [simp]: "i < length xs \<Longrightarrow> index_at xs i = Inr (xs ! i)"
  by (simp add: index_at_def)

end
