(* ===== verification/Hive_Messages.thy ===== *)
theory Hive_Messages
  imports Rust_Text
begin

text \<open>
  \<^verbatim>\<open>worker/src/types.rs\<close> and \<^verbatim>\<open>worker/src/message.rs\<close>: the GPU types and the messages between
  the control plane and the worker. Field names carry a prefix of their struct because record
  selectors of one development share a name space.
\<close>

datatype gpu_type =
  GpuNone | A100_40 | A100_80 | H100Sxm | H100Pcie | H200 | L40s | A10g | T4

text \<open>The discriminant of \<open>#[repr(u8)]\<close>, as \<open>gpu_type as u8\<close> reads it.\<close>

primrec gpu_code :: "gpu_type \<Rightarrow> u8" where
  "gpu_code GpuNone = 0"
| "gpu_code A100_40 = 1"
| "gpu_code A100_80 = 2"
| "gpu_code H100Sxm = 3"
| "gpu_code H100Pcie = 4"
| "gpu_code H200 = 5"
| "gpu_code L40s = 6"
| "gpu_code A10g = 7"
| "gpu_code T4 = 8"

section \<open>Control plane to worker\<close>

record env_entry =
  en_name :: string
  en_value :: string
  en_is_secret_ref :: bool

record start_pod_cmd =
  sp_pod_id :: u64
  sp_deployment_id :: u64
  sp_image :: string
  sp_entrypoint :: string
  sp_port :: u16
  sp_gpu_count :: u8
  sp_gpu_type :: gpu_type
  sp_cpu_millicores :: u32
  sp_memory_megabytes :: u32
  sp_juicefs_path :: string
  sp_liveness_path :: string
  sp_readiness_path :: string
  sp_env_vars :: "env_entry list"
  sp_image_pull_registry :: string
  sp_image_pull_username :: string
  sp_image_pull_password :: string
  sp_image_pull_password_is_secret :: bool

record stop_pod_cmd =
  stp_pod_id :: u64
  stp_grace_period_ms :: u64

record probe_pod_cmd =
  prb_pod_id :: u64

record run_request_cmd =
  rr_request_id :: u64
  rr_deployment_id :: u64
  rr_payload :: "u8 list"

datatype control_message =
    StartPod start_pod_cmd
  | StopPod stop_pod_cmd
  | ProbePod probe_pod_cmd
  | RunRequest run_request_cmd

section \<open>Worker to control plane\<close>

record node_register_msg =
  nr_node_name :: string
  nr_cpu_millicores :: u32
  nr_memory_megabytes :: u32
  nr_gpu_type :: gpu_type
  nr_gpu_count :: u8

record node_heartbeat_msg =
  hb_tick :: u64
  hb_active_pods :: u32
  hb_gpu_free :: u8

datatype pod_status_report =
    ReportImagePulling
  | ReportCreating
  | ReportRunning
  | ReportStopped i32
  | ReportFailed string

record pod_status_event_msg =
  ev_pod_id :: u64
  ev_status :: pod_status_report

record run_response_msg =
  rsp_request_id :: u64
  rsp_status :: u8
  rsp_payload :: "u8 list"

datatype worker_message =
    NodeRegister node_register_msg
  | NodeHeartbeat node_heartbeat_msg
  | PodStatusEvent pod_status_event_msg
  | RunResponse run_response_msg

lemma gpu_code_inject [simp]: "gpu_code a = gpu_code b \<longleftrightarrow> a = b"
  by (cases a; cases b) simp_all

end
