(* ===== verification/Hive_Wire.thy ===== *)
theory Hive_Wire
  imports Hive_Messages
begin

text \<open>
  The payload half of \<^verbatim>\<open>worker/src/protocol.rs\<close>: the fixed-layout encoder of worker messages
  and the decoder of control messages, with every length check and every error. Lengths are
  natural numbers; a \<open>usize\<close> has 64 bits, and the two checked operations of the source keep
  their overflow branch. \<open>wire_start_pod\<close> and its companions state the layout the control
  plane writes; decoding it gives the command back.
\<close>

section \<open>Errors and constants\<close>

datatype io_error_kind = InvalidData | InvalidInput | WriteZero | UnexpectedEof | WouldBlock | Interrupted | OtherIo

type_synonym io_error = "io_error_kind \<times> string"

definition MSG_START_POD :: u8 where "MSG_START_POD = 0x02"
definition MSG_STOP_POD :: u8 where "MSG_STOP_POD = 0x03"
definition MSG_PROBE_POD :: u8 where "MSG_PROBE_POD = 0x05"
definition MSG_RUN_REQUEST :: u8 where "MSG_RUN_REQUEST = 0x04"
definition MSG_NODE_REGISTER :: u8 where "MSG_NODE_REGISTER = 0x10"
definition MSG_NODE_HEARTBEAT :: u8 where "MSG_NODE_HEARTBEAT = 0x11"
definition MSG_POD_STATUS_EVENT :: u8 where "MSG_POD_STATUS_EVENT = 0x12"
definition MSG_RUN_RESPONSE :: u8 where "MSG_RUN_RESPONSE = 0x13"

lemmas msg_tags = MSG_START_POD_def MSG_STOP_POD_def MSG_PROBE_POD_def MSG_RUN_REQUEST_def
  MSG_NODE_REGISTER_def MSG_NODE_HEARTBEAT_def MSG_POD_STATUS_EVENT_def MSG_RUN_RESPONSE_def

definition MAX_FRAME_PAYLOAD :: nat where "MAX_FRAME_PAYLOAD = 16 * 1024"
definition MAX_RUN_PAYLOAD :: nat where "MAX_RUN_PAYLOAD = 512"
definition MAX_RUN_RESPONSE_BODY :: nat where "MAX_RUN_RESPONSE_BODY = MAX_FRAME_PAYLOAD - 9"
definition STOP_POD_PAYLOAD_LEN :: nat where "STOP_POD_PAYLOAD_LEN = 16"
definition PROBE_POD_PAYLOAD_LEN :: nat where "PROBE_POD_PAYLOAD_LEN = 8"
definition NODE_REGISTER_PAYLOAD_LEN :: nat where "NODE_REGISTER_PAYLOAD_LEN = 138"
definition NODE_HEARTBEAT_PAYLOAD_LEN :: nat where "NODE_HEARTBEAT_PAYLOAD_LEN = 23"
definition POD_STATUS_EVENT_PAYLOAD_LEN :: nat where "POD_STATUS_EVENT_PAYLOAD_LEN = 150"

lemmas wire_consts = MAX_FRAME_PAYLOAD_def MAX_RUN_PAYLOAD_def MAX_RUN_RESPONSE_BODY_def
  STOP_POD_PAYLOAD_LEN_def PROBE_POD_PAYLOAD_LEN_def NODE_REGISTER_PAYLOAD_LEN_def
  NODE_HEARTBEAT_PAYLOAD_LEN_def POD_STATUS_EVENT_PAYLOAD_LEN_def

datatype run_status =
    RunOk | DeploymentNotFound | QueueFull | InvalidPayload | ResponseTooLargeStatus
  | OutcomeAmbiguous | ForwardingFailed | NoRunningPod | Unavailable | NotLeader

primrec run_status_code :: "run_status \<Rightarrow> u8" where
  "run_status_code RunOk = 0"
| "run_status_code DeploymentNotFound = 1"
| "run_status_code QueueFull = 2"
| "run_status_code InvalidPayload = 3"
| "run_status_code ResponseTooLargeStatus = 4"
| "run_status_code OutcomeAmbiguous = 5"
| "run_status_code ForwardingFailed = 6"
| "run_status_code NoRunningPod = 7"
| "run_status_code Unavailable = 8"
| "run_status_code NotLeader = 9"

definition RUN_STATUS_RESPONSE_TOO_LARGE :: u8 where
  "RUN_STATUS_RESPONSE_TOO_LARGE = run_status_code ResponseTooLargeStatus"
definition RUN_STATUS_FORWARDING_FAILED :: u8 where
  "RUN_STATUS_FORWARDING_FAILED = run_status_code ForwardingFailed"
definition RUN_STATUS_NO_RUNNING_POD :: u8 where
  "RUN_STATUS_NO_RUNNING_POD = run_status_code NoRunningPod"

section \<open>Helpers\<close>

definition fixed_payload_mut :: "u8 list \<Rightarrow> nat \<Rightarrow> string \<Rightarrow> io_error + u8 list" where
  "fixed_payload_mut buf payload_len message =
     (if payload_len \<le> length buf then Inr (overwrite_at 0 (replicate payload_len 0) buf)
      else Inl (WriteZero, message @ '' buffer too small''))"

definition str_to_fixed :: "nat \<Rightarrow> string \<Rightarrow> u8 list" where
  "str_to_fixed n s = (let len = min (length s) n in
     overwrite_at 0 (take len (as_bytes s)) (replicate n 0))"

definition fixed_to_string :: "u8 list \<Rightarrow> string" where
  "fixed_to_string buf = from_utf8_lossy (takeWhile (\<lambda>b. b \<noteq> 0) buf)"

definition decode_bool :: "u8 \<Rightarrow> string \<Rightarrow> io_error + bool" where
  "decode_bool v field =
     (if v = 0 then Inr False else if v = 1 then Inr True
      else Inl (InvalidData, field @ '' must be 0 or 1, got '' @ dec (unat v)))"

definition u8_to_gpu_type :: "u8 \<Rightarrow> io_error + gpu_type" where
  "u8_to_gpu_type v =
     (if v = 0 then Inr GpuNone else if v = 1 then Inr A100_40 else if v = 2 then Inr A100_80
      else if v = 3 then Inr H100Sxm else if v = 4 then Inr H100Pcie else if v = 5 then Inr H200
      else if v = 6 then Inr L40s else if v = 7 then Inr A10g else if v = 8 then Inr T4
      else Inl (InvalidData, ''invalid StartPod GPU type: '' @ dec (unat v)))"

definition usize_checked_mul :: "nat \<Rightarrow> nat \<Rightarrow> nat option" where
  "usize_checked_mul a b = (if a * b < 2 ^ 64 then Some (a * b) else None)"

definition usize_checked_add :: "nat \<Rightarrow> nat \<Rightarrow> nat option" where
  "usize_checked_add a b = (if a + b < 2 ^ 64 then Some (a + b) else None)"

section \<open>Encoding worker messages\<close>

text \<open>The result and the buffer after the call; the buffer may be written even on an error.\<close>

definition encode_node_register :: "node_register_msg \<Rightarrow> u8 list \<Rightarrow> (io_error + u8 \<times> nat) \<times> u8 list" where
  "encode_node_register m buf =
     (case fixed_payload_mut buf NODE_REGISTER_PAYLOAD_LEN ''NodeRegister'' of
        Inl e \<Rightarrow> (Inl e, buf)
      | Inr payload \<Rightarrow>
          (Inr (MSG_NODE_REGISTER, NODE_REGISTER_PAYLOAD_LEN),
           overwrite_at 73 [nr_gpu_count m]
             (overwrite_at 72 [gpu_code (nr_gpu_type m)]
               (overwrite_at 68 (u32_to_le (nr_memory_megabytes m))
                 (overwrite_at 64 (u32_to_le (nr_cpu_millicores m))
                   (overwrite_at 0 (str_to_fixed 64 (nr_node_name m)) payload))))))"

definition encode_node_heartbeat :: "node_heartbeat_msg \<Rightarrow> u8 list \<Rightarrow> (io_error + u8 \<times> nat) \<times> u8 list" where
  "encode_node_heartbeat m buf =
     (case fixed_payload_mut buf NODE_HEARTBEAT_PAYLOAD_LEN ''NodeHeartbeat'' of
        Inl e \<Rightarrow> (Inl e, buf)
      | Inr payload \<Rightarrow>
          (Inr (MSG_NODE_HEARTBEAT, NODE_HEARTBEAT_PAYLOAD_LEN),
           overwrite_at 21 (u16_to_le (ucast (hb_active_pods m)))
             (overwrite_at 0 (u64_to_le (hb_tick m)) payload)))"

primrec report_fields :: "pod_status_report \<Rightarrow> u8 \<times> i32 \<times> string" where
  "report_fields ReportImagePulling = (0, 0, ''pulling'')"
| "report_fields ReportCreating = (1, 0, ''creating'')"
| "report_fields ReportRunning = (2, 0, ''running'')"
| "report_fields (ReportStopped exit_code) = (3, exit_code, ''stopped'')"
| "report_fields (ReportFailed reason) = (4, 1, reason)"

definition encode_pod_status_event ::
    "pod_status_event_msg \<Rightarrow> u8 list \<Rightarrow> (io_error + u8 \<times> nat) \<times> u8 list" where
  "encode_pod_status_event m buf =
     (let (new_phase, exit_code, message) = report_fields (ev_status m) in
      case fixed_payload_mut buf POD_STATUS_EVENT_PAYLOAD_LEN ''PodStatusEvent'' of
        Inl e \<Rightarrow> (Inl e, buf)
      | Inr payload \<Rightarrow>
          (Inr (MSG_POD_STATUS_EVENT, POD_STATUS_EVENT_PAYLOAD_LEN),
           overwrite_at 22 (str_to_fixed 128 message)
             (overwrite_at 18 (u32_to_le exit_code)
               (overwrite_at 9 [new_phase]
                 (overwrite_at 0 (u64_to_le (ev_pod_id m)) payload)))))"

definition encode_run_response :: "run_response_msg \<Rightarrow> u8 list \<Rightarrow> (io_error + u8 \<times> nat) \<times> u8 list" where
  "encode_run_response m buf =
     (if length buf < 9 then (Inl (WriteZero, ''RunResponse buffer too small''), buf)
      else let buf1 = overwrite_at 0 (u64_to_le (rsp_request_id m)) buf in
        if rsp_status m \<ge> run_status_code NotLeader then
          (Inl (InvalidData, ''worker RunResponse status must be in 0..=8''), buf1)
        else if length (rsp_payload m) > MAX_RUN_RESPONSE_BODY then
          (Inr (MSG_RUN_RESPONSE, 9), overwrite_at 8 [RUN_STATUS_RESPONSE_TOO_LARGE] buf1)
        else if length (rsp_payload m) > length buf - 9 then
          (Inl (WriteZero, ''RunResponse buffer too small''), buf1)
        else (Inr (MSG_RUN_RESPONSE, 9 + length (rsp_payload m)),
              overwrite_at 9 (rsp_payload m) (overwrite_at 8 [rsp_status m] buf1)))"

primrec encode_agent_message :: "worker_message \<Rightarrow> u8 list \<Rightarrow> (io_error + u8 \<times> nat) \<times> u8 list" where
  "encode_agent_message (NodeRegister m) buf = encode_node_register m buf"
| "encode_agent_message (NodeHeartbeat m) buf = encode_node_heartbeat m buf"
| "encode_agent_message (PodStatusEvent m) buf = encode_pod_status_event m buf"
| "encode_agent_message (RunResponse m) buf = encode_run_response m buf"

section \<open>Decoding control messages\<close>

definition START_POD_FIXED_SIZE :: nat where
  "START_POD_FIXED_SIZE = 8 + 8 + 256 + 256 + 2 + 1 + 1 + 4 + 4 + 128 + 64 + 64 + 1"
definition ENV_ENTRY_SIZE :: nat where
  "ENV_ENTRY_SIZE = 64 + 256 + 1"
definition REGISTRY_AUTH_TRAILER_SIZE :: nat where
  "REGISTRY_AUTH_TRAILER_SIZE = 1 + 128 + 64 + 256 + 1"

lemmas start_pod_sizes = START_POD_FIXED_SIZE_def ENV_ENTRY_SIZE_def REGISTRY_AUTH_TRAILER_SIZE_def

fun decode_env_entries :: "nat \<Rightarrow> nat \<Rightarrow> u8 list \<Rightarrow> io_error + env_entry list" where
  "decode_env_entries 0 pos payload = Inr []"
| "decode_env_entries (Suc n) pos payload =
     and_then (decode_bool (payload ! (pos + 320)) ''StartPod env secret flag'') (\<lambda>is_secret_ref.
       and_then (decode_env_entries n (pos + 321) payload) (\<lambda>rest.
         Inr (\<lparr>en_name = fixed_to_string (slice pos (pos + 64) payload),
               en_value = fixed_to_string (slice (pos + 64) (pos + 320) payload),
               en_is_secret_ref = is_secret_ref\<rparr> # rest)))"

definition decode_registry_auth ::
    "nat \<Rightarrow> u8 list \<Rightarrow> io_error + (nat \<times> string \<times> string \<times> string \<times> bool)" where
  "decode_registry_auth pos payload =
     (let remaining = length payload - pos in
      if remaining = 0 then Inr (pos, [], [], [], False)
      else if remaining \<noteq> REGISTRY_AUTH_TRAILER_SIZE \<or> payload ! pos \<noteq> 0x01 then
        Inl (InvalidData, ''StartPod registry auth trailer invalid'')
      else
        and_then (decode_bool (payload ! (pos + 449)) ''StartPod image pull secret flag'') (\<lambda>secret.
          Inr (pos + 450,
               fixed_to_string (slice (pos + 1) (pos + 129) payload),
               fixed_to_string (slice (pos + 129) (pos + 193) payload),
               fixed_to_string (slice (pos + 193) (pos + 449) payload),
               secret)))"

definition decode_start_pod :: "u8 list \<Rightarrow> io_error + control_message" where
  "decode_start_pod payload =
     (if length payload < START_POD_FIXED_SIZE then Inl (InvalidData, ''StartPod payload too short'')
      else
        and_then (u8_to_gpu_type (payload ! 531)) (\<lambda>gpu_type.
        let env_count = unat (payload ! 796); pos = 797 in
        and_then (expect (usize_checked_mul env_count ENV_ENTRY_SIZE)
                   (InvalidData, ''StartPod env length overflow'')) (\<lambda>env_bytes.
        and_then (expect (usize_checked_add pos env_bytes)
                   (InvalidData, ''StartPod env length overflow'')) (\<lambda>env_end.
        and_then (ensure (env_end \<le> length payload)
                   (InvalidData, ''StartPod env entries truncated'')) (\<lambda>_.
        and_then (decode_env_entries env_count pos payload) (\<lambda>env_vars.
        and_then (decode_registry_auth env_end payload) (\<lambda>(pos', registry, username, password, secret).
        and_then (ensure (pos' = length payload)
                   (InvalidData, ''StartPod payload has trailing bytes'')) (\<lambda>_.
        Inr (StartPod
          \<lparr>sp_pod_id = u64_from_le (slice 0 8 payload),
           sp_deployment_id = u64_from_le (slice 8 16 payload),
           sp_image = fixed_to_string (slice 16 272 payload),
           sp_entrypoint = fixed_to_string (slice 272 528 payload),
           sp_port = u16_from_le (slice 528 530 payload),
           sp_gpu_count = payload ! 530,
           sp_gpu_type = gpu_type,
           sp_cpu_millicores = u32_from_le (slice 532 536 payload),
           sp_memory_megabytes = u32_from_le (slice 536 540 payload),
           sp_juicefs_path = fixed_to_string (slice 540 668 payload),
           sp_liveness_path = fixed_to_string (slice 668 732 payload),
           sp_readiness_path = fixed_to_string (slice 732 796 payload),
           sp_env_vars = env_vars,
           sp_image_pull_registry = registry,
           sp_image_pull_username = username,
           sp_image_pull_password = password,
           sp_image_pull_password_is_secret = secret\<rparr>)))))))))"

definition decode_stop_pod :: "u8 list \<Rightarrow> io_error + control_message" where
  "decode_stop_pod payload =
     (if length payload \<noteq> STOP_POD_PAYLOAD_LEN then
        Inl (InvalidData, ''StopPod payload length invalid'')
      else Inr (StopPod \<lparr>stp_pod_id = u64_from_le (slice 0 8 payload),
                         stp_grace_period_ms = u64_from_le (slice 8 16 payload)\<rparr>))"

definition decode_probe_pod :: "u8 list \<Rightarrow> io_error + control_message" where
  "decode_probe_pod payload =
     (if length payload \<noteq> PROBE_POD_PAYLOAD_LEN then
        Inl (InvalidData, ''ProbePod payload length invalid'')
      else Inr (ProbePod \<lparr>prb_pod_id = u64_from_le (slice 0 8 payload)\<rparr>))"

definition decode_run_request :: "u8 list \<Rightarrow> io_error + control_message" where
  "decode_run_request payload =
     (if length payload < 20 then Inl (InvalidData, ''RunRequest payload too short'')
      else
        let declared_len = unat (u32_from_le (slice 16 20 payload)); body = drop 20 payload in
        if declared_len > MAX_RUN_PAYLOAD \<or> length body \<noteq> declared_len then
          Inl (InvalidData, ''RunRequest payload length mismatch'')
        else Inr (RunRequest \<lparr>rr_request_id = u64_from_le (slice 0 8 payload),
                              rr_deployment_id = u64_from_le (slice 8 16 payload),
                              rr_payload = body\<rparr>))"

definition decode_control_message :: "u8 \<Rightarrow> u8 list \<Rightarrow> io_error + control_message" where
  "decode_control_message msg_type payload =
     (if msg_type = MSG_START_POD then decode_start_pod payload
      else if msg_type = MSG_STOP_POD then decode_stop_pod payload
      else if msg_type = MSG_PROBE_POD then decode_probe_pod payload
      else if msg_type = MSG_RUN_REQUEST then decode_run_request payload
      else Inl (InvalidData, ''unknown message type: 0x'' @ hex02 msg_type))"

section \<open>The layout the control plane writes\<close>

text \<open>
  A string field holds a string of at most its width, in valid UTF-8 and without a zero byte.
\<close>

definition fits :: "nat \<Rightarrow> string \<Rightarrow> bool" where
  "fits n s = (length s \<le> n \<and> utf8_valid (as_bytes s) \<and> 0 \<notin> set (as_bytes s))"

definition flag :: "bool \<Rightarrow> u8" where
  "flag b = (if b then 1 else 0)"

definition wire_env_entry :: "env_entry \<Rightarrow> u8 list" where
  "wire_env_entry e =
     str_to_fixed 64 (en_name e) @ str_to_fixed 256 (en_value e)
       @ [flag (en_is_secret_ref e)]"

definition wire_start_pod :: "start_pod_cmd \<Rightarrow> u8 list" where
  "wire_start_pod c =
     u64_to_le (sp_pod_id c) @ u64_to_le (sp_deployment_id c)
       @ str_to_fixed 256 (sp_image c) @ str_to_fixed 256 (sp_entrypoint c)
       @ u16_to_le (sp_port c) @ [sp_gpu_count c] @ [gpu_code (sp_gpu_type c)]
       @ u32_to_le (sp_cpu_millicores c) @ u32_to_le (sp_memory_megabytes c)
       @ str_to_fixed 128 (sp_juicefs_path c) @ str_to_fixed 64 (sp_liveness_path c)
       @ str_to_fixed 64 (sp_readiness_path c) @ [word_of_nat (length (sp_env_vars c))]
       @ concat (map wire_env_entry (sp_env_vars c))
       @ [1] @ str_to_fixed 128 (sp_image_pull_registry c)
       @ str_to_fixed 64 (sp_image_pull_username c) @ str_to_fixed 256 (sp_image_pull_password c)
       @ [flag (sp_image_pull_password_is_secret c)]"

definition start_pod_fits :: "start_pod_cmd \<Rightarrow> bool" where
  "start_pod_fits c =
     (fits 256 (sp_image c) \<and> fits 256 (sp_entrypoint c) \<and> fits 128 (sp_juicefs_path c)
      \<and> fits 64 (sp_liveness_path c) \<and> fits 64 (sp_readiness_path c)
      \<and> length (sp_env_vars c) < 256
      \<and> list_all (\<lambda>e. fits 64 (en_name e) \<and> fits 256 (en_value e)) (sp_env_vars c)
      \<and> fits 128 (sp_image_pull_registry c) \<and> fits 64 (sp_image_pull_username c)
      \<and> fits 256 (sp_image_pull_password c))"

definition wire_run_request :: "run_request_cmd \<Rightarrow> u8 list" where
  "wire_run_request c =
     u64_to_le (rr_request_id c) @ u64_to_le (rr_deployment_id c)
       @ u32_to_le (word_of_nat (length (rr_payload c))) @ rr_payload c"

section \<open>Lemmas on slices of a layout\<close>

lemma slice_skip:
  "length xs \<le> i \<Longrightarrow> slice i j (xs @ ys) = slice (i - length xs) (j - length xs) ys"
  by (simp add: slice_def)

lemma slice_head: "j \<le> length xs \<Longrightarrow> slice i j (xs @ ys) = slice i j xs"
  by (simp add: slice_def)

lemma slice_all: "length xs = j \<Longrightarrow> slice 0 j xs = xs"
  by (simp add: slice_def)

lemma nth_skip: "length xs \<le> i \<Longrightarrow> (xs @ ys) ! i = ys ! (i - length xs)"
  by (simp add: nth_append)

lemma slice_Cons: "0 < i \<Longrightarrow> slice i j (x # xs) = slice (i - 1) (j - 1) xs"
  by (cases i) (auto simp: slice_def)

lemmas layout_simps = slice_Cons slice_skip slice_head slice_all nth_skip

lemma str_to_fixed_eq: "length s \<le> n \<Longrightarrow> str_to_fixed n s = as_bytes s @ replicate (n - length s) 0"
  by (simp add: str_to_fixed_def overwrite_at_def)

lemma length_str_to_fixed [simp]: "length (str_to_fixed n s) = n"
  by (simp add: str_to_fixed_def overwrite_at_def Let_def)

lemma str_to_fixed_truncates: "n \<le> length s \<Longrightarrow> str_to_fixed n s = take n (as_bytes s)"
  by (simp add: str_to_fixed_def overwrite_at_def min_def)

lemma fixed_to_string_str_to_fixed:
  assumes "fits n s"
  shows "fixed_to_string (str_to_fixed n s) = s"
proof -
  have "takeWhile (\<lambda>b. b \<noteq> 0) (as_bytes s @ replicate (n - length s) (0 :: u8)) = as_bytes s"
    using assms by (subst takeWhile_append2) (auto simp: fits_def takeWhile_replicate)
  then show ?thesis
    using assms by (simp add: fits_def str_to_fixed_eq fixed_to_string_def from_utf8_lossy_as_bytes)
qed

lemma decode_bool_flag [simp]: "decode_bool (flag b) f = Inr b"
  by (simp add: decode_bool_def flag_def)

lemma u8_to_gpu_type_code [simp]: "u8_to_gpu_type (gpu_code g) = Inr g"
  by (cases g) (simp_all add: u8_to_gpu_type_def)

lemma length_wire_env_entry [simp]: "length (wire_env_entry e) = 321"
  by (simp add: wire_env_entry_def)

lemma length_concat_wire_env [simp]: "length (concat (map wire_env_entry es)) = 321 * length es"
  by (induction es) simp_all

lemma decode_env_entries_wire:
  assumes "list_all (\<lambda>e. fits 64 (en_name e) \<and> fits 256 (en_value e)) es"
  shows "decode_env_entries (length es) (length pre) (pre @ concat (map wire_env_entry es) @ post) = Inr es"
  using assms
proof (induction es arbitrary: pre)
  case Nil
  then show ?case by simp
next
  case (Cons e es)
  have "decode_env_entries (length es) (length (pre @ wire_env_entry e))
          ((pre @ wire_env_entry e) @ concat (map wire_env_entry es) @ post) = Inr es"
    using Cons by (intro Cons.IH) simp
  then have rest: "decode_env_entries (length es) (length pre + 321)
          (pre @ wire_env_entry e @ concat (map wire_env_entry es) @ post) = Inr es"
    by simp
  have "fits 64 (en_name e)" "fits 256 (en_value e)" using Cons.prems by simp_all
  then show ?case
    using rest
    by (simp add: wire_env_entry_def [of e] layout_simps fixed_to_string_str_to_fixed)
qed

lemma decode_registry_auth_wire:
  assumes "fits 128 r" "fits 64 u" "fits 256 p" and "length pre = pos"
  shows "decode_registry_auth pos
           (pre @ [1] @ str_to_fixed 128 r @ str_to_fixed 64 u @ str_to_fixed 256 p @ [flag b])
         = Inr (pos + 450, r, u, p, b)"
  using assms
  by (simp add: decode_registry_auth_def start_pod_sizes layout_simps fixed_to_string_str_to_fixed)

section \<open>Decoding inverts the layout\<close>

text \<open>The three parts of the layout of a StartPod command: fixed fields, environment, registry trailer.\<close>

definition start_pod_head :: "start_pod_cmd \<Rightarrow> u8 list" where
  "start_pod_head c =
     u64_to_le (sp_pod_id c) @ u64_to_le (sp_deployment_id c)
       @ str_to_fixed 256 (sp_image c) @ str_to_fixed 256 (sp_entrypoint c)
       @ u16_to_le (sp_port c) @ [sp_gpu_count c] @ [gpu_code (sp_gpu_type c)]
       @ u32_to_le (sp_cpu_millicores c) @ u32_to_le (sp_memory_megabytes c)
       @ str_to_fixed 128 (sp_juicefs_path c) @ str_to_fixed 64 (sp_liveness_path c)
       @ str_to_fixed 64 (sp_readiness_path c) @ [word_of_nat (length (sp_env_vars c))]"

definition start_pod_trailer :: "start_pod_cmd \<Rightarrow> u8 list" where
  "start_pod_trailer c =
     [1] @ str_to_fixed 128 (sp_image_pull_registry c) @ str_to_fixed 64 (sp_image_pull_username c)
       @ str_to_fixed 256 (sp_image_pull_password c) @ [flag (sp_image_pull_password_is_secret c)]"

lemma wire_start_pod_parts:
  "wire_start_pod c = start_pod_head c @ concat (map wire_env_entry (sp_env_vars c)) @ start_pod_trailer c"
  "length (start_pod_head c) = 797" "length (concat (map wire_env_entry (sp_env_vars c))) = 321 * length (sp_env_vars c)"
  "length (start_pod_trailer c) = 450"
  by (simp_all add: wire_start_pod_def start_pod_head_def start_pod_trailer_def)

lemma start_pod_head_fields:
  assumes "start_pod_fits c"
  shows "(start_pod_head c @ rest) ! 531 = gpu_code (sp_gpu_type c)" "(start_pod_head c @ rest) ! 530 = sp_gpu_count c"
    "unat ((start_pod_head c @ rest) ! 796) = length (sp_env_vars c)"
    "u64_from_le (slice 0 8 (start_pod_head c @ rest)) = sp_pod_id c"
    "u64_from_le (slice 8 16 (start_pod_head c @ rest)) = sp_deployment_id c"
    "u16_from_le (slice 528 530 (start_pod_head c @ rest)) = sp_port c"
    "u32_from_le (slice 532 536 (start_pod_head c @ rest)) = sp_cpu_millicores c"
    "u32_from_le (slice 536 540 (start_pod_head c @ rest)) = sp_memory_megabytes c"
    "fixed_to_string (slice 16 272 (start_pod_head c @ rest)) = sp_image c"
    "fixed_to_string (slice 272 528 (start_pod_head c @ rest)) = sp_entrypoint c"
    "fixed_to_string (slice 540 668 (start_pod_head c @ rest)) = sp_juicefs_path c"
    "fixed_to_string (slice 668 732 (start_pod_head c @ rest)) = sp_liveness_path c"
    "fixed_to_string (slice 732 796 (start_pod_head c @ rest)) = sp_readiness_path c"
  using assms
  by (simp_all add: start_pod_head_def layout_simps unat_word_of_nat_u8 fixed_to_string_str_to_fixed start_pod_fits_def)

lemma decode_start_pod_wire:
  assumes "start_pod_fits c"
  shows "decode_start_pod (wire_start_pod c) = Inr (StartPod c)"
proof -
  let ?es = "sp_env_vars c"
  let ?env = "concat (map wire_env_entry ?es)"
  note parts = wire_start_pod_parts [of c]
  have env_ok: "decode_env_entries (length ?es) 797 (start_pod_head c @ ?env @ start_pod_trailer c) = Inr ?es"
    using decode_env_entries_wire [of ?es "start_pod_head c" "start_pod_trailer c"] assms
    by (simp add: start_pod_fits_def parts)
  have "decode_registry_auth (797 + 321 * length ?es) ((start_pod_head c @ ?env) @ start_pod_trailer c)
      = Inr (797 + 321 * length ?es + 450, sp_image_pull_registry c, sp_image_pull_username c,
          sp_image_pull_password c, sp_image_pull_password_is_secret c)"
    unfolding start_pod_trailer_def
    by (rule decode_registry_auth_wire) (use assms in \<open>simp_all add: start_pod_fits_def parts\<close>)
  then have auth_ok: "decode_registry_auth (797 + length ?es * 321) (start_pod_head c @ ?env @ start_pod_trailer c)
      = Inr (1247 + length ?es * 321, sp_image_pull_registry c, sp_image_pull_username c,
          sp_image_pull_password c, sp_image_pull_password_is_secret c)"
    by (simp add: mult.commute)
  have "length ?es < 256" using assms by (simp add: start_pod_fits_def)
  then show ?thesis
    unfolding parts(1) decode_start_pod_def
    by (simp add: start_pod_head_fields [OF assms] env_ok auth_ok parts(2-) start_pod_sizes
        usize_checked_mul_def usize_checked_add_def)
qed

lemma length_decode_env_entries:
  "decode_env_entries n pos payload = Inr es \<Longrightarrow> length es = n"
  by (induction n pos payload arbitrary: es rule: decode_env_entries.induct) (auto simp: res_simps)

lemma decode_registry_auth_pos:
  "decode_registry_auth pos payload = Inr (pos', a, b, c, d) \<Longrightarrow> pos \<le> length payload
     \<Longrightarrow> length payload = pos \<or> length payload = pos + 450"
  by (auto simp: decode_registry_auth_def Let_def start_pod_sizes res_simps split: if_splits)

lemma decode_start_pod_length:
  assumes "decode_start_pod payload = Inr m"
  shows "\<exists>c. m = StartPod c \<and> (length payload = 797 + 321 * length (sp_env_vars c)
            \<or> length payload = 797 + 321 * length (sp_env_vars c) + 450)"
proof -
  from assms obtain es pos' a b c d where
    es: "decode_env_entries (unat (payload ! 796)) 797 payload = Inr es"
    and le: "797 + unat (payload ! 796) * 321 \<le> length payload"
    and auth: "decode_registry_auth (797 + unat (payload ! 796) * 321) payload = Inr (pos', a, b, c, d)"
    and m: "\<exists>c. m = StartPod c \<and> sp_env_vars c = es"
    by (auto simp: decode_start_pod_def Let_def res_simps start_pod_sizes usize_checked_mul_def
        usize_checked_add_def split: if_splits)
  from decode_registry_auth_pos [OF auth le] length_decode_env_entries [OF es] m
  show ?thesis by (auto simp: mult.commute)
qed

section \<open>The layout of encoded worker messages\<close>

lemma overwrite_at_0 [simp]: "overwrite_at 0 ys xs = ys @ drop (length ys) xs"
  by (simp add: overwrite_at_def)

lemma overwrite_at_append:
  "length ws \<le> i \<Longrightarrow> overwrite_at i ys (ws @ xs) = ws @ overwrite_at (i - length ws) ys xs"
  by (simp add: overwrite_at_def)

lemma overwrite_at_Cons: "0 < i \<Longrightarrow> overwrite_at i ys (x # xs) = x # overwrite_at (i - 1) ys xs"
  by (cases i) (auto simp: overwrite_at_def)

lemma fixed_payload_mut_Inr:
  "fixed_payload_mut buf n msg = Inr p \<longleftrightarrow> n \<le> length buf \<and> p = replicate n 0 @ drop n buf"
  by (auto simp: fixed_payload_mut_def)

definition wire_worker_message :: "worker_message \<Rightarrow> u8 list" where
  "wire_worker_message m =
     (case m of
        NodeRegister r \<Rightarrow>
          str_to_fixed 64 (nr_node_name r) @ u32_to_le (nr_cpu_millicores r)
            @ u32_to_le (nr_memory_megabytes r) @ [gpu_code (nr_gpu_type r), nr_gpu_count r]
            @ replicate 64 0
      | NodeHeartbeat h \<Rightarrow>
          u64_to_le (hb_tick h) @ replicate 13 0 @ u16_to_le (ucast (hb_active_pods h))
      | PodStatusEvent e \<Rightarrow>
          (let (phase, code, message) = report_fields (ev_status e) in
           u64_to_le (ev_pod_id e) @ [0, phase] @ replicate 8 0 @ u32_to_le code
             @ str_to_fixed 128 message)
      | RunResponse r \<Rightarrow>
          if length (rsp_payload r) > MAX_RUN_RESPONSE_BODY
          then u64_to_le (rsp_request_id r) @ [RUN_STATUS_RESPONSE_TOO_LARGE]
          else u64_to_le (rsp_request_id r) @ [rsp_status r] @ rsp_payload r)"

definition message_tag :: "worker_message \<Rightarrow> u8" where
  "message_tag m =
     (case m of NodeRegister _ \<Rightarrow> MSG_NODE_REGISTER | NodeHeartbeat _ \<Rightarrow> MSG_NODE_HEARTBEAT
      | PodStatusEvent _ \<Rightarrow> MSG_POD_STATUS_EVENT | RunResponse _ \<Rightarrow> MSG_RUN_RESPONSE)"

definition worker_message_ok :: "worker_message \<Rightarrow> bool" where
  "worker_message_ok m = (case m of RunResponse r \<Rightarrow> unat (rsp_status r) < 9 | _ \<Rightarrow> True)"

lemma wire_worker_message_length:
  "length (wire_worker_message m) \<le> MAX_FRAME_PAYLOAD"
  by (cases m) (simp_all add: wire_worker_message_def wire_consts split: prod.split)

lemma encode_node_register_layout:
  assumes "138 \<le> length buf"
  shows "encode_node_register r buf =
     (Inr (MSG_NODE_REGISTER, 138),
      wire_worker_message (NodeRegister r) @ drop 138 buf)"
proof -
  have z: "replicate 138 (0 :: u8) = replicate 64 0 @ replicate 4 0 @ replicate 4 0 @ [0] @ [0] @ replicate 64 0"
    by (simp add: replicate_add [symmetric] replicate_append_same flip: replicate_Suc)
  show ?thesis
    using assms
    by (simp add: encode_node_register_def fixed_payload_mut_def wire_consts z
        wire_worker_message_def overwrite_at_append overwrite_at_Cons)
qed

lemma encode_node_heartbeat_layout:
  assumes "23 \<le> length buf"
  shows "encode_node_heartbeat h buf =
     (Inr (MSG_NODE_HEARTBEAT, 23), wire_worker_message (NodeHeartbeat h) @ drop 23 buf)"
proof -
  have z: "replicate 23 (0 :: u8) = replicate 8 0 @ replicate 13 0 @ replicate 2 0"
    by (simp add: replicate_add [symmetric])
  show ?thesis
    using assms
    by (simp add: encode_node_heartbeat_def fixed_payload_mut_def wire_consts z
        wire_worker_message_def overwrite_at_append overwrite_at_Cons)
qed

lemma encode_pod_status_event_layout:
  assumes "150 \<le> length buf"
  shows "encode_pod_status_event e buf =
     (Inr (MSG_POD_STATUS_EVENT, 150), wire_worker_message (PodStatusEvent e) @ drop 150 buf)"
proof -
  have z: "replicate 150 (0 :: u8) = replicate 8 0 @ [0] @ [0] @ replicate 8 0 @ replicate 4 0 @ replicate 128 0"
    by (simp add: replicate_add [symmetric] flip: replicate_Suc)
  show ?thesis
    using assms
    by (simp add: encode_pod_status_event_def fixed_payload_mut_def wire_consts z
        wire_worker_message_def overwrite_at_append overwrite_at_Cons split: prod.split)
qed

lemma encode_run_response_layout:
  assumes "MAX_FRAME_PAYLOAD \<le> length buf" and "unat (rsp_status r) < 9"
  shows "encode_run_response r buf =
     (Inr (MSG_RUN_RESPONSE, length (wire_worker_message (RunResponse r))),
      wire_worker_message (RunResponse r) @ drop (length (wire_worker_message (RunResponse r))) buf)"
proof -
  have st: "\<not> 9 \<le> rsp_status r"
    using assms(2) by (simp add: word_le_nat_alt)
  show ?thesis
    using assms(1)
    by (auto simp: encode_run_response_def wire_consts wire_worker_message_def st Let_def
        overwrite_at_append overwrite_at_def add.commute)
qed

section \<open>Properties\<close>


definition sample_start_pod :: start_pod_cmd where
  "sample_start_pod =
     \<lparr>sp_pod_id = 7, sp_deployment_id = 300, sp_image = ''nginx:latest'',
      sp_entrypoint = ''/bin/sh'', sp_port = 8080, sp_gpu_count = 2, sp_gpu_type = H100Sxm,
      sp_cpu_millicores = 4000, sp_memory_megabytes = 8192, sp_juicefs_path = [],
      sp_liveness_path = ''/health'', sp_readiness_path = [],
      sp_env_vars = [\<lparr>en_name = ''KEY'', en_value = ''db'', en_is_secret_ref = True\<rparr>],
      sp_image_pull_registry = ''ghcr.io'', sp_image_pull_username = ''bot'',
      sp_image_pull_password = ''pw'', sp_image_pull_password_is_secret = False\<rparr>"

lemma fits_ascii:
  "length s \<le> n \<Longrightarrow> \<forall>c \<in> set s. 0 < (of_char c :: nat) \<and> (of_char c :: nat) < 128 \<Longrightarrow> fits n s"
  by (auto simp: fits_def as_bytes_def intro!: utf8_valid_ascii)
     (metis less_numeral_extra(3) unat_byte_of_char unsigned_0)

lemma sample_start_pod_fits: "start_pod_fits sample_start_pod"
  by (simp add: start_pod_fits_def sample_start_pod_def fits_ascii)


definition exact_length :: "control_message \<Rightarrow> nat \<Rightarrow> bool" where
  "exact_length m n =
     (case m of
        StartPod c \<Rightarrow> n = 797 + 321 * length (sp_env_vars c) \<or> n = 797 + 321 * length (sp_env_vars c) + 450
      | StopPod _ \<Rightarrow> n = 16
      | ProbePod _ \<Rightarrow> n = 8
      | RunRequest c \<Rightarrow> n = 20 + length (rr_payload c) \<and> length (rr_payload c) \<le> MAX_RUN_PAYLOAD)"

text \<open>
  C21. A control payload is accepted only at its exact length: a StartPod has the fixed header,
  its environment entries and at most the registry trailer, a StopPod 16 bytes, a ProbePod 8,
  a RunRequest its 20-byte header and a body of at most 512 bytes. No trailing byte is ignored.
\<close>

theorem decode_control_message_exact_length:
  assumes "decode_control_message t payload = Inr m"
  shows "exact_length m (length payload)"
  using assms decode_start_pod_length [of payload m]
  by (auto simp: decode_control_message_def decode_stop_pod_def decode_probe_pod_def
      decode_run_request_def exact_length_def wire_consts Let_def split: if_splits)

theorem decode_control_message_exact_length_witness:
  "decode_control_message MSG_STOP_POD (u64_to_le 7 @ u64_to_le 5000)
     = Inr (StopPod \<lparr>stp_pod_id = 7, stp_grace_period_ms = 5000\<rparr>)
   \<and> exact_length (StopPod \<lparr>stp_pod_id = 7, stp_grace_period_ms = 5000\<rparr>)
        (length (u64_to_le 7 @ u64_to_le 5000))"
proof -
  have h: "decode_control_message MSG_STOP_POD (u64_to_le 7 @ u64_to_le 5000)
     = Inr (StopPod \<lparr>stp_pod_id = 7, stp_grace_period_ms = 5000\<rparr>)"
    by (simp add: decode_control_message_def decode_stop_pod_def msg_tags wire_consts layout_simps)
  show ?thesis using h decode_control_message_exact_length [OF h] by simp
qed

lemma decode_run_request_wire:
  "length (rr_payload c) \<le> MAX_RUN_PAYLOAD \<Longrightarrow> decode_control_message MSG_RUN_REQUEST (wire_run_request c) = Inr (RunRequest c)"
  by (simp add: decode_control_message_def decode_run_request_def msg_tags wire_run_request_def
      layout_simps wire_consts unat_of_nat)

text \<open>
  C22. A RunRequest is accepted exactly when it is the layout of a request with at most 512
  payload bytes: the declared length is the number of bytes that follow, and decoding loses
  nothing.
\<close>

theorem run_request_exact:
  "decode_control_message MSG_RUN_REQUEST payload = Inr m \<longleftrightarrow>
     (\<exists>c. m = RunRequest c \<and> length (rr_payload c) \<le> MAX_RUN_PAYLOAD \<and> payload = wire_run_request c)"
proof
  assume h: "decode_control_message MSG_RUN_REQUEST payload = Inr m"
  then have len: "20 \<le> length payload"
    and decl: "unat (u32_from_le (slice 16 20 payload)) = length payload - 20"
    and small: "length payload - 20 \<le> MAX_RUN_PAYLOAD"
    and m: "m = RunRequest \<lparr>rr_request_id = u64_from_le (slice 0 8 payload),
                rr_deployment_id = u64_from_le (slice 8 16 payload), rr_payload = drop 20 payload\<rparr>"
    by (auto simp: decode_control_message_def decode_run_request_def msg_tags Let_def split: if_splits)
  have "word_of_nat (length payload - 20) = u32_from_le (slice 16 20 payload)"
    by (simp flip: decl)
  moreover have "payload = slice 0 8 payload @ slice 8 16 payload @ slice 16 20 payload @ drop 20 payload"
    by (simp add: slice_append_drop)
  ultimately have "payload = wire_run_request \<lparr>rr_request_id = u64_from_le (slice 0 8 payload),
      rr_deployment_id = u64_from_le (slice 8 16 payload), rr_payload = drop 20 payload\<rparr>"
    using len by (simp add: wire_run_request_def u64_to_from_le u32_to_from_le)
  with m small show "\<exists>c. m = RunRequest c \<and> length (rr_payload c) \<le> MAX_RUN_PAYLOAD
      \<and> payload = wire_run_request c" by fastforce
next
  assume "\<exists>c. m = RunRequest c \<and> length (rr_payload c) \<le> MAX_RUN_PAYLOAD \<and> payload = wire_run_request c"
  then obtain c where c: "m = RunRequest c" "length (rr_payload c) \<le> MAX_RUN_PAYLOAD"
    "payload = wire_run_request c" by blast
  then show "decode_control_message MSG_RUN_REQUEST payload = Inr m" by (simp add: decode_run_request_wire)
qed

lemma encode_agent_message_eq:
  assumes "worker_message_ok m" and "MAX_FRAME_PAYLOAD \<le> length buf"
  shows "encode_agent_message m buf =
       (Inr (message_tag m, length (wire_worker_message m)),
        wire_worker_message m @ drop (length (wire_worker_message m)) buf)"
proof (cases m)
  case (NodeRegister r)
  then show ?thesis using assms(2)
    by (simp add: encode_node_register_layout wire_consts message_tag_def)
       (simp add: wire_worker_message_def)
next
  case (NodeHeartbeat h)
  then show ?thesis using assms(2)
    by (simp add: encode_node_heartbeat_layout wire_consts message_tag_def)
       (simp add: wire_worker_message_def)
next
  case (PodStatusEvent e)
  then show ?thesis using assms(2)
    by (simp add: encode_pod_status_event_layout wire_consts message_tag_def)
       (simp add: wire_worker_message_def split: prod.split)
next
  case (RunResponse r)
  then show ?thesis using assms
    by (simp add: encode_run_response_layout message_tag_def worker_message_ok_def)
qed

text \<open>
  C23. With a buffer of one frame payload, every worker message with a worker status is encoded:
  the result is its tag and length, the buffer holds its fixed layout followed by the untouched
  rest, the length fits a frame, and a response body over the bound is sent as status 4 without
  a body, never truncated.
\<close>

theorem encode_agent_message_layout:
  assumes "worker_message_ok m" and "MAX_FRAME_PAYLOAD \<le> length buf"
  shows "encode_agent_message m buf =
       (Inr (message_tag m, length (wire_worker_message m)),
        wire_worker_message m @ drop (length (wire_worker_message m)) buf)
     \<and> length (wire_worker_message m) \<le> MAX_FRAME_PAYLOAD"
  using encode_agent_message_eq [OF assms] wire_worker_message_length by simp

theorem encode_agent_message_layout_witness:
  "encode_agent_message (RunResponse \<lparr>rsp_request_id = 1, rsp_status = 0, rsp_payload = replicate 16376 7\<rparr>)
       (replicate 16384 0)
     = (Inr (MSG_RUN_RESPONSE, 9), u64_to_le 1 @ [4] @ replicate 16375 0)"
  using encode_agent_message_layout
    [of "RunResponse \<lparr>rsp_request_id = 1, rsp_status = 0, rsp_payload = replicate 16376 7\<rparr>"
      "replicate 16384 0"]
  by (simp add: worker_message_ok_def wire_consts wire_worker_message_def message_tag_def
      RUN_STATUS_RESPONSE_TOO_LARGE_def)

end
