(* ===== verification/Hive_Frame.thy ===== *)
theory Hive_Frame
  imports Hive_Wire
begin

text \<open>
  \<^verbatim>\<open>worker/src/crypto.rs\<close> and the frame half of \<^verbatim>\<open>worker/src/protocol.rs\<close>. A frame is a
  little-endian length, a flags byte and an inner part (version, tag, payload), sealed with an
  AEAD cipher when a key is configured. The cipher (\<open>chacha20poly1305\<close>), the key derivation
  (\<open>hkdf\<close>) and the random nonce are parameters. Writers and readers are state-passing
  interfaces, as \<open>impl Write\<close> and \<open>impl Read\<close> are in the source.
\<close>

section \<open>crypto.rs\<close>

definition KEY_LEN :: nat where "KEY_LEN = 32"
definition NONCE_LEN :: nat where "NONCE_LEN = 24"
definition TAG_LEN :: nat where "TAG_LEN = 16"

record encryption_state =
  es_enabled :: bool
  es_worker_key :: "u8 list"

text \<open>
  \<open>seal key nonce aad msg\<close> and \<open>open key nonce aad ciphertext\<close> of the cipher, and the key
  expansion \<open>salt, input key, info \<mapsto> key\<close>.
\<close>

record aead =
  aead_seal :: "u8 list \<Rightarrow> u8 list \<Rightarrow> u8 list \<Rightarrow> u8 list \<Rightarrow> u8 list option"
  aead_open :: "u8 list \<Rightarrow> u8 list \<Rightarrow> u8 list \<Rightarrow> u8 list \<Rightarrow> u8 list option"

definition hex_digit :: "char \<Rightarrow> nat option" where
  "hex_digit c =
     (let n = of_char c in
      if 48 \<le> n \<and> n \<le> 57 then Some (n - 48)
      else if 97 \<le> n \<and> n \<le> 102 then Some (n - 87)
      else if 65 \<le> n \<and> n \<le> 70 then Some (n - 55) else None)"

text \<open>
  \<open>u8::from_str_radix\<close> on two bytes: one leading plus sign is accepted, as the standard
  library does for unsigned types.
\<close>

definition u8_from_hex2 :: "char \<Rightarrow> char \<Rightarrow> u8 option" where
  "u8_from_hex2 a b =
     (if a = CHR ''+'' then map_option word_of_nat (hex_digit b)
      else case (hex_digit a, hex_digit b) of
             (Some x, Some y) \<Rightarrow> Some (word_of_nat (16 * x + y))
           | _ \<Rightarrow> None)"

text \<open>Slicing a \<open>str\<close> inside a character panics.\<close>

definition is_char_boundary :: "string \<Rightarrow> nat \<Rightarrow> bool" where
  "is_char_boundary s i =
     (i = 0 \<or> i = length s \<or> i < length s \<and> \<not> is_cont (of_char (s ! i)))"

fun hex_pairs :: "string \<Rightarrow> nat \<Rightarrow> nat \<Rightarrow> (unit + u8 list) res" where
  "hex_pairs hex i 0 = Inr (Inr [])"
| "hex_pairs hex i (Suc n) =
     and_then (ensure (is_char_boundary hex (i * 2) \<and> is_char_boundary hex (i * 2 + 2))
                ''byte index is not a char boundary'')
       (\<lambda>_. case u8_from_hex2 (hex ! (i * 2)) (hex ! (i * 2 + 1)) of
              None \<Rightarrow> Inr (Inl ())
            | Some b \<Rightarrow> and_then (hex_pairs hex (Suc i) n)
                 (\<lambda>r. Inr (case r of Inl u \<Rightarrow> Inl u | Inr bs \<Rightarrow> Inr (b # bs))))"

definition hex_decode :: "string \<Rightarrow> nat \<Rightarrow> (unit + u8 list) res" where
  "hex_decode hex out_len =
     (if length hex \<noteq> out_len * 2 then Inr (Inl ()) else hex_pairs hex 0 out_len)"

definition from_hex ::
    "(u8 list \<Rightarrow> u8 list \<Rightarrow> u8 list \<Rightarrow> u8 list option) \<Rightarrow> string \<Rightarrow> (string + encryption_state) res" where
  "from_hex hkdf_expand hex =
     (if length hex \<noteq> 64 then Inr (Inl ''key must be 64 hex chars (32 bytes)'')
      else and_then (hex_decode hex KEY_LEN)
        (\<lambda>r. case r of
               Inl _ \<Rightarrow> Inr (Inl ''invalid hex'')
             | Inr psk \<Rightarrow>
                 (case hkdf_expand (as_bytes ''hivemind-v1'') psk (as_bytes ''hivemind-agent-v1'') of
                    None \<Rightarrow> Inr (Inl ''hkdf expand failed'')
                  | Some worker_key \<Rightarrow>
                      Inr (Inr \<lparr>es_enabled = True, es_worker_key = worker_key\<rparr>))))"

definition disabled :: encryption_state where
  "disabled = \<lparr>es_enabled = False, es_worker_key = replicate KEY_LEN 0\<rparr>"

definition encrypt_frame :: "aead \<Rightarrow> u8 list \<Rightarrow> u8 list \<Rightarrow> u8 list \<Rightarrow> u8 list \<Rightarrow> u8 list res" where
  "encrypt_frame a nonce key plaintext aad =
     and_then (expect (aead_seal a key nonce aad plaintext) ''encryption failed'')
       (\<lambda>ciphertext. Inr (nonce @ ciphertext))"

definition decrypt_frame :: "aead \<Rightarrow> u8 list \<Rightarrow> u8 list \<Rightarrow> u8 list \<Rightarrow> string + u8 list" where
  "decrypt_frame a key encrypted_data aad =
     (if length encrypted_data < NONCE_LEN + TAG_LEN then Inl ''frame too short''
      else expect (aead_open a key (take NONCE_LEN encrypted_data) aad (drop NONCE_LEN encrypted_data))
             ''authentication failed'')"

section \<open>Frames\<close>

definition PROTOCOL_VERSION :: u16 where "PROTOCOL_VERSION = 6"
definition FRAME_FLAGS_LEN :: nat where "FRAME_FLAGS_LEN = 1"
definition FRAME_INNER_MIN :: nat where "FRAME_INNER_MIN = 3"
definition ENCRYPTED_FRAME_OVERHEAD :: nat where "ENCRYPTED_FRAME_OVERHEAD = NONCE_LEN + TAG_LEN"

lemmas frame_consts = KEY_LEN_def NONCE_LEN_def TAG_LEN_def PROTOCOL_VERSION_def FRAME_FLAGS_LEN_def
  FRAME_INNER_MIN_def ENCRYPTED_FRAME_OVERHEAD_def MAX_FRAME_PAYLOAD_def

definition validate_frame_declaration :: "nat \<Rightarrow> u8 \<Rightarrow> bool \<Rightarrow> io_error + nat" where
  "validate_frame_declaration total_len flags key_configured =
     (if flags \<noteq> 0 \<and> flags \<noteq> 1 then Inl (InvalidData, ''unknown frame flags: 0x'' @ hex02 flags)
      else if (flags = 1) \<noteq> key_configured then
        Inl (InvalidData, if flags = 1 then ''encrypted frame but no key''
                          else ''plaintext frame while key configured'')
      else if total_len < FRAME_FLAGS_LEN then Inl (InvalidData, ''frame too short'')
      else
        let remaining = total_len - FRAME_FLAGS_LEN;
            overhead = (if flags = 1 then ENCRYPTED_FRAME_OVERHEAD else 0);
            minimum = overhead + FRAME_INNER_MIN;
            maximum = overhead + FRAME_INNER_MIN + MAX_FRAME_PAYLOAD
        in if remaining < minimum then Inl (InvalidData, ''frame too short'')
           else if remaining > maximum then
             Inl (InvalidData, ''frame too large: declared='' @ dec remaining @ '' max='' @ dec maximum)
           else Inr remaining)"

definition validate_protocol_version :: "u8 list \<Rightarrow> io_error + unit" where
  "validate_protocol_version inner =
     (if length inner < FRAME_INNER_MIN then Inl (InvalidData, ''frame payload too short'')
      else let version = u16_from_le (take 2 inner) in
        if version \<noteq> PROTOCOL_VERSION then
          Inl (InvalidData, ''unsupported protocol version: '' @ dec (unat version))
        else Inr ())"

text \<open>A sink: \<open>write_all\<close> and \<open>flush\<close>.\<close>

record 'w writer =
  wr_write_all :: "u8 list \<Rightarrow> 'w \<Rightarrow> (io_error + unit) \<times> 'w"
  wr_flush :: "'w \<Rightarrow> (io_error + unit) \<times> 'w"

definition u32_try_from :: "nat \<Rightarrow> u32 option" where
  "u32_try_from n = (if n < 2 ^ 32 then Some (word_of_nat n) else None)"

fun write_parts :: "'w writer \<Rightarrow> u8 list list \<Rightarrow> 'w \<Rightarrow> (io_error + unit) \<times> 'w" where
  "write_parts wr [] w = wr_flush wr w"
| "write_parts wr (p # ps) w =
     (case wr_write_all wr p w of
        (Inl e, w') \<Rightarrow> (Inl e, w')
      | (Inr _, w') \<Rightarrow> write_parts wr ps w')"

definition write_frame_encrypted ::
    "aead \<Rightarrow> u8 list \<Rightarrow> 'w writer \<Rightarrow> 'w \<Rightarrow> u8 \<Rightarrow> u8 list \<Rightarrow> u8 list option
       \<Rightarrow> ((io_error + unit) \<times> 'w) res" where
  "write_frame_encrypted a nonce wr w msg_type payload key =
     (if length payload > MAX_FRAME_PAYLOAD then
        Inr (Inl (InvalidInput, ''frame payload too large: '' @ dec (length payload) @ '' > ''
                @ dec MAX_FRAME_PAYLOAD), w)
      else case usize_checked_add FRAME_INNER_MIN (length payload) of
        None \<Rightarrow> Inr (Inl (InvalidInput, ''frame length overflow''), w)
      | Some inner_len \<Rightarrow>
          let inner = u16_to_le PROTOCOL_VERSION @ [msg_type] @ payload in
          (case key of
             Some k \<Rightarrow>
               (case Option.bind (usize_checked_add NONCE_LEN (length inner)) (\<lambda>n. usize_checked_add n TAG_LEN) of
                  None \<Rightarrow> Inr (Inl (InvalidInput, ''frame length overflow''), w)
                | Some enc_payload_len \<Rightarrow>
                    (case Option.bind (usize_checked_add FRAME_FLAGS_LEN enc_payload_len) u32_try_from of
                       None \<Rightarrow> Inr (Inl (InvalidInput, ''frame length overflow''), w)
                     | Some frame_len \<Rightarrow>
                         let header = u32_to_le frame_len @ [1] in
                         and_then (encrypt_frame a nonce k inner header)
                           (\<lambda>encrypted. Inr (write_parts wr [header, encrypted] w))))
           | None \<Rightarrow>
               (case Option.bind (usize_checked_add FRAME_FLAGS_LEN inner_len) u32_try_from of
                  None \<Rightarrow> Inr (Inl (InvalidInput, ''frame length overflow''), w)
                | Some frame_len \<Rightarrow> Inr (write_parts wr [u32_to_le frame_len, [0], inner] w))))"

definition write_frame ::
    "aead \<Rightarrow> u8 list \<Rightarrow> 'w writer \<Rightarrow> 'w \<Rightarrow> u8 \<Rightarrow> u8 list \<Rightarrow> ((io_error + unit) \<times> 'w) res" where
  "write_frame a nonce wr w msg_type payload = write_frame_encrypted a nonce wr w msg_type payload None"

text \<open>
  The common end of both decoders: the version, the tag, and the payload copied into the
  buffer, which must be large enough.
\<close>

definition accept_plaintext :: "u8 list \<Rightarrow> u8 list \<Rightarrow> (io_error + u8 \<times> nat) \<times> u8 list" where
  "accept_plaintext plaintext buf =
     (case validate_protocol_version plaintext of
        Inl e \<Rightarrow> (Inl e, buf)
      | Inr _ \<Rightarrow>
          let payload_len = length plaintext - FRAME_INNER_MIN in
          if payload_len > length buf then
            (Inl (InvalidData, ''frame too large: payload='' @ dec payload_len @ '' buffer=''
                    @ dec (length buf)), buf)
          else (Inr (plaintext ! 2, payload_len),
                overwrite_at 0 (drop FRAME_INNER_MIN plaintext) buf))"

definition try_decode_frame ::
    "aead \<Rightarrow> u8 list \<Rightarrow> u8 list \<Rightarrow> u8 list option \<Rightarrow> (io_error + (u8 \<times> nat \<times> nat) option) \<times> u8 list" where
  "try_decode_frame a data buf key =
     (if length data < 5 then (Inr None, buf)
      else
        let total_len = unat (u32_from_le (slice 0 4 data)); flags = data ! 4 in
        case validate_frame_declaration total_len flags (key \<noteq> None) of
          Inl e \<Rightarrow> (Inl e, buf)
        | Inr remaining \<Rightarrow>
            (case usize_checked_add 4 total_len of
               None \<Rightarrow> (Inl (InvalidData, ''frame length overflow''), buf)
             | Some frame_len \<Rightarrow>
                 if length data < frame_len then (Inr None, buf)
                 else
                   let frame_payload = slice 5 frame_len data in
                   case (if flags = 1
                         then map_err (Pair InvalidData) (decrypt_frame a (the key) frame_payload (slice 0 5 data))
                         else Inr frame_payload) of
                     Inl e \<Rightarrow> (Inl e, buf)
                   | Inr plaintext \<Rightarrow>
                       (case accept_plaintext plaintext buf of
                          (Inl e, buf') \<Rightarrow> (Inl e, buf')
                        | (Inr (msg_type, payload_len), buf') \<Rightarrow>
                            (Inr (Some (msg_type, payload_len, frame_len)), buf'))))"

text \<open>A source: \<open>read_exact\<close>.\<close>

record 'r reader =
  rd_read_exact :: "nat \<Rightarrow> 'r \<Rightarrow> (io_error + u8 list) \<times> 'r"

definition read_plain_frame ::
    "'r reader \<Rightarrow> 'r \<Rightarrow> u8 list \<Rightarrow> nat \<Rightarrow> (io_error + u8 \<times> nat) \<times> u8 list \<times> 'r" where
  "read_plain_frame rd r buf remaining =
     (case rd_read_exact rd FRAME_INNER_MIN r of
        (Inl e, r') \<Rightarrow> (Inl e, buf, r')
      | (Inr inner_header, r') \<Rightarrow>
          (case validate_protocol_version inner_header of
             Inl e \<Rightarrow> (Inl e, buf, r')
           | Inr _ \<Rightarrow>
               let payload_len = remaining - FRAME_INNER_MIN in
               if payload_len > length buf then
                 (Inl (InvalidData, ''frame too large: payload='' @ dec payload_len @ '' buffer=''
                         @ dec (length buf)), buf, r')
               else if payload_len > 0 then
                 (case rd_read_exact rd payload_len r' of
                    (Inl e, r'') \<Rightarrow> (Inl e, buf, r'')
                  | (Inr payload, r'') \<Rightarrow>
                      (Inr (inner_header ! 2, payload_len), overwrite_at 0 payload buf, r''))
               else (Inr (inner_header ! 2, payload_len), buf, r')))"

definition read_frame_encrypted ::
    "aead \<Rightarrow> 'r reader \<Rightarrow> 'r \<Rightarrow> u8 list \<Rightarrow> u8 list option \<Rightarrow> (io_error + u8 \<times> nat) \<times> u8 list \<times> 'r" where
  "read_frame_encrypted a rd r buf key =
     (case rd_read_exact rd 4 r of
        (Inl e, r1) \<Rightarrow> (Inl e, buf, r1)
      | (Inr len_bytes, r1) \<Rightarrow>
     (case rd_read_exact rd 1 r1 of
        (Inl e, r2) \<Rightarrow> (Inl e, buf, r2)
      | (Inr flags, r2) \<Rightarrow>
     (case validate_frame_declaration (unat (u32_from_le len_bytes)) (flags ! 0) (key \<noteq> None) of
        Inl e \<Rightarrow> (Inl e, buf, r2)
      | Inr remaining \<Rightarrow>
     (if flags ! 0 = 1 then
        (case rd_read_exact rd remaining r2 of
           (Inl e, r3) \<Rightarrow> (Inl e, buf, r3)
         | (Inr enc_buf, r3) \<Rightarrow>
             (case map_err (Pair InvalidData) (decrypt_frame a (the key) enc_buf (len_bytes @ [flags ! 0])) of
                Inl e \<Rightarrow> (Inl e, buf, r3)
              | Inr plaintext \<Rightarrow>
                  (case accept_plaintext plaintext buf of (res, buf') \<Rightarrow> (res, buf', r3))))
      else read_plain_frame rd r2 buf remaining))))"

definition read_frame :: "aead \<Rightarrow> 'r reader \<Rightarrow> 'r \<Rightarrow> u8 list \<Rightarrow> (io_error + u8 \<times> nat) \<times> u8 list \<times> 'r" where
  "read_frame a rd r buf = read_frame_encrypted a rd r buf None"

section \<open>Byte buffers as writers and readers\<close>

definition vec_writer :: "u8 list writer" where
  "vec_writer = \<lparr>wr_write_all = (\<lambda>bs w. (Inr (), w @ bs)), wr_flush = (\<lambda>w. (Inr (), w))\<rparr>"

definition slice_reader :: "u8 list reader" where
  "slice_reader = \<lparr>rd_read_exact = (\<lambda>n r.
     if n \<le> length r then (Inr (take n r), drop n r)
     else (Inl (UnexpectedEof, ''failed to fill whole buffer''), []))\<rparr>"

text \<open>What a frame is, as bytes.\<close>

definition frame_bytes :: "aead \<Rightarrow> u8 list \<Rightarrow> u8 list option \<Rightarrow> u8 \<Rightarrow> u8 list \<Rightarrow> u8 list" where
  "frame_bytes a nonce key msg_type payload =
     (let inner = u16_to_le PROTOCOL_VERSION @ [msg_type] @ payload in
      case key of
        None \<Rightarrow> u32_to_le (word_of_nat (4 + length payload)) @ [0] @ inner
      | Some k \<Rightarrow>
          let header = u32_to_le (word_of_nat (44 + length payload)) @ [1] in
          header @ nonce @ the (aead_seal a k nonce header inner))"

text \<open>
  The documented behaviour of the cipher, on a 32-byte key, a 24-byte nonce and messages of the
  size frames have: sealing succeeds, opening under the same key, nonce and associated data gives
  the message back, and the ciphertext is 16 bytes longer.
\<close>

definition aead_ok :: "aead \<Rightarrow> bool" where
  "aead_ok a = (\<forall>k n d m. length k = KEY_LEN \<longrightarrow> length n = NONCE_LEN
                  \<longrightarrow> length m \<le> FRAME_INNER_MIN + MAX_FRAME_PAYLOAD
                  \<longrightarrow> (\<exists>c. aead_seal a k n d m = Some c \<and> aead_open a k n d c = Some m
                           \<and> length c = length m + TAG_LEN))"

definition key_ok :: "u8 list option \<Rightarrow> bool" where
  "key_ok key = (case key of None \<Rightarrow> True | Some k \<Rightarrow> length k = KEY_LEN)"

section \<open>Lemmas\<close>

lemma u32_roundtrip_small [simp]:
  "n < 2 ^ 32 \<Longrightarrow> unat (u32_from_le (u32_to_le (word_of_nat n))) = n"
  by (simp add: unat_of_nat take_bit_nat_eq_self)

lemma validate_frame_declaration_Inr:
  "validate_frame_declaration n f b = Inr r \<longleftrightarrow>
     (f = 0 \<and> \<not> b \<and> 4 \<le> n \<and> n \<le> 16388 \<or> f = 1 \<and> b \<and> 44 \<le> n \<and> n \<le> 16428) \<and> r = n - 1"
  by (auto simp: validate_frame_declaration_def frame_consts Let_def split: if_splits)

lemma write_vec [simp]:
  "write_parts vec_writer ps w = (Inr (), w @ concat ps)"
  by (induction ps arbitrary: w) (simp_all add: vec_writer_def)

lemma aead_okD:
  assumes "aead_ok a" "length k = KEY_LEN" "length n = NONCE_LEN"
    "length m \<le> FRAME_INNER_MIN + MAX_FRAME_PAYLOAD"
  shows "aead_seal a k n d m = Some (the (aead_seal a k n d m))"
    "aead_open a k n d (the (aead_seal a k n d m)) = Some m"
    "length (the (aead_seal a k n d m)) = length m + TAG_LEN"
proof -
  obtain c where "aead_seal a k n d m = Some c" "aead_open a k n d c = Some m"
      "length c = length m + TAG_LEN"
    using assms unfolding aead_ok_def by blast
  then show "aead_seal a k n d m = Some (the (aead_seal a k n d m))"
    "aead_open a k n d (the (aead_seal a k n d m)) = Some m"
    "length (the (aead_seal a k n d m)) = length m + TAG_LEN"
    by simp_all
qed

text \<open>Decoding a header, a body of the declared length and anything after it.\<close>

lemma try_decode_header:
  assumes "n < 2 ^ 32" "n = Suc (length body)" "l = length body + 5"
  shows "try_decode_frame a (u32_to_le (word_of_nat n) @ [f] @ body @ rest) buf key =
     (case validate_frame_declaration n f (key \<noteq> None) of
        Inl e \<Rightarrow> (Inl e, buf)
      | Inr _ \<Rightarrow>
          (case (if f = 1 then map_err (Pair InvalidData)
                    (decrypt_frame a (the key) body (u32_to_le (word_of_nat n) @ [f]))
                 else Inr body) of
             Inl e \<Rightarrow> (Inl e, buf)
           | Inr plaintext \<Rightarrow>
               (case accept_plaintext plaintext buf of
                  (Inl e, buf') \<Rightarrow> (Inl e, buf')
                | (Inr (t, k), buf') \<Rightarrow> (Inr (Some (t, k, l)), buf'))))"
proof -
  have h: "take 4 (u32_to_le x) = u32_to_le x" "drop 4 (u32_to_le x) = []"
      "take 5 (u32_to_le x) = u32_to_le x" "drop 5 (u32_to_le x) = []" for x
    by simp_all
  have "usize_checked_add 4 n = Some l"
    using assms by (simp add: usize_checked_add_def)
  moreover have "unat (u32_from_le (u32_to_le (word_of_nat n))) = n"
    using assms(1) by (rule u32_roundtrip_small)
  ultimately show ?thesis
    unfolding try_decode_frame_def Let_def assms(3)
    by (cases "validate_frame_declaration n f (key \<noteq> None)")
       (simp_all add: slice_def h nth_append del: u32_le_roundtrip)
qed

lemma try_decode_partial:
  assumes "n < 2 ^ 32" "m < n - 1" "length body = n - 1"
    "validate_frame_declaration n f (key \<noteq> None) = Inr r"
  shows "try_decode_frame a (u32_to_le (word_of_nat n) @ [f] @ take m body) buf key = (Inr None, buf)"
proof -
  have "usize_checked_add 4 n = Some (4 + n)"
    using assms(1) by (simp add: usize_checked_add_def)
  moreover have "unat (u32_from_le (u32_to_le (word_of_nat n))) = n"
    using assms(1) by (rule u32_roundtrip_small)
  moreover have "length (take m body) + 5 < 4 + n" using assms(2) by simp
  ultimately show ?thesis
    using assms(4)
    by (simp add: try_decode_frame_def slice_def nth_append Let_def del: length_take)
qed

lemma accept_inner [simp]:
  "length payload \<le> length buf \<Longrightarrow>
     accept_plaintext (u16_to_le PROTOCOL_VERSION @ t # payload) buf
       = (Inr (t, length payload), payload @ drop (length payload) buf)"
  by (simp add: accept_plaintext_def validate_protocol_version_def frame_consts nth_append overwrite_at_def Let_def)

lemma decrypt_encrypted:
  assumes "aead_ok a" "length k = KEY_LEN" "length n = NONCE_LEN"
    "length m \<le> FRAME_INNER_MIN + MAX_FRAME_PAYLOAD"
  shows "decrypt_frame a k (n @ the (aead_seal a k n d m)) d = Inr m"
  using aead_okD [OF assms, of d] assms(3) by (simp add: decrypt_frame_def)

lemma frame_bytes_parts:
  assumes "aead_ok a" "key_ok key" "length nonce = NONCE_LEN" "length payload \<le> MAX_FRAME_PAYLOAD"
  obtains n f body where
    "frame_bytes a nonce key t payload = u32_to_le (word_of_nat n) @ [f] @ body"
    "n < 2 ^ 32" "n = Suc (length body)"
    "validate_frame_declaration n f (key \<noteq> None) = Inr (n - 1)"
    "(if f = 1 then map_err (Pair InvalidData)
         (decrypt_frame a (the key) body (u32_to_le (word_of_nat n) @ [f]))
      else Inr body) = Inr (u16_to_le PROTOCOL_VERSION @ t # payload)"
    "write_frame_encrypted a nonce vec_writer w t payload key
       = Inr (Inr (), w @ frame_bytes a nonce key t payload)"
proof (cases key)
  case None
  show thesis
    by (rule that [of "4 + length payload" 0 "u16_to_le PROTOCOL_VERSION @ [t] @ payload"])
       (use assms(4) None in \<open>simp_all add: frame_bytes_def validate_frame_declaration_Inr frame_consts
          write_frame_encrypted_def usize_checked_add_def u32_try_from_def Let_def
          del: write_parts.simps\<close>)
next
  case (Some k)
  define inner where "inner = u16_to_le PROTOCOL_VERSION @ t # payload"
  define header where "header = u32_to_le (word_of_nat (44 + length payload)) @ [1]"
  have len: "length inner = 3 + length payload" by (simp add: inner_def)
  have k: "length k = KEY_LEN" using assms(2) Some by (simp add: key_ok_def)
  have small: "length inner \<le> FRAME_INNER_MIN + MAX_FRAME_PAYLOAD"
    using assms(4) by (simp add: len frame_consts)
  note seal = aead_okD [OF assms(1) k assms(3) small, of header]
  have enc: "encrypt_frame a nonce k inner header = Inr (nonce @ the (aead_seal a k nonce header inner))"
    by (cases "aead_seal a k nonce header inner") (use seal(1) in \<open>simp_all add: encrypt_frame_def\<close>)
  have dec: "decrypt_frame a k (nonce @ the (aead_seal a k nonce header inner)) header = Inr inner"
    by (rule decrypt_encrypted [OF assms(1) k assms(3) small])
  show thesis
    by (rule that [of "44 + length payload" 1 "nonce @ the (aead_seal a k nonce header inner)"])
       (use assms(3,4) Some seal(3) enc dec len in
         \<open>simp_all add: frame_bytes_def validate_frame_declaration_Inr frame_consts header_def
            inner_def write_frame_encrypted_def usize_checked_add_def u32_try_from_def
            Let_def del: write_parts.simps\<close>)
qed

lemma write_frame_bytes:
  assumes "aead_ok a" "key_ok key" "length nonce = NONCE_LEN" "length payload \<le> MAX_FRAME_PAYLOAD"
  shows "write_frame_encrypted a nonce vec_writer w t payload key
     = Inr (Inr (), w @ frame_bytes a nonce key t payload)"
  by (rule frame_bytes_parts [OF assms])

lemma decode_frame_bytes:
  assumes "aead_ok a" "key_ok key" "length nonce = NONCE_LEN"
    "length payload \<le> MAX_FRAME_PAYLOAD" "length payload \<le> length buf"
  shows "try_decode_frame a (frame_bytes a nonce key t payload @ rest) buf key
     = (Inr (Some (t, length payload, length (frame_bytes a nonce key t payload))),
        payload @ drop (length payload) buf)"
proof (rule frame_bytes_parts [OF assms(1-4), of t])
  fix n f body
  assume *: "frame_bytes a nonce key t payload = u32_to_le (word_of_nat n) @ [f] @ body"
    "n < 2 ^ 32" "n = Suc (length body)"
    "validate_frame_declaration n f (key \<noteq> None) = Inr (n - 1)"
    "(if f = 1 then map_err (Pair InvalidData)
         (decrypt_frame a (the key) body (u32_to_le (word_of_nat n) @ [f]))
      else Inr body) = Inr (u16_to_le PROTOCOL_VERSION @ t # payload)"
  show ?thesis
    using try_decode_header [OF *(2,3) refl, of a f rest buf key] *(4,5) assms(5)
    by (simp add: *(1) del: of_nat_Suc cong: if_cong)
qed

lemma decode_frame_prefix:
  assumes "aead_ok a" "key_ok key" "length nonce = NONCE_LEN" "length payload \<le> MAX_FRAME_PAYLOAD"
  shows "\<forall>m < length (frame_bytes a nonce key t payload).
     try_decode_frame a (take m (frame_bytes a nonce key t payload)) buf key = (Inr None, buf)"
proof (rule frame_bytes_parts [OF assms, of t], intro allI impI)
  fix n f body m
  assume *: "frame_bytes a nonce key t payload = u32_to_le (word_of_nat n) @ [f] @ body"
    "n < 2 ^ 32" "n = Suc (length body)"
    "validate_frame_declaration n f (key \<noteq> None) = Inr (n - 1)"
  assume m: "m < length (frame_bytes a nonce key t payload)"
  show "try_decode_frame a (take m (frame_bytes a nonce key t payload)) buf key = (Inr None, buf)"
  proof (cases "m < 5")
    case True
    then show ?thesis using m by (simp add: try_decode_frame_def)
  next
    case False
    then have "take m (frame_bytes a nonce key t payload) = u32_to_le (word_of_nat n) @ [f] @ take (m - 5) body"
      by (simp add: *(1) take_Cons')
    moreover have "m - 5 < n - 1" "length body = n - 1" using *(1,3) m False by simp_all
    ultimately show ?thesis
      using try_decode_partial [OF *(2) _ _ *(4), of "m - 5" body a buf] by simp
  qed
qed

section \<open>Properties\<close>

definition plain_seal :: aead where
  "plain_seal = \<lparr>aead_seal = (\<lambda>k n d m. Some (m @ replicate TAG_LEN 0)),
                 aead_open = (\<lambda>k n d c. if length c < TAG_LEN then None
                                         else Some (take (length c - TAG_LEN) c))\<rparr>"

lemma plain_seal_ok: "aead_ok plain_seal"
  by (simp add: aead_ok_def plain_seal_def)

text \<open>
  C7. What \<open>write_frame_encrypted\<close> writes, with or without a key, \<open>try_decode_frame\<close> reads back:
  given a payload of at most 16 KiB that fits the buffer, the writer appends a frame; decoding
  the frame followed by any bytes gives the tag, the payload and the exact number of bytes
  consumed; decoding any strict prefix of it asks for more bytes and touches nothing.
\<close>

theorem frame_roundtrip:
  assumes "aead_ok a" "key_ok key" "length nonce = NONCE_LEN"
    "length payload \<le> MAX_FRAME_PAYLOAD" "length payload \<le> length buf"
  shows "\<exists>frame. write_frame_encrypted a nonce vec_writer w t payload key = Inr (Inr (), w @ frame)
     \<and> (\<forall>rest. try_decode_frame a (frame @ rest) buf key
            = (Inr (Some (t, length payload, length frame)), payload @ drop (length payload) buf))
     \<and> (\<forall>m < length frame. try_decode_frame a (take m frame) buf key = (Inr None, buf))"
  using write_frame_bytes [OF assms(1-4)] decode_frame_bytes [OF assms] decode_frame_prefix [OF assms(1-4)]
  by blast

theorem frame_roundtrip_witness:
  "\<exists>frame. write_frame_encrypted plain_seal (replicate 24 7) vec_writer [] 4 [1, 2, 3]
         (Some (replicate 32 9)) = Inr (Inr (), [] @ frame)
     \<and> (\<forall>rest. try_decode_frame plain_seal (frame @ rest) [0, 0, 0, 0] (Some (replicate 32 9))
            = (Inr (Some (4, length [1, 2, 3 :: u8], length frame)),
               [1, 2, 3] @ drop (length [1, 2, 3 :: u8]) [0, 0, 0, 0]))
     \<and> (\<forall>m < length frame. try_decode_frame plain_seal (take m frame) [0, 0, 0, 0]
            (Some (replicate 32 9)) = (Inr None, [0, 0, 0, 0]))"
  by (rule frame_roundtrip) (simp_all add: plain_seal_ok key_ok_def frame_consts)

lemma read_slice [simp]:
  "n \<le> length r \<Longrightarrow> rd_read_exact slice_reader n r = (Inr (take n r), drop n r)"
  "\<not> n \<le> length r \<Longrightarrow>
     rd_read_exact slice_reader n r = (Inl (UnexpectedEof, ''failed to fill whole buffer''), [])"
  by (simp_all add: slice_reader_def)

lemma validate_version_prefix:
  "3 \<le> length xs \<Longrightarrow> validate_protocol_version (take 3 xs) = validate_protocol_version xs"
  by (simp add: validate_protocol_version_def frame_consts)

lemma read_plain_slice:
  assumes "3 \<le> n" "n \<le> length r"
  shows "read_plain_frame slice_reader r buf n =
     (case accept_plaintext (take n r) buf of
        (Inl e, buf') \<Rightarrow> (Inl e, buf', drop 3 r)
      | (Inr tk, buf') \<Rightarrow> (Inr tk, buf', drop n r))"
proof -
  have v: "validate_protocol_version (take n r) = validate_protocol_version (take 3 r)"
    using validate_version_prefix [of "take n r"] assms by (simp add: min_def)
  have "drop 3 (take n r) = take (n - 3) (drop 3 r)" by (rule drop_take)
  moreover have "take n r ! 2 = r ! 2" "take 3 r ! 2 = r ! 2" using assms by simp_all
  moreover have "3 \<le> length r" "length (take n r) = n" "n - 3 \<le> length (drop 3 r)" using assms by simp_all
  ultimately show ?thesis
    using assms(1)
    by (cases "validate_protocol_version (take 3 r)"; cases "n = 3")
       (simp_all add: read_plain_frame_def accept_plaintext_def FRAME_INNER_MIN_def Let_def overwrite_at_def v)
qed

lemma read_plain_short:
  assumes "3 \<le> n" "length r < n"
  shows "\<exists>e r'. read_plain_frame slice_reader r buf n = (Inl e, buf, r')"
  using assms by (cases "3 \<le> length r")
    (auto simp: read_plain_frame_def frame_consts Let_def split: sum.splits)

lemma header_split:
  assumes "\<not> length data < 5"
  shows "take 4 data @ [data ! 4] = take 5 data" "take (Suc 0) (drop 4 data) = [data ! 4]"
  using assms take_Suc_conv_app_nth [of 4 data] by (simp_all add: take_Suc_conv_app_nth)

lemma read_complete_frame:
  assumes long: "\<not> length data < 5" "\<not> length data < 4 + declared" and tot: "declared = unat (u32_from_le (take 4 data))"
    "usize_checked_add 4 declared = Some (4 + declared)"
    and decl: "validate_frame_declaration declared (data ! 4) (key \<noteq> None) = Inr r"
  shows "case try_decode_frame a data buf key of
     (Inr (Some (t, l, n)), buf') \<Rightarrow>
        read_frame_encrypted a slice_reader data buf key = (Inr (t, l), buf', drop n data)
   | (Inl e, buf') \<Rightarrow> \<exists>r. read_frame_encrypted a slice_reader data buf key = (Inl e, buf', r)
   | (Inr None, buf') \<Rightarrow>
        buf' = buf \<and> (\<exists>e r. read_frame_encrypted a slice_reader data buf key = (Inl e, buf, r))"
proof -
  have r: "declared = Suc r" "3 \<le> r" using decl by (auto simp: validate_frame_declaration_Inr)
  note eval = try_decode_frame_def read_frame_encrypted_def slice_def tot(1) [symmetric] Let_def
  have n: "r \<le> length (drop 5 data)" "usize_checked_add 4 declared = Some (5 + r)" "\<not> length data < 5 + r"
    using r tot(2) long by simp_all
  let ?body = "take r (drop 5 data)"
  let ?plain = "if data ! 4 = 1 then map_err (Pair InvalidData) (decrypt_frame a (the key) ?body (take 5 data))
      else Inr ?body"
  have "try_decode_frame a data buf key =
      (case ?plain of Inl e \<Rightarrow> (Inl e, buf) | Inr p \<Rightarrow>
         (case accept_plaintext p buf of
            (Inl e, buf') \<Rightarrow> (Inl e, buf')
          | (Inr (t, l), buf') \<Rightarrow> (Inr (Some (t, l, 5 + r)), buf')))"
    using long decl n by (simp add: eval)
  moreover have "read_frame_encrypted a slice_reader data buf key =
      (if data ! 4 = 1 then case ?plain of Inl e \<Rightarrow> (Inl e, buf, drop (5 + r) data) | Inr p \<Rightarrow>
         (case accept_plaintext p buf of (res, buf') \<Rightarrow> (res, buf', drop (5 + r) data))
       else read_plain_frame slice_reader (drop 5 data) buf r)"
    using long decl header_split [OF long(1)] n by (cases "data ! 4 = 1") (simp_all add: eval add.commute [of r])
  ultimately show ?thesis
    using read_plain_slice [OF r(2) n(1), of buf]
    by (cases "data ! 4 = 1"; cases ?plain; cases "accept_plaintext (projr ?plain) buf";
        cases "fst (accept_plaintext (projr ?plain) buf)")
       (simp_all add: add.commute [of r] split: prod.splits)
qed

text \<open>
  C26. The streaming reader and the buffered decoder agree on every input: where
  \<open>try_decode_frame\<close> finds a frame, \<open>read_frame_encrypted\<close> on the same bytes returns the same
  tag, length and buffer and leaves the bytes after the frame; where it fails, the reader fails
  with the same error; where it asks for more bytes, the reader fails and the buffer is
  untouched.
\<close>

theorem read_frame_agrees:
  "case try_decode_frame a data buf key of
     (Inr (Some (t, l, n)), buf') \<Rightarrow>
        read_frame_encrypted a slice_reader data buf key = (Inr (t, l), buf', drop n data)
   | (Inl e, buf') \<Rightarrow> \<exists>r. read_frame_encrypted a slice_reader data buf key = (Inl e, buf', r)
   | (Inr None, buf') \<Rightarrow>
        buf' = buf \<and> (\<exists>e r. read_frame_encrypted a slice_reader data buf key = (Inl e, buf, r))"
proof (cases "length data < 5")
  case True
  then show ?thesis
    by (cases "4 \<le> length data") (simp_all add: try_decode_frame_def read_frame_encrypted_def)
next
  case False
  define total where "total = unat (u32_from_le (take 4 data))"
  have total: "usize_checked_add 4 total = Some (4 + total)"
    using unsigned_less [of "u32_from_le (take 4 data)", where ?'a = nat]
    by (simp add: usize_checked_add_def total_def)
  note flags = header_split(2) [OF False]
  show ?thesis
  proof (cases "validate_frame_declaration total (data ! 4) (key \<noteq> None)")
    case (Inl e)
    then show ?thesis using False flags
      by (simp add: try_decode_frame_def read_frame_encrypted_def slice_def total_def Let_def)
  next
    case (Inr r)
    then have r: "total = Suc r" "3 \<le> r"
      by (auto simp: validate_frame_declaration_Inr)
    note eval = try_decode_frame_def read_frame_encrypted_def slice_def total_def [symmetric] Let_def
    show ?thesis
    proof (cases "length data < 4 + total")
      case True
      then have "\<not> r \<le> length (drop 5 data)" using r False by simp
      then show ?thesis using False Inr flags total True r(2) read_plain_short [of r "drop 5 data" buf]
        by (auto simp: eval)
    next
      case long: False
      show ?thesis by (rule read_complete_frame [OF False long total_def total Inr])
    qed
  qed
qed

lemma accept_plaintext_Inr:
  assumes "accept_plaintext p buf = (Inr (t, l), buf')"
  shows "3 \<le> length p \<and> u16_from_le (take 2 p) = PROTOCOL_VERSION \<and> t = p ! 2 \<and> l = length p - 3
    \<and> l \<le> length buf \<and> take l buf' = drop 3 p \<and> length buf' = length buf"
  using assms
  by (auto simp: accept_plaintext_def validate_protocol_version_def FRAME_INNER_MIN_def Let_def
        overwrite_at_def split: if_splits)

text \<open>
  C12. With a key configured nothing unauthenticated is accepted: a decoded frame lies within the
  data, is between 48 and 16432 bytes long, carries the encrypted flag, and its bytes opened
  under that key with the five header bytes as associated data; the tag and payload handed out
  are those of the opened plaintext, whose version is the one supported.
\<close>

theorem keyed_frame_authenticated:
  assumes "try_decode_frame a data buf (Some k) = (Inr (Some (t, l, n)), buf')"
  shows "48 \<le> n \<and> n \<le> 16432 \<and> n \<le> length data \<and> data ! 4 = 1 \<and> l \<le> length buf
    \<and> (\<exists>p. aead_open a k (slice 5 29 data) (slice 0 5 data) (slice 29 n data) = Some p
         \<and> u16_from_le (take 2 p) = PROTOCOL_VERSION \<and> t = p ! 2 \<and> take l buf' = drop 3 p)"
proof -
  define total where "total = unat (u32_from_le (slice 0 4 data))"
  from assms obtain r p where *: "validate_frame_declaration total (data ! 4) True = Inr r"
      "n = 4 + total" "n \<le> length data"
      "decrypt_frame a k (slice 5 n data) (slice 0 5 data) = Inr p"
      "accept_plaintext p buf = (Inr (t, l), buf')"
    by (auto simp: try_decode_frame_def total_def [symmetric] Let_def map_err_def usize_checked_add_def
          validate_frame_declaration_Inr
          split: if_splits sum.splits prod.splits option.splits)
  have s: "take NONCE_LEN (slice 5 n data) = slice 5 29 data" "drop NONCE_LEN (slice 5 n data) = slice 29 n data"
    using * by (auto simp: slice_def frame_consts validate_frame_declaration_Inr min_def drop_take)
  have "aead_open a k (slice 5 29 data) (slice 0 5 data) (slice 29 n data) = Some p"
    using *(4) unfolding decrypt_frame_def s by (auto simp: expect_Inr split: if_splits)
  then show ?thesis
    using *(1-3) accept_plaintext_Inr [OF *(5)] by (auto simp: validate_frame_declaration_Inr)
qed

theorem keyed_frame_authenticated_witness:
  "\<exists>frame t l n buf'. try_decode_frame plain_seal frame [0] (Some (replicate 32 9)) = (Inr (Some (t, l, n)), buf')
     \<and> n \<le> 16432 \<and> frame ! 4 = 1"
proof -
  have dec: "try_decode_frame plain_seal
       (frame_bytes plain_seal (replicate 24 7) (Some (replicate 32 9)) 4 [5] @ []) [0] (Some (replicate 32 9))
     = (Inr (Some (4, length [5 :: u8],
          length (frame_bytes plain_seal (replicate 24 7) (Some (replicate 32 9)) 4 [5]))),
        [5] @ drop (length [5 :: u8]) [0])"
    by (rule decode_frame_bytes) (simp_all add: plain_seal_ok key_ok_def frame_consts)
  show ?thesis using dec keyed_frame_authenticated [OF dec] by blast
qed

definition hex_encode :: "u8 list \<Rightarrow> string" where
  "hex_encode bs = concat (map hex02 bs)"

lemma of_hex_char: "d < 16 \<Longrightarrow> of_char (hex_char d) = (if d < 10 then 48 + d else 87 + d)"
  by (simp add: hex_char_def)

lemma hex_digit_hex_char: "d < 16 \<Longrightarrow> hex_digit (hex_char d) = Some d"
  by (auto simp: hex_digit_def of_hex_char Let_def)

lemma hex_char_plus: "d < 16 \<Longrightarrow> hex_char d \<noteq> CHR ''+''"
  using of_hex_char [of d] by (auto split: if_splits)

lemma hex_char_ascii: "d < 16 \<Longrightarrow> \<not> is_cont (of_char (hex_char d))"
  by (simp add: of_hex_char is_cont_def)

lemma u8_from_hex02: "u8_from_hex2 (hex_char (unat b div 16)) (hex_char (unat b mod 16)) = Some b" for b :: u8
proof -
  have "unat b div 16 < 16" using unsigned_less [of b, where ?'a = nat] by simp
  then show ?thesis
    using hex_digit_hex_char [of "unat b div 16"] hex_digit_hex_char [of "unat b mod 16"]
    by (simp add: u8_from_hex2_def hex_char_plus)
qed

lemma length_hex_encode [simp]: "length (hex_encode bs) = length bs * 2"
  by (induction bs) (simp_all add: hex_encode_def hex02_def)

lemma nth_hex_encode:
  "i < length bs \<Longrightarrow> hex_encode bs ! (i * 2) = hex_char (unat (bs ! i) div 16)
                  \<and> hex_encode bs ! Suc (i * 2) = hex_char (unat (bs ! i) mod 16)"
proof (induction bs arbitrary: i)
  case (Cons b bs)
  then show ?case by (cases i) (simp_all add: hex_encode_def hex02_def)
qed simp

lemma hex_encode_boundary: "i \<le> length bs \<Longrightarrow> is_char_boundary (hex_encode bs) (i * 2)"
  using nth_hex_encode [of i bs] unsigned_less [of "bs ! i", where ?'a = nat]
  by (auto simp: is_char_boundary_def hex_char_ascii)

lemma hex_pairs_encode:
  "i + n = length bs \<Longrightarrow> hex_pairs (hex_encode bs) i n = Inr (Inr (drop i bs))"
proof (induction n arbitrary: i)
  case (Suc n)
  then have "hex_pairs (hex_encode bs) (Suc i) n = Inr (Inr (drop (Suc i) bs))" by simp
  with Suc.prems show ?case
    using hex_encode_boundary [of i bs] hex_encode_boundary [of "Suc i" bs] nth_hex_encode [of i bs]
    by (simp add: u8_from_hex02 Cons_nth_drop_Suc)
qed simp

text \<open>
  Decoding the lower-case hexadecimal text of any bytes gives the bytes back, without a panic:
  \<open>hex_decode\<close> accepts every key that was printed with two digits per byte.
\<close>

theorem hex_decode_roundtrip: "hex_decode (hex_encode bs) (length bs) = Inr (Inr bs)"
  by (simp add: hex_decode_def hex_pairs_encode)


end
