(* ===== verification/Hive_Runtime.thy ===== *)
theory Hive_Runtime
  imports Rust_Text Hive_Messages
begin

text \<open>
  The interfaces the worker is written against. \<^verbatim>\<open>worker/src/runtime.rs\<close> is the container
  runtime, \<^verbatim>\<open>worker/src/io.rs\<close> the clock and the link to the control plane; the operating system
  calls of the volume and secret code are a third one. Each is a record of state-passing functions
  over an environment, so that every implementation (the simulated one, processes, containerd) is
  an instance. A call returns the panic message or its result and the next environment. An
  \<open>Instant\<close> is a number of nanoseconds.
\<close>

section \<open>Data of runtime.rs\<close>

definition MAX_STOP_GRACE_MS :: u64 where "MAX_STOP_GRACE_MS = 30000"

record bind_mount =
  bm_host_path :: string
  bm_container_path :: string

record image_pull_auth =
  ipa_registry :: string
  ipa_username :: string
  ipa_password :: string

record pod_spec =
  ps_pod_id :: u64
  ps_deployment_id :: u64
  ps_image :: string
  ps_entrypoint :: string
  ps_port :: u16
  ps_gpu_count :: u8
  ps_gpu_type :: gpu_type
  ps_cpu_millicores :: u32
  ps_memory_megabytes :: u32
  ps_env_vars :: "(string \<times> string) list"
  ps_mounts :: "bind_mount list"

record pod_handle =
  ph_pod_id :: u64
  ph_container_id :: string

datatype pod_status = StatusCreated | StatusRunning | StatusStopped i32 | StatusUnknown

datatype runtime_error =
    ImagePull string
  | ContainerCreate string
  | ContainerStart string
  | ContainerStop string
  | ContainerNotFound string
  | ResponseTooLarge string
  | Internal string

primrec show_runtime_error :: "runtime_error \<Rightarrow> string" where
  "show_runtime_error (ImagePull msg) = ''image pull failed: '' @ msg"
| "show_runtime_error (ContainerCreate msg) = ''container create failed: '' @ msg"
| "show_runtime_error (ContainerStart msg) = ''container start failed: '' @ msg"
| "show_runtime_error (ContainerStop msg) = ''container stop failed: '' @ msg"
| "show_runtime_error (ContainerNotFound msg) = ''container not found: '' @ msg"
| "show_runtime_error (ResponseTooLarge msg) = ''response too large: '' @ msg"
| "show_runtime_error (Internal msg) = ''internal error: '' @ msg"

section \<open>Calls\<close>

type_synonym instant = nat

type_synonym ('a, 'e) call = "'e \<Rightarrow> ('a \<times> 'e) res"

definition ret :: "'a \<Rightarrow> ('a, 'e) call" where
  "ret x e = Inr (x, e)"

definition bind_call :: "('a, 'e) call \<Rightarrow> ('a \<Rightarrow> ('b, 'e) call) \<Rightarrow> ('b, 'e) call" where
  "bind_call c f e = and_then (c e) (\<lambda>(x, e'). f x e')"

text \<open>The \<open>?\<close> operator inside a call: an error value ends the function with that error.\<close>

definition try_call :: "('x + 'a, 'e) call \<Rightarrow> ('a \<Rightarrow> ('x + 'b, 'e) call) \<Rightarrow> ('x + 'b, 'e) call" where
  "try_call c f = bind_call c (\<lambda>r. case r of Inl x \<Rightarrow> ret (Inl x) | Inr a \<Rightarrow> f a)"

section \<open>The runtime interface\<close>

record 'e runtime =
  rt_pull_image :: "string \<Rightarrow> image_pull_auth option \<Rightarrow> (runtime_error + unit, 'e) call"
  rt_create_pod :: "pod_spec \<Rightarrow> (runtime_error + pod_handle, 'e) call"
  rt_start_pod :: "pod_handle \<Rightarrow> (runtime_error + unit, 'e) call"
  rt_forward_run :: "pod_handle \<Rightarrow> u16 \<Rightarrow> u8 list \<Rightarrow> (runtime_error + u8 list, 'e) call"
  rt_probe_pod :: "pod_handle \<Rightarrow> u16 \<Rightarrow> string \<Rightarrow> (runtime_error + bool, 'e) call"
  rt_stop_pod :: "pod_handle \<Rightarrow> u64 \<Rightarrow> (runtime_error + unit, 'e) call"
  rt_pod_status :: "pod_handle \<Rightarrow> (runtime_error + pod_status, 'e) call"
  rt_remove_pod :: "pod_handle \<Rightarrow> (runtime_error + unit, 'e) call"
  rt_stop_pod_until :: "pod_handle \<Rightarrow> u64 \<Rightarrow> instant \<Rightarrow> (runtime_error + unit, 'e) call"
  rt_pod_status_until :: "pod_handle \<Rightarrow> instant \<Rightarrow> (runtime_error + pod_status, 'e) call"
  rt_remove_pod_until :: "pod_handle \<Rightarrow> instant \<Rightarrow> (runtime_error + unit, 'e) call"

text \<open>The trait's provided methods; \<open>now\<close> is \<open>Instant::now\<close>.\<close>

definition default_probe_pod :: "pod_handle \<Rightarrow> u16 \<Rightarrow> string \<Rightarrow> (runtime_error + bool, 'e) call" where
  "default_probe_pod handle port path = ret (Inl (Internal ''runtime does not implement pod probes''))"

definition default_stop_pod_until ::
    "(instant, 'e) call \<Rightarrow> (pod_handle \<Rightarrow> u64 \<Rightarrow> (runtime_error + unit, 'e) call)
       \<Rightarrow> pod_handle \<Rightarrow> u64 \<Rightarrow> instant \<Rightarrow> (runtime_error + unit, 'e) call" where
  "default_stop_pod_until now stop_pod handle grace_period_ms deadline =
     bind_call now (\<lambda>t. if t \<ge> deadline then ret (Inl (ContainerStop ''shutdown deadline reached''))
                        else stop_pod handle grace_period_ms)"

definition default_pod_status_until ::
    "(instant, 'e) call \<Rightarrow> (pod_handle \<Rightarrow> (runtime_error + pod_status, 'e) call)
       \<Rightarrow> pod_handle \<Rightarrow> instant \<Rightarrow> (runtime_error + pod_status, 'e) call" where
  "default_pod_status_until now pod_status handle deadline =
     bind_call now (\<lambda>t. if t \<ge> deadline then ret (Inl (ContainerNotFound ''shutdown deadline reached''))
                        else pod_status handle)"

definition default_remove_pod_until ::
    "(instant, 'e) call \<Rightarrow> (pod_handle \<Rightarrow> (runtime_error + unit, 'e) call)
       \<Rightarrow> pod_handle \<Rightarrow> instant \<Rightarrow> (runtime_error + unit, 'e) call" where
  "default_remove_pod_until now remove_pod handle deadline =
     bind_call now (\<lambda>t. if t \<ge> deadline then ret (Inl (ContainerStop ''shutdown deadline reached''))
                        else remove_pod handle)"

section \<open>The link to the control plane\<close>

record 'i io =
  io_now :: "'i \<Rightarrow> u64"
  io_send :: "worker_message \<Rightarrow> 'i \<Rightarrow> 'i res"
  io_recv :: "(control_message option, 'i) call"
  io_random_u64 :: "(u64, 'i) call"

section \<open>The operating system\<close>

text \<open>
  What \<open>volumes.rs\<close> and \<open>secrets.rs\<close> use of it: the monotonic clock, environment variables,
  directories, commands, and one HTTPS request, whose result is an error, a body that is not JSON
  (\<open>None\<close>), or the string at \<open>value.raw\<close> of the body if there is one.
\<close>

datatype remove_error = NotFoundError | OtherError string

record command_output =
  out_success :: bool
  out_code :: "int option"
  out_stdout :: "u8 list"
  out_stderr :: "u8 list"

record 'e os =
  os_instant_now :: "(instant, 'e) call"
  os_env_var :: "string \<Rightarrow> 'e \<Rightarrow> string option"
  os_create_dir_all :: "string \<Rightarrow> (string + unit, 'e) call"
  os_command :: "string list \<Rightarrow> (string + command_output, 'e) call"
  os_read_to_string :: "string \<Rightarrow> (string + string, 'e) call"
  os_remove_dir_all :: "string \<Rightarrow> (remove_error + unit, 'e) call"
  os_path_exists :: "string \<Rightarrow> 'e \<Rightarrow> bool"
  os_http_secret :: "string \<Rightarrow> string \<Rightarrow> (string + string option option, 'e) call"

section \<open>Lemmas\<close>

lemma bind_call_Inr:
  "bind_call c f e = Inr (y, e'') \<longleftrightarrow> (\<exists>x e'. c e = Inr (x, e') \<and> f x e' = Inr (y, e''))"
  by (cases "c e") (auto simp: bind_call_def split: prod.splits)

lemma bind_call_InrE:
  assumes "bind_call c f e = Inr (y, e'')"
  obtains x e' where "c e = Inr (x, e')" "f x e' = Inr (y, e'')"
  using assms by (auto simp: bind_call_Inr)

lemma bind_call_simps [simp]:
  "c e = Inr (x, e') \<Longrightarrow> bind_call c f e = f x e'"
  "c e = Inl m \<Longrightarrow> bind_call c f e = Inl m"
  by (simp_all add: bind_call_def)

lemma bind_ret [simp]: "bind_call (ret x) f = f x"
  by (rule ext) (simp add: bind_call_def ret_def)

lemma ret_Inr [simp]: "ret x e = Inr (y, e') \<longleftrightarrow> y = x \<and> e' = e"
  by (auto simp: ret_def)

lemma bind_call_assoc: "bind_call (bind_call c f) g = bind_call c (\<lambda>x. bind_call (f x) g)"
  by (rule ext) (simp add: bind_call_def and_then_def split: sum.splits prod.splits)

end
