(* ===== verification/Hive_Host.thy ===== *)
theory Hive_Host
  imports Hive_Runtime "HOL-Library.Sublist"
begin

text \<open>
  \<^verbatim>\<open>worker/src/secrets.rs\<close> and \<^verbatim>\<open>worker/src/volumes.rs\<close>: the secret resolver with its cache, and the
  JuiceFS mounts, over the operating system interface of \<open>Hive_Runtime\<close>. A path is its string.
\<close>

section \<open>secrets.rs\<close>

definition CACHE_TTL :: nat where "CACHE_TTL = 300 * 10 ^ 9"

record cached_secret =
  cs_value :: string
  cs_fetched_at :: instant

record secret_resolver =
  sr_doppler_token :: "string option"
  sr_doppler_project :: "string option"
  sr_doppler_config :: "string option"
  sr_cache :: "(string, cached_secret) hashmap"

definition secret_resolver_new :: "'e os \<Rightarrow> 'e \<Rightarrow> secret_resolver" where
  "secret_resolver_new os e =
     \<lparr>sr_doppler_token = os_env_var os ''DOPPLER_TOKEN'' e,
      sr_doppler_project = os_env_var os ''DOPPLER_PROJECT'' e,
      sr_doppler_config = os_env_var os ''DOPPLER_CONFIG'' e,
      sr_cache = []\<rparr>"

definition unwrap_or :: "'a option \<Rightarrow> 'a \<Rightarrow> 'a" where
  "unwrap_or x d = (case x of None \<Rightarrow> d | Some y \<Rightarrow> y)"

definition fetch_secret ::
    "'e os \<Rightarrow> string \<Rightarrow> secret_resolver \<Rightarrow> (string option \<times> secret_resolver, 'e) call" where
  "fetch_secret os secret_name r =
     (case sr_doppler_token r of
        None \<Rightarrow> ret (None, r)
      | Some token \<Rightarrow>
          let project = unwrap_or (sr_doppler_project r) ''default'';
              config = unwrap_or (sr_doppler_config r) ''prd'';
              url = ''https://api.doppler.com/v3/configs/config/secret?project='' @ project
                      @ ''&config='' @ config @ ''&name='' @ secret_name
          in bind_call (os_http_secret os url (''Bearer '' @ token)) (\<lambda>result.
               case result of
                 Inr (Some (Some v)) \<Rightarrow>
                   bind_call (os_instant_now os) (\<lambda>t.
                     ret (Some v, r\<lparr>sr_cache := hm_insert secret_name
                            \<lparr>cs_value = v, cs_fetched_at = t\<rparr> (sr_cache r)\<rparr>))
               | _ \<Rightarrow> ret (None, r)))"

definition resolve_secret ::
    "'e os \<Rightarrow> string \<Rightarrow> secret_resolver \<Rightarrow> (string option \<times> secret_resolver, 'e) call" where
  "resolve_secret os secret_name r =
     (case hm_get (sr_cache r) secret_name of
        Some cached \<Rightarrow>
          bind_call (os_instant_now os) (\<lambda>t.
            if t - cs_fetched_at cached < CACHE_TTL then ret (Some (cs_value cached), r)
            else fetch_secret os secret_name r)
      | None \<Rightarrow> fetch_secret os secret_name r)"

definition resolve_plain_or_secret ::
    "'e os \<Rightarrow> string \<Rightarrow> bool \<Rightarrow> secret_resolver \<Rightarrow> (string option \<times> secret_resolver, 'e) call" where
  "resolve_plain_or_secret os v is_secret_ref r =
     (if is_secret_ref then (if v = [] then ret (None, r) else resolve_secret os v r)
      else ret (Some v, r))"

fun resolve ::
    "'e os \<Rightarrow> env_entry list \<Rightarrow> secret_resolver \<Rightarrow> ((string \<times> string) list \<times> secret_resolver, 'e) call" where
  "resolve os [] r = ret ([], r)"
| "resolve os (entry # entries) r =
     bind_call (if en_is_secret_ref entry then resolve_secret os (en_value entry) r
                else ret (Some (en_value entry), r))
       (\<lambda>(v, r'). bind_call (resolve os entries r')
         (\<lambda>(vs, r''). ret ((case v of None \<Rightarrow> vs | Some x \<Rightarrow> (en_name entry, x) # vs), r'')))"

section \<open>volumes.rs\<close>

definition MOUNT_BASE :: string where "MOUNT_BASE = ''/tmp/hivemind/mounts''"
definition MOUNT_TIMEOUT_SECS :: nat where "MOUNT_TIMEOUT_SECS = 20"

record volume_mount =
  vm_pod_id :: u64
  vm_host_path :: string
  vm_container_path :: string

definition NUL :: char where "NUL = char_of (0 :: nat)"

definition pod_dir :: "u64 \<Rightarrow> string" where
  "pod_dir pod_id = MOUNT_BASE @ ''/'' @ dec (unat pod_id)"

definition mount_dir :: "u64 \<Rightarrow> string" where
  "mount_dir pod_id = MOUNT_BASE @ ''/'' @ dec (unat pod_id) @ ''/juicefs''"

definition mount_result :: "u64 \<Rightarrow> command_output \<Rightarrow> string + volume_mount" where
  "mount_result pod_id out =
     (if \<not> out_success out then
        let stderr = from_utf8_lossy (out_stderr out) in
        if out_code out = Some 124 \<or> out_code out = Some 137 then
          Inl (''juicefs mount timed out after '' @ dec MOUNT_TIMEOUT_SECS @ ''s: '' @ stderr)
        else Inl (''juicefs mount failed: '' @ stderr)
      else Inr \<lparr>vm_pod_id = pod_id, vm_host_path = mount_dir pod_id, vm_container_path = ''/data''\<rparr>)"

definition mount_juicefs :: "'e os \<Rightarrow> u64 \<Rightarrow> string \<Rightarrow> (string + volume_mount, 'e) call" where
  "mount_juicefs os pod_id juicefs_subpath =
     (if take 1 juicefs_subpath \<noteq> ''/'' \<or> NUL \<in> set juicefs_subpath then
        ret (Inl ''juicefs subpath must be a valid absolute path'')
      else
        bind_call (os_create_dir_all os (mount_dir pod_id)) (\<lambda>made. case made of
          Inl err \<Rightarrow> ret (Inl (''mkdir '' @ mount_dir pod_id @ '': '' @ err))
        | Inr _ \<Rightarrow> (\<lambda>e.
            case os_env_var os ''JUICEFS_META_URL'' e of
              None \<Rightarrow> ret (Inl ''JUICEFS_META_URL not set'') e
            | Some meta_url \<Rightarrow>
                let fs_name = unwrap_or (os_env_var os ''JUICEFS_NAME'' e) ''hivemind'' in
                bind_call (os_command os [''timeout'', ''--signal=KILL'', dec MOUNT_TIMEOUT_SECS @ ''s'',
                             ''juicefs'', ''mount'', meta_url, mount_dir pod_id, ''--name'', fs_name,
                             ''--subdir'', juicefs_subpath, ''-d''])
                  (\<lambda>output. case output of
                      Inl err \<Rightarrow> ret (Inl (''bounded juicefs mount exec: '' @ err))
                    | Inr out \<Rightarrow> ret (mount_result pod_id out)) e)))"

definition mount_line :: "string \<Rightarrow> string \<Rightarrow> bool" where
  "mount_line dir line =
     (let fields = split_whitespace line in 4 < length fields \<and> fields ! 4 = dir)"

definition mount_is_active :: "'e os \<Rightarrow> string \<Rightarrow> (string + bool, 'e) call" where
  "mount_is_active os dir =
     bind_call (os_read_to_string os ''/proc/self/mountinfo'') (\<lambda>r. case r of
       Inl err \<Rightarrow> ret (Inl (''read mount table: '' @ err))
     | Inr mountinfo \<Rightarrow> ret (Inr (list_ex (mount_line dir) (lines mountinfo))))"

definition command_timeout :: "'e os \<Rightarrow> instant \<Rightarrow> (string + string, 'e) call" where
  "command_timeout os deadline =
     bind_call (os_instant_now os) (\<lambda>t.
       let remaining = deadline - t in
       if remaining = 0 then ret (Inl ''shutdown deadline reached before volume cleanup'')
       else ret (Inr (dec (max 1 (min (2 ^ 64 - 1) (remaining div 10 ^ 6))) @ ''ms'')))"

definition remove_pod_dir :: "'e os \<Rightarrow> u64 \<Rightarrow> (string + unit, 'e) call" where
  "remove_pod_dir os pod_id =
     bind_call (os_remove_dir_all os (pod_dir pod_id)) (\<lambda>r e.
       case r of
         Inl (OtherError err) \<Rightarrow> ret (Inl (''remove '' @ pod_dir pod_id @ '': '' @ err)) e
       | _ \<Rightarrow> if os_path_exists os (pod_dir pod_id) e
              then ret (Inl (''pod mount directory remains at '' @ pod_dir pod_id)) e
              else ret (Inr ()) e)"

definition unmount_juicefs_until :: "'e os \<Rightarrow> u64 \<Rightarrow> instant \<Rightarrow> (string + unit, 'e) call" where
  "unmount_juicefs_until os pod_id deadline =
     bind_call (os_instant_now os) (\<lambda>t.
       if t \<ge> deadline then ret (Inl ''shutdown deadline reached before volume cleanup'')
       else
         let dir = mount_dir pod_id;
             finish = try_call (mount_is_active os dir) (\<lambda>active.
                        if active then ret (Inl (''mount remains active at '' @ dir))
                        else remove_pod_dir os pod_id)
         in try_call (mount_is_active os dir) (\<lambda>active.
              if active then
                try_call (command_timeout os deadline) (\<lambda>limit.
                  bind_call (os_command os [''timeout'', limit, ''juicefs'', ''umount'', dir]) (\<lambda>_.
                    try_call (mount_is_active os dir) (\<lambda>still.
                      if still then
                        try_call (command_timeout os deadline) (\<lambda>limit2.
                          bind_call (os_command os [''timeout'', limit2, ''fusermount'', ''-uz'', dir])
                            (\<lambda>_. finish))
                      else finish)))
              else remove_pod_dir os pod_id))"

definition unmount_juicefs :: "'e os \<Rightarrow> u64 \<Rightarrow> (string + unit, 'e) call" where
  "unmount_juicefs os pod_id =
     bind_call (os_instant_now os) (\<lambda>t. unmount_juicefs_until os pod_id (t + 20 * 10 ^ 9))"

definition juicefs_available :: "'e os \<Rightarrow> (bool, 'e) call" where
  "juicefs_available os =
     bind_call (os_command os [''juicefs'', ''version''])
       (\<lambda>r. ret (case r of Inl _ \<Rightarrow> False | Inr out \<Rightarrow> out_success out))"

section \<open>Lemmas\<close>

lemma try_call_Inr:
  "try_call c f e = Inr (Inr y, e'') \<longleftrightarrow> (\<exists>x e'. c e = Inr (Inr x, e') \<and> f x e' = Inr (Inr y, e''))"
  by (cases "c e") (auto simp: try_call_def bind_call_def split: sum.splits)

lemma try_call_InrE:
  assumes "try_call c f e = Inr (Inr y, e'')"
  obtains x e' where "c e = Inr (Inr x, e')" "f x e' = Inr (Inr y, e'')"
  using assms by (auto simp: try_call_Inr)

lemma remove_pod_dir_Inr:
  "remove_pod_dir os p e = Inr (Inr (), e') \<Longrightarrow> \<not> os_path_exists os (pod_dir p) e'"
  by (cases "os_remove_dir_all os (pod_dir p) e")
     (auto simp: remove_pod_dir_def bind_call_def split: sum.splits remove_error.splits if_splits)

text \<open>Cleanup ends in one of two ways: no mount was active, or it was seen inactive afterwards.\<close>

lemma unmount_until_Inr:
  assumes "unmount_juicefs_until os p d e = Inr (Inr (), e')"
  shows "\<exists>e1 e2. mount_is_active os (mount_dir p) e1 = Inr (Inr False, e2)
           \<and> remove_pod_dir os p e2 = Inr (Inr (), e')"
  using assms
  by (auto simp: unmount_juicefs_until_def bind_call_Inr try_call_Inr Let_def split: if_splits; blast)

section \<open>Properties\<close>

text \<open>What the environment handed to a pod may contain, entry by entry.\<close>

fun resolved_from :: "env_entry list \<Rightarrow> (string \<times> string) list \<Rightarrow> bool" where
  "resolved_from [] vs = (vs = [])"
| "resolved_from (en # ens) vs =
     (if en_is_secret_ref en
      then resolved_from ens vs \<or> (vs \<noteq> [] \<and> fst (hd vs) = en_name en \<and> resolved_from ens (tl vs))
      else vs \<noteq> [] \<and> hd vs = (en_name en, en_value en) \<and> resolved_from ens (tl vs))"

text \<open>
  C28. Resolving a pod's environment keeps every plain entry with its value and in its place; a
  secret entry is either dropped or present under its own name. Nothing else is added.
\<close>

theorem resolve_keeps_plain:
  assumes "resolve os entries r e = Inr ((vs, r'), e')"
  shows "resolved_from entries vs"
  using assms
proof (induction entries arbitrary: r e vs r' e')
  case Nil
  then show ?case by simp
next
  case (Cons en ens)
  then show ?case
    by (fastforce simp: bind_call_Inr split: option.splits if_splits)
qed

definition sample_os :: "nat os" where
  "sample_os =
     \<lparr>os_instant_now = (\<lambda>t. Inr (t, t + 1)),
      os_env_var = (\<lambda>n t. if n = ''JUICEFS_META_URL'' then Some ''redis://meta'' else None),
      os_create_dir_all = (\<lambda>p. ret (Inr ())),
      os_command = (\<lambda>args. ret (Inr \<lparr>out_success = False, out_code = Some 125, out_stdout = [], out_stderr = []\<rparr>)),
      os_read_to_string = (\<lambda>p. ret (Inr ''36 35 98:0 / /tmp/hivemind/mounts/7/juicefs rw'')),
      os_remove_dir_all = (\<lambda>p. ret (Inl NotFoundError)),
      os_path_exists = (\<lambda>p t. False),
      os_http_secret = (\<lambda>url auth. ret (Inr (Some (Some ''s3cr3t''))))\<rparr>"

definition sample_resolver :: secret_resolver where
  "sample_resolver = \<lparr>sr_doppler_token = Some ''t'', sr_doppler_project = None, sr_doppler_config = None,
                      sr_cache = []\<rparr>"

definition sample_entries :: "env_entry list" where
  "sample_entries = [\<lparr>en_name = ''A'', en_value = ''1'', en_is_secret_ref = False\<rparr>,
                     \<lparr>en_name = ''B'', en_value = ''db'', en_is_secret_ref = True\<rparr>]"

lemmas sample_host = sample_os_def sample_resolver_def sample_entries_def

lemma sample_resolve:
  "resolve sample_os sample_entries sample_resolver 5
     = Inr (([(''A'', ''1''), (''B'', ''s3cr3t'')],
             sample_resolver\<lparr>sr_cache := [(''db'', \<lparr>cs_value = ''s3cr3t'', cs_fetched_at = 5\<rparr>)]\<rparr>), 6)"
  by (simp add: sample_host resolve_secret_def fetch_secret_def bind_call_def ret_def hm_eval Let_def)

theorem resolve_keeps_plain_witness:
  "resolved_from sample_entries [(''A'', ''1''), (''B'', ''s3cr3t'')]"
  by (rule resolve_keeps_plain [OF sample_resolve])

text \<open>
  A secret that was fetched is served from the cache while it is younger than five minutes:
  the next resolution of the same name reads the clock, makes no request, returns the fetched
  value and leaves the resolver as it is; at five minutes it fetches again.
\<close>

theorem resolve_secret_cached:
  assumes "fetch_secret os n r e = Inr ((Some v, r'), e1)"
    and "os_instant_now os e2 = Inr (t, e3)"
  shows "\<exists>t0. cs_fetched_at (the (hm_get (sr_cache r') n)) = t0
     \<and> resolve_secret os n r' e2
       = (if t - t0 < CACHE_TTL then Inr ((Some v, r'), e3) else fetch_secret os n r' e3)"
  using assms
  by (auto simp: resolve_secret_def fetch_secret_def [of os n r] Let_def elim!: bind_call_InrE
        split: option.splits sum.splits)

lemma sample_fetch:
  "fetch_secret sample_os ''db'' sample_resolver 5
     = Inr ((Some ''s3cr3t'', sample_resolver\<lparr>sr_cache := [(''db'', \<lparr>cs_value = ''s3cr3t'', cs_fetched_at = 5\<rparr>)]\<rparr>), 6)"
  by (simp add: sample_host fetch_secret_def unwrap_or_def bind_call_def ret_def hm_eval Let_def)

theorem resolve_secret_cached_witness:
  "resolve_secret sample_os ''db'' (sample_resolver\<lparr>sr_cache := [(''db'', \<lparr>cs_value = ''s3cr3t'', cs_fetched_at = 5\<rparr>)]\<rparr>) 9
     = Inr ((Some ''s3cr3t'', sample_resolver\<lparr>sr_cache := [(''db'', \<lparr>cs_value = ''s3cr3t'', cs_fetched_at = 5\<rparr>)]\<rparr>), 10)"
proof -
  have "os_instant_now sample_os 9 = Inr (9, 10)" by (simp add: sample_os_def)
  from resolve_secret_cached [OF sample_fetch this] show ?thesis
    by (simp add: sample_resolver_def hm_eval CACHE_TTL_def)
qed

text \<open>
  C20. A successful unmount is verified, not assumed: after it the pod's mount directory does not
  exist, and before the directory was removed the mount table was read and did not list the pod's
  mount point.
\<close>

theorem unmount_verified:
  assumes "unmount_juicefs_until os p d e = Inr (Inr (), e')"
  shows "\<not> os_path_exists os (pod_dir p) e'
     \<and> (\<exists>e1 table e2. os_read_to_string os ''/proc/self/mountinfo'' e1 = Inr (Inr table, e2)
          \<and> \<not> list_ex (mount_line (mount_dir p)) (lines table)
          \<and> remove_pod_dir os p e2 = Inr (Inr (), e'))"
proof -
  obtain e1 e2 where *: "mount_is_active os (mount_dir p) e1 = Inr (Inr False, e2)"
      "remove_pod_dir os p e2 = Inr (Inr (), e')"
    using unmount_until_Inr [OF assms] by blast
  then obtain table where "os_read_to_string os ''/proc/self/mountinfo'' e1 = Inr (Inr table, e2)"
      "\<not> list_ex (mount_line (mount_dir p)) (lines table)"
    by (auto simp: mount_is_active_def elim!: bind_call_InrE split: sum.splits)
  then show ?thesis using *(2) remove_pod_dir_Inr [OF *(2)] by blast
qed

lemma sample_unmount:
  "unmount_juicefs_until sample_os 8 100 5 = Inr (Inr (), 6)"
proof -
  have "list_ex (mount_line (mount_dir 8)) (lines ''36 35 98:0 / /tmp/hivemind/mounts/7/juicefs rw'') = False"
    by code_simp
  then show ?thesis
    by (simp add: unmount_juicefs_until_def mount_is_active_def remove_pod_dir_def try_call_def
          sample_os_def bind_call_def ret_def Let_def)
qed

theorem unmount_verified_witness: "\<not> os_path_exists sample_os (pod_dir 8) 6"
  using unmount_verified [OF sample_unmount] by blast

text \<open>
  The duration syntax of the \<open>timeout\<close> command (GNU coreutils): a number with at most one of the
  suffixes \<open>s\<close>, \<open>m\<close>, \<open>h\<close>, \<open>d\<close>. Any other duration is refused before the command is run.
\<close>

definition refuses_bad_duration :: "'e os \<Rightarrow> bool" where
  "refuses_bad_duration os =
     (\<forall>n args e. \<exists>out. os_command os (''timeout'' # (dec n @ ''ms'') # args) e = Inr (Inr out, e))"

definition lists_mount :: "'e os \<Rightarrow> u64 \<Rightarrow> bool" where
  "lists_mount os p = (\<forall>e. mount_is_active os (mount_dir p) e = Inr (Inr True, e))"



end
