(* ===== verification/Worker_State.thy ===== *)
theory Worker_State
  imports Hive_Host Hive_Wire
begin

text \<open>
  The state of \<^verbatim>\<open>worker/src/worker.rs\<close>: tracked pods, the worker, and the operations that touch the
  worker alone. A system state holds the worker, the environment of the runtime and the host, the
  state of the link, and the list of messages sent so far. The log lines on standard error and the
  wall clock they print are not modelled.
\<close>

section \<open>Constants\<close>

definition HEARTBEAT_INTERVAL_TICKS :: u64 where "HEARTBEAT_INTERVAL_TICKS = 100"
definition LIFECYCLE_RETRY_MAX :: u8 where "LIFECYCLE_RETRY_MAX = 3"
definition LIFECYCLE_RETRY_DELAY_TICKS :: u64 where "LIFECYCLE_RETRY_DELAY_TICKS = 25"
definition LIFECYCLE_FIRST_RETRY_DELAY_TICKS :: u64 where
  "LIFECYCLE_FIRST_RETRY_DELAY_TICKS = LIFECYCLE_RETRY_DELAY_TICKS * 2"
definition STOP_ATTEMPT_MAX :: u8 where "STOP_ATTEMPT_MAX = 3"
definition STOP_RETRY_DELAY_TICKS :: u64 where "STOP_RETRY_DELAY_TICKS = 25"
definition MAX_TRACKED_PODS :: nat where "MAX_TRACKED_PODS = 4096"
definition MAX_TERMINAL_TOMBSTONES :: nat where "MAX_TERMINAL_TOMBSTONES = 1024"

lemmas worker_consts = HEARTBEAT_INTERVAL_TICKS_def LIFECYCLE_RETRY_MAX_def
  LIFECYCLE_RETRY_DELAY_TICKS_def LIFECYCLE_FIRST_RETRY_DELAY_TICKS_def STOP_ATTEMPT_MAX_def
  STOP_RETRY_DELAY_TICKS_def MAX_TRACKED_PODS_def MAX_TERMINAL_TOMBSTONES_def

section \<open>State\<close>

datatype tracked_pod_state =
    ImagePulling
  | Creating
  | Starting
  | Running
  | Stopping
  | Stopped i32
  | Failed string

record tracked_pod =
  tp_pod_id :: u64
  tp_deployment_id :: u64
  tp_image :: string
  tp_entrypoint :: string
  tp_state :: tracked_pod_state
  tp_handle :: "pod_handle option"
  tp_state_changed_at :: u64
  tp_gpu_count :: u8
  tp_cpu_millicores :: u32
  tp_memory_megabytes :: u32
  tp_grace_period_ms :: u64
  tp_port :: u16
  tp_liveness_path :: string
  tp_readiness_path :: string
  tp_probe_interval_ms :: u64
  tp_last_probe_tick :: u64
  tp_consecutive_failures :: u8
  tp_env_vars :: "(string \<times> string) list"
  tp_juicefs_path :: string
  tp_image_pull_auth :: "image_pull_auth option"
  tp_lifecycle_failures :: u8
  tp_lifecycle_retry_after_tick :: u64

record worker =
  wk_node_name :: string
  wk_gpu_type :: gpu_type
  wk_gpu_total :: u8
  wk_cpu_millicores :: u32
  wk_memory_megabytes :: u32
  wk_pods :: "(u64, tracked_pod) hashmap"
  wk_pending_failure_reasons :: "(u64, string) hashmap"
  wk_last_heartbeat_tick :: u64
  wk_registered :: bool
  wk_gpu_allocated :: u8
  wk_cpu_allocated_millicores :: u32
  wk_memory_allocated_megabytes :: u32
  wk_lifecycle_concurrency :: nat
  wk_secret_resolver :: secret_resolver

definition is_terminal :: "tracked_pod_state \<Rightarrow> bool" where
  "is_terminal st = (case st of Stopped _ \<Rightarrow> True | Failed _ \<Rightarrow> True | _ \<Rightarrow> False)"

text \<open>\<open>Worker::new\<close>; the resolver reads three environment variables.\<close>

definition worker_new ::
    "secret_resolver \<Rightarrow> string \<Rightarrow> gpu_type \<Rightarrow> u8 \<Rightarrow> u32 \<Rightarrow> u32 \<Rightarrow> worker" where
  "worker_new resolver node_name gpu_type gpu_total cpu_millicores memory_megabytes =
     \<lparr>wk_node_name = node_name, wk_gpu_type = gpu_type, wk_gpu_total = gpu_total,
      wk_cpu_millicores = cpu_millicores, wk_memory_megabytes = memory_megabytes,
      wk_pods = [], wk_pending_failure_reasons = [], wk_last_heartbeat_tick = 0,
      wk_registered = False, wk_gpu_allocated = 0, wk_cpu_allocated_millicores = 0,
      wk_memory_allocated_megabytes = 0, wk_lifecycle_concurrency = 4,
      wk_secret_resolver = resolver\<rparr>"

definition new_with_lifecycle_concurrency ::
    "secret_resolver \<Rightarrow> string \<Rightarrow> gpu_type \<Rightarrow> u8 \<Rightarrow> u32 \<Rightarrow> u32 \<Rightarrow> nat \<Rightarrow> worker" where
  "new_with_lifecycle_concurrency resolver node_name gpu_type gpu_total cpu mem lifecycle_concurrency =
     (worker_new resolver node_name gpu_type gpu_total cpu mem)
       \<lparr>wk_lifecycle_concurrency := max 1 (min 32 lifecycle_concurrency)\<rparr>"

definition on_connection_lost :: "worker \<Rightarrow> worker" where
  "on_connection_lost w = w\<lparr>wk_registered := False\<rparr>"

section \<open>Operations on the worker alone\<close>

text \<open>\<open>get_mut\<close> followed by field updates.\<close>

definition update_pod :: "u64 \<Rightarrow> (tracked_pod \<Rightarrow> tracked_pod) \<Rightarrow> worker \<Rightarrow> worker" where
  "update_pod pod_id f w = w\<lparr>wk_pods := hm_modify pod_id f (wk_pods w)\<rparr>"

text \<open>\<open>self.pods[&pod_id]\<close>, which panics on a missing key.\<close>

definition index_pod :: "u64 \<Rightarrow> worker \<Rightarrow> tracked_pod res" where
  "index_pod pod_id w = expect (hm_get (wk_pods w) pod_id) ''no entry found for key''"

definition remove_tombstone :: "u64 \<times> u64 \<Rightarrow> worker \<Rightarrow> worker res" where
  "remove_tombstone entry w =
     (let pod_id = snd entry in
      and_then (expect (hm_get (wk_pods w) pod_id) ''terminal pod must exist'') (\<lambda>pod.
        let w' = w\<lparr>wk_pods := hm_remove pod_id (wk_pods w)\<rparr> in
        and_then (ensure (tp_handle pod = None) ''terminal tombstone cannot own a runtime'') (\<lambda>_.
        and_then (ensure (hm_get (wk_pending_failure_reasons w) pod_id = None)
                    ''assertion failed: !self.pending_failure_reasons.contains_key(&pod_id)'')
          (\<lambda>_. Inr w'))))"

definition terminal_entries :: "worker \<Rightarrow> (u64 \<times> u64) list" where
  "terminal_entries w =
     map (\<lambda>pod. (tp_state_changed_at pod, tp_pod_id pod))
       (filter (\<lambda>pod. is_terminal (tp_state pod)) (hm_values (wk_pods w)))"

definition prune_terminal_pods_to :: "nat \<Rightarrow> worker \<Rightarrow> worker res" where
  "prune_terminal_pods_to limit w =
     and_then (ensure (limit \<le> MAX_TERMINAL_TOMBSTONES)
                ''assertion failed: limit <= MAX_TERMINAL_TOMBSTONES'') (\<lambda>_.
       let terminal = sort (terminal_entries w);
           remove_count = length terminal - limit
       in fold_res remove_tombstone (take remove_count terminal) w)"

definition scrub_pod :: "tracked_pod \<Rightarrow> tracked_pod" where
  "scrub_pod pod = pod\<lparr>tp_entrypoint := [], tp_env_vars := [], tp_juicefs_path := [],
                       tp_image_pull_auth := None\<rparr>"

definition scrub_terminal_pod_data :: "u64 \<Rightarrow> worker \<Rightarrow> worker res" where
  "scrub_terminal_pod_data pod_id w =
     and_then (expect (hm_get (wk_pods w) pod_id) ''terminal pod must exist'') (\<lambda>pod.
     and_then (ensure (is_terminal (tp_state pod)) ''assertion failed: terminal state'') (\<lambda>_.
     and_then (ensure (tp_handle pod = None) ''assertion failed: pod.handle.is_none()'') (\<lambda>_.
       Inr (update_pod pod_id scrub_pod w))))"

definition release_pod_resources :: "u64 \<Rightarrow> worker \<Rightarrow> worker" where
  "release_pod_resources pod_id w =
     (case hm_get (wk_pods w) pod_id of
        None \<Rightarrow> w
      | Some pod \<Rightarrow>
          w\<lparr>wk_gpu_allocated := saturating_sub (wk_gpu_allocated w) (tp_gpu_count pod),
            wk_cpu_allocated_millicores :=
              saturating_sub (wk_cpu_allocated_millicores w) (tp_cpu_millicores pod),
            wk_memory_allocated_megabytes :=
              saturating_sub (wk_memory_allocated_megabytes w) (tp_memory_megabytes pod)\<rparr>)"

definition handle_stop_pod :: "stop_pod_cmd \<Rightarrow> u64 \<Rightarrow> worker \<Rightarrow> worker" where
  "handle_stop_pod cmd now w =
     (case hm_get (wk_pods w) (stp_pod_id cmd) of
        None \<Rightarrow> w
      | Some pod \<Rightarrow>
          if tp_state pod \<in> {ImagePulling, Creating, Starting, Running} then
            update_pod (stp_pod_id cmd)
              (\<lambda>pod. pod\<lparr>tp_state := Stopping, tp_state_changed_at := now,
                         tp_grace_period_ms := min (stp_grace_period_ms cmd) MAX_STOP_GRACE_MS,
                         tp_lifecycle_failures := 0, tp_lifecycle_retry_after_tick := 0\<rparr>) w
          else w)"

primrec tracked_pod_status :: "tracked_pod_state \<Rightarrow> pod_status_report" where
  "tracked_pod_status ImagePulling = ReportImagePulling"
| "tracked_pod_status Creating = ReportCreating"
| "tracked_pod_status Starting = ReportCreating"
| "tracked_pod_status Running = ReportRunning"
| "tracked_pod_status Stopping = ReportRunning"
| "tracked_pod_status (Stopped exit_code) = ReportStopped exit_code"
| "tracked_pod_status (Failed reason) = ReportFailed reason"

definition schedule_stop_retry :: "u64 \<Rightarrow> u64 \<Rightarrow> worker \<Rightarrow> worker res" where
  "schedule_stop_retry pod_id now w =
     and_then (expect (hm_get (wk_pods w) pod_id) ''failed stop pod must remain tracked'') (\<lambda>pod.
     and_then (ensure (tp_state pod = Stopping) ''assertion failed: pod.state == Stopping'') (\<lambda>_.
       Inr (update_pod pod_id
              (\<lambda>pod. pod\<lparr>tp_lifecycle_failures :=
                           min (saturating_add (tp_lifecycle_failures pod) 1) STOP_ATTEMPT_MAX,
                         tp_lifecycle_retry_after_tick := saturating_add now STOP_RETRY_DELAY_TICKS\<rparr>) w)))"

definition retry_lifecycle_pod :: "u64 \<Rightarrow> u64 \<Rightarrow> worker \<Rightarrow> bool \<times> worker" where
  "retry_lifecycle_pod pod_id now w =
     (case hm_get (wk_pods w) pod_id of
        None \<Rightarrow> (False, w)
      | Some pod \<Rightarrow>
          if saturating_add (tp_lifecycle_failures pod) 1 \<ge> LIFECYCLE_RETRY_MAX then (False, w)
          else
            let failures = tp_lifecycle_failures pod + 1;
                delay = saturating_mul LIFECYCLE_RETRY_DELAY_TICKS (push_bit (unat failures mod 64) 1)
            in (True, update_pod pod_id
                  (\<lambda>pod. pod\<lparr>tp_lifecycle_failures := failures,
                             tp_lifecycle_retry_after_tick := saturating_add now delay\<rparr>) w))"

definition pod_counts :: "worker \<Rightarrow> nat \<times> nat" where
  "pod_counts w =
     (length (filter (\<lambda>p. tp_state p = Running) (hm_values (wk_pods w))), hm_len (wk_pods w))"

section \<open>System states\<close>

record ('e, 'i) ctx =
  cx_os :: "'e os"
  cx_rt :: "'e runtime"
  cx_io :: "'i io"

record ('e, 'i) sys =
  sy_worker :: worker
  sy_env :: 'e
  sy_io :: 'i
  sy_out :: "worker_message list"

type_synonym ('e, 'i) action = "('e, 'i) sys \<Rightarrow> ('e, 'i) sys res"

definition send :: "('e, 'i) ctx \<Rightarrow> worker_message \<Rightarrow> ('e, 'i) action" where
  "send cx m s =
     and_then (io_send (cx_io cx) m (sy_io s)) (\<lambda>i. Inr (s\<lparr>sy_io := i, sy_out := sy_out s @ [m]\<rparr>))"

definition call :: "('a, 'e) call \<Rightarrow> ('a \<Rightarrow> ('e, 'i) action) \<Rightarrow> ('e, 'i) action" where
  "call c f s = and_then (c (sy_env s)) (\<lambda>(r, e). f r (s\<lparr>sy_env := e\<rparr>))"

definition on_worker :: "(worker \<Rightarrow> worker res) \<Rightarrow> ('e, 'i) action" where
  "on_worker f s = and_then (f (sy_worker s)) (\<lambda>w. Inr (s\<lparr>sy_worker := w\<rparr>))"

definition modify_worker :: "(worker \<Rightarrow> worker) \<Rightarrow> ('e, 'i) action" where
  "modify_worker f s = Inr (s\<lparr>sy_worker := f (sy_worker s)\<rparr>)"

definition then_do :: "('e, 'i) action \<Rightarrow> ('e, 'i) action \<Rightarrow> ('e, 'i) action" where
  "then_do f g s = and_then (f s) g"

fun do_all :: "('e, 'i) action list \<Rightarrow> ('e, 'i) action" where
  "do_all [] s = Inr s"
| "do_all (f # fs) s = and_then (f s) (do_all fs)"

definition skip :: "('e, 'i) action" where
  "skip s = Inr s"

definition status_event :: "u64 \<Rightarrow> pod_status_report \<Rightarrow> worker_message" where
  "status_event pod_id status = PodStatusEvent \<lparr>ev_pod_id = pod_id, ev_status = status\<rparr>"

definition run_response :: "u64 \<Rightarrow> u8 \<Rightarrow> u8 list \<Rightarrow> worker_message" where
  "run_response request_id status payload =
     RunResponse \<lparr>rsp_request_id = request_id, rsp_status = status, rsp_payload = payload\<rparr>"

end
