(* ===== verification/Worker_Steps.thy ===== *)
theory Worker_Steps
  imports Worker_State "HOL-Library.Product_Lexorder"
begin

text \<open>
  The handlers and the tick of \<^verbatim>\<open>worker/src/worker.rs\<close>, translated action by action. The lifecycle
  operations of one tick run in chunks of threads; a chunk is a list of threads, each advancing
  one runtime call at a time, in an order the scheduler picks. The receive loop of a tick may not
  end for an arbitrary link, so it is a partial function whose not returning is \<open>None\<close>.
\<close>

section \<open>Handlers\<close>

fun min_by_pod_id :: "tracked_pod list \<Rightarrow> tracked_pod option" where
  "min_by_pod_id [] = None"
| "min_by_pod_id (p # ps) =
     (case min_by_pod_id ps of
        None \<Rightarrow> Some p
      | Some q \<Rightarrow> if tp_pod_id p \<le> tp_pod_id q then Some p else Some q)"

definition routable :: "u64 \<Rightarrow> tracked_pod \<Rightarrow> bool" where
  "routable deployment_id pod =
     (tp_deployment_id pod = deployment_id \<and> tp_state pod = Running \<and> tp_port pod > 0
      \<and> tp_handle pod \<noteq> None)"

definition forward_status :: "runtime_error \<Rightarrow> u8" where
  "forward_status e =
     (case e of ResponseTooLarge _ \<Rightarrow> RUN_STATUS_RESPONSE_TOO_LARGE
      | _ \<Rightarrow> RUN_STATUS_FORWARDING_FAILED)"

definition handle_run_request :: "('e, 'i) ctx \<Rightarrow> run_request_cmd \<Rightarrow> ('e, 'i) action" where
  "handle_run_request cx cmd s =
     (case min_by_pod_id (filter (routable (rr_deployment_id cmd)) (hm_values (wk_pods (sy_worker s)))) of
        Some pod \<Rightarrow>
          and_then (expect (tp_handle pod) ''running pod handle must exist'') (\<lambda>handle.
            call (rt_forward_run (cx_rt cx) handle (tp_port pod) (rr_payload cmd)) (\<lambda>r.
              case r of
                Inr response \<Rightarrow> send cx (run_response (rr_request_id cmd) 0 response)
              | Inl e \<Rightarrow> send cx (run_response (rr_request_id cmd) (forward_status e)
                           (as_bytes (show_runtime_error e)))) s)
      | None \<Rightarrow>
          send cx (run_response (rr_request_id cmd) RUN_STATUS_NO_RUNNING_POD
            (as_bytes (''no running pod for deployment '' @ dec (unat (rr_deployment_id cmd))))) s)"

definition reject_start :: "('e, 'i) ctx \<Rightarrow> u64 \<Rightarrow> string \<Rightarrow> ('e, 'i) action" where
  "reject_start cx pod_id reason = send cx (status_event pod_id (ReportFailed reason))"

text \<open>The guards of an admission in their order; \<open>Some\<close> is the reason of a rejection.\<close>

definition start_rejection :: "start_pod_cmd \<Rightarrow> worker \<Rightarrow> string option" where
  "start_rejection cmd w =
     (if sp_gpu_count cmd > 0 \<and> sp_gpu_type cmd \<noteq> wk_gpu_type w then
        Some ''requested GPU type does not match worker GPU type''
      else if saturating_add (wk_gpu_allocated w) (sp_gpu_count cmd) > wk_gpu_total w then
        Some ''insufficient GPU capacity''
      else if saturating_add (wk_cpu_allocated_millicores w) (sp_cpu_millicores cmd) > wk_cpu_millicores w then
        Some ''insufficient CPU capacity''
      else if saturating_add (wk_memory_allocated_megabytes w) (sp_memory_megabytes cmd)
                > wk_memory_megabytes w then
        Some ''insufficient memory capacity''
      else None)"

definition allocate :: "start_pod_cmd \<Rightarrow> worker \<Rightarrow> worker" where
  "allocate cmd w =
     w\<lparr>wk_gpu_allocated := wk_gpu_allocated w + sp_gpu_count cmd,
       wk_cpu_allocated_millicores := wk_cpu_allocated_millicores w + sp_cpu_millicores cmd,
       wk_memory_allocated_megabytes := wk_memory_allocated_megabytes w + sp_memory_megabytes cmd\<rparr>"

definition new_pod ::
    "start_pod_cmd \<Rightarrow> u64 \<Rightarrow> (string \<times> string) list \<Rightarrow> image_pull_auth option \<Rightarrow> tracked_pod" where
  "new_pod cmd now env_vars image_pull_auth =
     \<lparr>tp_pod_id = sp_pod_id cmd, tp_deployment_id = sp_deployment_id cmd, tp_image = sp_image cmd,
      tp_entrypoint = sp_entrypoint cmd, tp_state = ImagePulling, tp_handle = None,
      tp_state_changed_at = now, tp_gpu_count = sp_gpu_count cmd,
      tp_cpu_millicores = sp_cpu_millicores cmd, tp_memory_megabytes = sp_memory_megabytes cmd,
      tp_grace_period_ms = 0, tp_port = sp_port cmd, tp_liveness_path = sp_liveness_path cmd,
      tp_readiness_path = sp_readiness_path cmd, tp_probe_interval_ms = 10000,
      tp_last_probe_tick = now, tp_consecutive_failures = 0, tp_env_vars = env_vars,
      tp_juicefs_path = sp_juicefs_path cmd, tp_image_pull_auth = image_pull_auth,
      tp_lifecycle_failures = 0, tp_lifecycle_retry_after_tick = 0\<rparr>"

definition pull_auth :: "start_pod_cmd \<Rightarrow> string \<Rightarrow> image_pull_auth option" where
  "pull_auth cmd password =
     (if sp_image_pull_username cmd \<noteq> [] \<or> password \<noteq> [] then
        Some \<lparr>ipa_registry = sp_image_pull_registry cmd, ipa_username = sp_image_pull_username cmd,
              ipa_password = password\<rparr>
      else None)"

text \<open>The admitted branch: account for the pod, resolve its secrets, track it, report it.\<close>

definition admit_pod :: "('e, 'i) ctx \<Rightarrow> start_pod_cmd \<Rightarrow> u64 \<Rightarrow> ('e, 'i) action" where
  "admit_pod cx cmd now s0 =
     (let s = s0\<lparr>sy_worker := allocate cmd (sy_worker s0)\<rparr> in
      call (resolve (cx_os cx) (sp_env_vars cmd) (wk_secret_resolver (sy_worker s))) (\<lambda>(env_vars, r1) s1.
      call (resolve_plain_or_secret (cx_os cx) (sp_image_pull_password cmd)
              (sp_image_pull_password_is_secret cmd) r1) (\<lambda>(password, r2) s2.
        let auth = pull_auth cmd (unwrap_or password []);
            w = (sy_worker s2)\<lparr>wk_secret_resolver := r2,
                  wk_pods := hm_insert (sp_pod_id cmd) (new_pod cmd now env_vars auth)
                               (wk_pods (sy_worker s2))\<rparr>
        in send cx (status_event (sp_pod_id cmd) ReportImagePulling) (s2\<lparr>sy_worker := w\<rparr>)) s1) s)"

definition handle_start_pod :: "('e, 'i) ctx \<Rightarrow> start_pod_cmd \<Rightarrow> u64 \<Rightarrow> ('e, 'i) action" where
  "handle_start_pod cx cmd now s =
     (case hm_get (wk_pods (sy_worker s)) (sp_pod_id cmd) of
        Some pod \<Rightarrow> send cx (status_event (sp_pod_id cmd) (tracked_pod_status (tp_state pod))) s
      | None \<Rightarrow>
          and_then (on_worker (prune_terminal_pods_to MAX_TERMINAL_TOMBSTONES) s) (\<lambda>s1.
            if hm_len (wk_pods (sy_worker s1)) \<ge> MAX_TRACKED_PODS then
              reject_start cx (sp_pod_id cmd) ''worker tracked-pod capacity exhausted'' s1
            else case start_rejection cmd (sy_worker s1) of
              Some reason \<Rightarrow> reject_start cx (sp_pod_id cmd) reason s1
            | None \<Rightarrow> admit_pod cx cmd now s1))"

definition handle_probe_pod :: "('e, 'i) ctx \<Rightarrow> probe_pod_cmd \<Rightarrow> ('e, 'i) action" where
  "handle_probe_pod cx cmd s =
     (case hm_get (wk_pods (sy_worker s)) (prb_pod_id cmd) of
        None \<Rightarrow> Inr s
      | Some pod \<Rightarrow> send cx (status_event (prb_pod_id cmd) (tracked_pod_status (tp_state pod))) s)"

primrec handle_message :: "('e, 'i) ctx \<Rightarrow> control_message \<Rightarrow> u64 \<Rightarrow> ('e, 'i) action" where
  "handle_message cx (StartPod cmd) now = handle_start_pod cx cmd now"
| "handle_message cx (StopPod cmd) now = modify_worker (handle_stop_pod cmd now)"
| "handle_message cx (ProbePod cmd) now = handle_probe_pod cx cmd"
| "handle_message cx (RunRequest cmd) now = handle_run_request cx cmd"

section \<open>Failing and finishing pods\<close>

text \<open>The end of a pod: its terminal state, its resources, its data, the tombstones, the event.\<close>

definition begin_failure_cleanup :: "u64 \<Rightarrow> string \<Rightarrow> u64 \<Rightarrow> worker \<Rightarrow> worker res" where
  "begin_failure_cleanup pod_id reason now w =
     (let w1 = update_pod pod_id
                 (\<lambda>pod. pod\<lparr>tp_state := Stopping, tp_state_changed_at := now, tp_grace_period_ms := 0,
                            tp_lifecycle_failures := 0, tp_lifecycle_retry_after_tick := 0\<rparr>) w;
          previous = hm_get (wk_pending_failure_reasons w1) pod_id;
          w2 = w1\<lparr>wk_pending_failure_reasons := hm_insert pod_id reason (wk_pending_failure_reasons w1)\<rparr>
      in and_then (ensure (previous = None) ''pod failure cleanup may only begin once'') (\<lambda>_.
         and_then (ensure (hm_len (wk_pending_failure_reasons w2) \<le> hm_len (wk_pods w2))
                    ''assertion failed: self.pending_failure_reasons.len() <= self.pods.len()'')
           (\<lambda>_. Inr w2)))"

definition retire_pod :: "u64 \<Rightarrow> worker \<Rightarrow> worker res" where
  "retire_pod pod_id w =
     and_then (scrub_terminal_pod_data pod_id (release_pod_resources pod_id w))
       (prune_terminal_pods_to MAX_TERMINAL_TOMBSTONES)"

definition fail_pod :: "('e, 'i) ctx \<Rightarrow> u64 \<Rightarrow> string \<Rightarrow> u64 \<Rightarrow> ('e, 'i) action" where
  "fail_pod cx pod_id reason now s =
     and_then (expect (hm_get (wk_pods (sy_worker s)) pod_id) ''failed pod must exist'') (\<lambda>pod.
       let needs_runtime_cleanup = (tp_handle pod \<noteq> None) in
       call (if needs_runtime_cleanup then ret (Inr ()) else unmount_juicefs (cx_os cx) pod_id)
         (\<lambda>volume_cleanup s1.
           if needs_runtime_cleanup \<or> isl volume_cleanup then
             on_worker (begin_failure_cleanup pod_id reason now) s1
           else
             and_then (on_worker (\<lambda>w. retire_pod pod_id (update_pod pod_id
                         (\<lambda>pod. pod\<lparr>tp_state := Failed reason, tp_state_changed_at := now\<rparr>) w)) s1)
               (send cx (status_event pod_id (ReportFailed reason)))) s)"

definition finish_pod_stop :: "('e, 'i) ctx \<Rightarrow> u64 \<Rightarrow> i32 \<Rightarrow> u64 \<Rightarrow> ('e, 'i) action" where
  "finish_pod_stop cx pod_id exit_code now s =
     (let w = sy_worker s;
          failure_reason = hm_get (wk_pending_failure_reasons w) pod_id;
          w1 = w\<lparr>wk_pending_failure_reasons := hm_remove pod_id (wk_pending_failure_reasons w)\<rparr>
      in and_then (expect (hm_get (wk_pods w1) pod_id) ''stopping pod must exist'') (\<lambda>_.
         and_then (retire_pod pod_id (update_pod pod_id
             (\<lambda>pod. pod\<lparr>tp_state := (case failure_reason of Some reason \<Rightarrow> Failed reason
                                     | None \<Rightarrow> Stopped exit_code),
                        tp_state_changed_at := now, tp_lifecycle_retry_after_tick := 0\<rparr>) w1)) (\<lambda>w2.
           send cx (status_event pod_id (case failure_reason of Some reason \<Rightarrow> ReportFailed reason
                                         | None \<Rightarrow> ReportStopped exit_code)) (s\<lparr>sy_worker := w2\<rparr>))))"

definition unmount_and_finish :: "('e, 'i) ctx \<Rightarrow> u64 \<Rightarrow> i32 \<Rightarrow> u64 \<Rightarrow> ('e, 'i) action" where
  "unmount_and_finish cx pod_id exit_code now =
     call (unmount_juicefs (cx_os cx) pod_id) (\<lambda>r.
       case r of
         Inl _ \<Rightarrow> on_worker (schedule_stop_retry pod_id now)
       | Inr _ \<Rightarrow> finish_pod_stop cx pod_id exit_code now)"

definition complete_pod_stop :: "('e, 'i) ctx \<Rightarrow> u64 \<Rightarrow> i32 \<Rightarrow> u64 \<Rightarrow> ('e, 'i) action" where
  "complete_pod_stop cx pod_id exit_code now s =
     and_then (ensure (map_option tp_state (hm_get (wk_pods (sy_worker s)) pod_id) = Some Stopping)
                ''only a stopping pod may complete stop'') (\<lambda>_.
     and_then (index_pod pod_id (sy_worker s)) (\<lambda>pod.
       case tp_handle pod of
         None \<Rightarrow> unmount_and_finish cx pod_id exit_code now s
       | Some handle \<Rightarrow>
           call (rt_remove_pod (cx_rt cx) handle) (\<lambda>r.
             case r of
               Inl _ \<Rightarrow> on_worker (schedule_stop_retry pod_id now)
             | Inr _ \<Rightarrow> (\<lambda>s1.
                 and_then (expect (hm_get (wk_pods (sy_worker s1)) pod_id)
                            ''stopping pod must remain tracked'') (\<lambda>_.
                   unmount_and_finish cx pod_id exit_code now
                     (s1\<lparr>sy_worker := update_pod pod_id (\<lambda>pod. pod\<lparr>tp_handle := None\<rparr>)
                           (sy_worker s1)\<rparr>)))) s))"

section \<open>The scan of the tracked pods\<close>

datatype lifecycle_op =
    OpPull u64 u64 string "image_pull_auth option"
  | OpCreate u64 u64 pod_spec
  | OpStart u64 u64 pod_handle
  | OpStop u64 "pod_handle option" u64 bool

datatype lifecycle_result =
    ResPull "runtime_error + unit"
  | ResCreate "runtime_error + pod_handle"
  | ResStart "runtime_error + unit"
  | ResStop "runtime_error + i32"

primrec op_pod_id :: "lifecycle_op \<Rightarrow> u64" where
  "op_pod_id (OpPull pod_id _ _ _) = pod_id"
| "op_pod_id (OpCreate pod_id _ _) = pod_id"
| "op_pod_id (OpStart pod_id _ _) = pod_id"
| "op_pod_id (OpStop pod_id _ _ _) = pod_id"

type_synonym ('e, 'i) scan = "lifecycle_op list \<times> ('e, 'i) sys"

definition pod_spec_of :: "gpu_type \<Rightarrow> tracked_pod \<Rightarrow> u64 \<Rightarrow> bind_mount list \<Rightarrow> pod_spec" where
  "pod_spec_of gpu_type pod pod_id mounts =
     \<lparr>ps_pod_id = pod_id, ps_deployment_id = tp_deployment_id pod, ps_image = tp_image pod,
      ps_entrypoint = tp_entrypoint pod, ps_port = tp_port pod, ps_gpu_count = tp_gpu_count pod,
      ps_gpu_type = gpu_type, ps_cpu_millicores = tp_cpu_millicores pod,
      ps_memory_megabytes = tp_memory_megabytes pod, ps_env_vars = tp_env_vars pod,
      ps_mounts = mounts\<rparr>"

definition pod_mounts :: "'e os \<Rightarrow> u64 \<Rightarrow> tracked_pod \<Rightarrow> (string + bind_mount list, 'e) call" where
  "pod_mounts os pod_id pod =
     (if tp_juicefs_path pod = [] then ret (Inr [])
      else bind_call (mount_juicefs os pod_id (tp_juicefs_path pod)) (\<lambda>r.
        ret (case r of
               Inl e \<Rightarrow> Inl e
             | Inr vol \<Rightarrow> Inr [\<lparr>bm_host_path = vm_host_path vol,
                               bm_container_path = vm_container_path vol\<rparr>])))"

definition scan_creating :: "('e, 'i) ctx \<Rightarrow> u64 \<Rightarrow> u64 \<Rightarrow> tracked_pod \<Rightarrow> ('e, 'i) scan \<Rightarrow> ('e, 'i) scan res" where
  "scan_creating cx now pod_id pod st =
     (let (ops, s) = st in
      if tp_lifecycle_retry_after_tick pod > now then Inr (ops, s)
      else and_then (pod_mounts (cx_os cx) pod_id pod (sy_env s)) (\<lambda>(r, e).
        let s1 = s\<lparr>sy_env := e\<rparr> in
        case r of
          Inr mounts \<Rightarrow>
            Inr (ops @ [OpCreate pod_id (tp_deployment_id pod)
                          (pod_spec_of (wk_gpu_type (sy_worker s1)) pod pod_id mounts)], s1)
        | Inl error \<Rightarrow>
            and_then (fail_pod cx pod_id (''juicefs mount failed: '' @ error) now s1)
              (\<lambda>s2. Inr (ops, s2))))"

definition probe_running :: "('e, 'i) ctx \<Rightarrow> u64 \<Rightarrow> u64 \<Rightarrow> ('e, 'i) action" where
  "probe_running cx now pod_id s =
     and_then (index_pod pod_id (sy_worker s)) (\<lambda>pod.
       if tp_liveness_path pod \<noteq> [] \<and> tp_port pod > 0
          \<and> now \<ge> tp_last_probe_tick pod + tp_probe_interval_ms pod then
         and_then (expect (tp_handle pod) ''running pod must retain its runtime handle'') (\<lambda>handle.
           let s1 = s\<lparr>sy_worker := update_pod pod_id (\<lambda>pod. pod\<lparr>tp_last_probe_tick := now\<rparr>) (sy_worker s)\<rparr> in
           call (rt_probe_pod (cx_rt cx) handle (tp_port pod) (tp_liveness_path pod)) (\<lambda>r s2.
             if r = Inr True then
               modify_worker (update_pod pod_id (\<lambda>pod. pod\<lparr>tp_consecutive_failures := 0\<rparr>)) s2
             else
               let s3 = s2\<lparr>sy_worker := update_pod pod_id
                          (\<lambda>pod. pod\<lparr>tp_consecutive_failures := saturating_add (tp_consecutive_failures pod) 1\<rparr>)
                          (sy_worker s2)\<rparr>
               in and_then (index_pod pod_id (sy_worker s3)) (\<lambda>pod.
                    if tp_consecutive_failures pod \<ge> 3
                    then fail_pod cx pod_id ''liveness probe failed'' now s3
                    else Inr s3)) s1)
       else Inr s)"

definition scan_running :: "('e, 'i) ctx \<Rightarrow> u64 \<Rightarrow> u64 \<Rightarrow> tracked_pod \<Rightarrow> ('e, 'i) action" where
  "scan_running cx now pod_id pod s =
     and_then (expect (tp_handle pod) ''running pod must retain its runtime handle'') (\<lambda>handle.
       call (rt_pod_status (cx_rt cx) handle) (\<lambda>r.
         case r of
           Inr StatusRunning \<Rightarrow> probe_running cx now pod_id
         | Inr (StatusStopped exit_code) \<Rightarrow> (\<lambda>s1.
             complete_pod_stop cx pod_id exit_code now
               (s1\<lparr>sy_worker := update_pod pod_id
                  (\<lambda>pod. pod\<lparr>tp_state := Stopping, tp_state_changed_at := now, tp_grace_period_ms := 0,
                             tp_lifecycle_failures := STOP_ATTEMPT_MAX,
                             tp_lifecycle_retry_after_tick := 0\<rparr>) (sy_worker s1)\<rparr>))
         | Inr StatusCreated \<Rightarrow> fail_pod cx pod_id ''runtime no longer proves pod is running'' now
         | Inr StatusUnknown \<Rightarrow> fail_pod cx pod_id ''runtime no longer proves pod is running'' now
         | Inl error \<Rightarrow>
             fail_pod cx pod_id (''runtime status verification failed: '' @ show_runtime_error error) now) s)"

definition scan_pod :: "('e, 'i) ctx \<Rightarrow> u64 \<Rightarrow> u64 \<Rightarrow> ('e, 'i) scan \<Rightarrow> ('e, 'i) scan res" where
  "scan_pod cx now pod_id st =
     (let (ops, s) = st in
      and_then (index_pod pod_id (sy_worker s)) (\<lambda>pod.
        case tp_state pod of
          ImagePulling \<Rightarrow>
            Inr (ops @ [OpPull pod_id (tp_deployment_id pod) (tp_image pod) (tp_image_pull_auth pod)], s)
        | Creating \<Rightarrow> scan_creating cx now pod_id pod (ops, s)
        | Starting \<Rightarrow>
            if tp_lifecycle_retry_after_tick pod > now then Inr (ops, s)
            else (case tp_handle pod of
                    Some handle \<Rightarrow> Inr (ops @ [OpStart pod_id (tp_deployment_id pod) handle], s)
                  | None \<Rightarrow> Inr (ops, s))
        | Running \<Rightarrow> and_then (scan_running cx now pod_id pod s) (\<lambda>s1. Inr (ops, s1))
        | Stopping \<Rightarrow>
            if tp_lifecycle_retry_after_tick pod > now then Inr (ops, s)
            else Inr (ops @ [OpStop pod_id (tp_handle pod) (tp_grace_period_ms pod)
                               (tp_lifecycle_failures pod < STOP_ATTEMPT_MAX)], s)
        | _ \<Rightarrow> Inr (ops, s)))"

definition scan_pods :: "('e, 'i) ctx \<Rightarrow> u64 \<Rightarrow> ('e, 'i) sys \<Rightarrow> ('e, 'i) scan res" where
  "scan_pods cx now s =
     fold_res (scan_pod cx now) (sort (hm_keys (wk_pods (sy_worker s)))) ([], s)"

section \<open>Running the lifecycle operations\<close>

definition op_key :: "lifecycle_op \<Rightarrow> u8 \<times> u64" where
  "op_key op = (case op of OpStart pod_id _ _ \<Rightarrow> (0, pod_id) | _ \<Rightarrow> (1, op_pod_id op))"

definition phase_concurrency :: "nat \<Rightarrow> lifecycle_op \<Rightarrow> nat" where
  "phase_concurrency lifecycle_concurrency op =
     (case op of
        OpStart _ _ _ \<Rightarrow> max lifecycle_concurrency 1
      | _ \<Rightarrow> max 1 (min 32 (min (2 ^ 64 - 1) (lifecycle_concurrency * 4))))"

datatype thread =
    Spawned lifecycle_op
  | StopIssued lifecycle_op pod_handle "runtime_error option"
  | Done lifecycle_op lifecycle_result

definition stop_verdict :: "runtime_error option \<Rightarrow> runtime_error + pod_status \<Rightarrow> runtime_error + i32" where
  "stop_verdict stop_error status =
     (case status of
        Inr (StatusStopped exit_code) \<Rightarrow> Inr exit_code
      | Inr _ \<Rightarrow> Inl (unwrap_or stop_error (ContainerStop ''runtime status is not terminal''))
      | Inl status_error \<Rightarrow> Inl (unwrap_or stop_error status_error))"

text \<open>One runtime call of a thread.\<close>

fun thread_step :: "'e runtime \<Rightarrow> thread \<Rightarrow> (thread, 'e) call" where
  "thread_step rt (Spawned (OpPull pod_id dep img auth)) =
     bind_call (rt_pull_image rt img auth) (\<lambda>r. ret (Done (OpPull pod_id dep img auth) (ResPull r)))"
| "thread_step rt (Spawned (OpCreate pod_id dep spec)) =
     bind_call (rt_create_pod rt spec) (\<lambda>r. ret (Done (OpCreate pod_id dep spec) (ResCreate r)))"
| "thread_step rt (Spawned (OpStart pod_id dep handle)) =
     bind_call (rt_start_pod rt handle) (\<lambda>r. ret (Done (OpStart pod_id dep handle) (ResStart r)))"
| "thread_step rt (Spawned (OpStop pod_id None grace attempt)) =
     ret (Done (OpStop pod_id None grace attempt) (ResStop (Inr 0)))"
| "thread_step rt (Spawned (OpStop pod_id (Some handle) grace attempt)) =
     (if attempt then
        bind_call (rt_stop_pod rt handle grace) (\<lambda>r.
          ret (StopIssued (OpStop pod_id (Some handle) grace attempt) handle
                 (case r of Inl e \<Rightarrow> Some e | Inr _ \<Rightarrow> None)))
      else ret (StopIssued (OpStop pod_id (Some handle) grace attempt) handle None))"
| "thread_step rt (StopIssued op handle stop_error) =
     bind_call (rt_pod_status rt handle) (\<lambda>r. ret (Done op (ResStop (stop_verdict stop_error r))))"
| "thread_step rt (Done op r) = ret (Done op r)"

fun run_order :: "'e runtime \<Rightarrow> nat list \<Rightarrow> thread list \<Rightarrow> (thread list, 'e) call" where
  "run_order rt [] ts = ret ts"
| "run_order rt (i # order) ts =
     (if i < length ts
      then bind_call (thread_step rt (ts ! i)) (\<lambda>t. run_order rt order (ts[i := t]))
      else run_order rt order ts)"

text \<open>Joining: whatever the scheduler left undone is finished, thread by thread.\<close>

fun join_all :: "'e runtime \<Rightarrow> thread list \<Rightarrow> (thread list, 'e) call" where
  "join_all rt [] = ret []"
| "join_all rt (t # ts) =
     bind_call (bind_call (thread_step rt t) (thread_step rt)) (\<lambda>t'.
       bind_call (join_all rt ts) (\<lambda>ts'. ret (t' # ts')))"

definition run_chunk :: "'e runtime \<Rightarrow> nat list \<Rightarrow> lifecycle_op list \<Rightarrow> (thread list, 'e) call" where
  "run_chunk rt order ops = bind_call (run_order rt order (map Spawned ops)) (join_all rt)"

lemma phase_concurrency_pos: "0 < phase_concurrency c op"
  by (cases op) (simp_all add: phase_concurrency_def less_max_iff_disj)

function run_chunks ::
    "'e runtime \<Rightarrow> (nat \<Rightarrow> nat list) \<Rightarrow> nat \<Rightarrow> nat \<Rightarrow> lifecycle_op list \<Rightarrow> (thread list, 'e) call" where
  "run_chunks rt sched concurrency offset ops =
     (case ops of
        [] \<Rightarrow> ret []
      | op # _ \<Rightarrow>
          let n = phase_concurrency concurrency op in
          bind_call (run_chunk rt (sched offset) (take n ops)) (\<lambda>ts.
            bind_call (run_chunks rt sched concurrency (offset + n) (drop n ops)) (\<lambda>rest. ret (ts @ rest))))"
  by auto
termination
  by (relation "measure (\<lambda>(rt, sched, c, off, ops). length ops)")
     (simp_all add: phase_concurrency_pos)

declare run_chunks.simps [simp del]

section \<open>Completions\<close>

definition complete_pull :: "('e, 'i) ctx \<Rightarrow> u64 \<Rightarrow> u64 \<Rightarrow> lifecycle_result \<Rightarrow> ('e, 'i) action" where
  "complete_pull cx now pod_id result s =
     (if map_option tp_state (hm_get (wk_pods (sy_worker s)) pod_id) \<noteq> Some ImagePulling then Inr s
      else case result of
        ResPull (Inr _) \<Rightarrow>
          send cx (status_event pod_id ReportCreating)
            (s\<lparr>sy_worker := update_pod pod_id
                 (\<lambda>pod. pod\<lparr>tp_state := Creating, tp_state_changed_at := now\<rparr>) (sy_worker s)\<rparr>)
      | ResPull (Inl e) \<Rightarrow> fail_pod cx pod_id (show_runtime_error e) now s
      | _ \<Rightarrow> Inl ''pull op returned wrong result'')"

definition complete_create :: "('e, 'i) ctx \<Rightarrow> u64 \<Rightarrow> u64 \<Rightarrow> lifecycle_result \<Rightarrow> ('e, 'i) action" where
  "complete_create cx now pod_id result s =
     (if map_option tp_state (hm_get (wk_pods (sy_worker s)) pod_id) \<noteq> Some Creating then Inr s
      else case result of
        ResCreate (Inr handle) \<Rightarrow>
          Inr (s\<lparr>sy_worker := update_pod pod_id
                 (\<lambda>pod. pod\<lparr>tp_handle := Some handle, tp_state := Starting, tp_state_changed_at := now,
                            tp_lifecycle_retry_after_tick := 0\<rparr>) (sy_worker s)\<rparr>)
      | ResCreate (Inl e) \<Rightarrow> fail_pod cx pod_id (show_runtime_error e) now s
      | _ \<Rightarrow> Inl ''create op returned wrong result'')"

definition start_failed ::
    "('e, 'i) ctx \<Rightarrow> u64 \<Rightarrow> u64 \<Rightarrow> pod_handle \<Rightarrow> runtime_error \<Rightarrow> ('e, 'i) action" where
  "start_failed cx now pod_id handle e s =
     (let (retry, w) = retry_lifecycle_pod pod_id now (sy_worker s); s1 = s\<lparr>sy_worker := w\<rparr> in
      if retry then
        call (rt_remove_pod (cx_rt cx) handle) (\<lambda>r.
          case r of
            Inr _ \<Rightarrow> modify_worker (update_pod pod_id
                        (\<lambda>pod. pod\<lparr>tp_handle := None, tp_state := Creating, tp_state_changed_at := now\<rparr>))
          | Inl cleanup_error \<Rightarrow>
              fail_pod cx pod_id (show_runtime_error e @ ''; failed start cleanup remains unverified: ''
                                    @ show_runtime_error cleanup_error) now) s1
      else fail_pod cx pod_id (show_runtime_error e) now s1)"

definition complete_start ::
    "('e, 'i) ctx \<Rightarrow> u64 \<Rightarrow> u64 \<Rightarrow> pod_handle \<Rightarrow> lifecycle_result \<Rightarrow> ('e, 'i) action" where
  "complete_start cx now pod_id handle result s =
     (if map_option tp_state (hm_get (wk_pods (sy_worker s)) pod_id) \<noteq> Some Starting then Inr s
      else case result of
        ResStart (Inr _) \<Rightarrow>
          send cx (status_event pod_id ReportRunning)
            (s\<lparr>sy_worker := update_pod pod_id
                 (\<lambda>pod. pod\<lparr>tp_state := Running, tp_state_changed_at := now, tp_lifecycle_failures := 0,
                            tp_lifecycle_retry_after_tick := 0\<rparr>) (sy_worker s)\<rparr>)
      | ResStart (Inl e) \<Rightarrow> start_failed cx now pod_id handle e s
      | _ \<Rightarrow> Inl ''start op returned wrong result'')"

definition complete_stop :: "('e, 'i) ctx \<Rightarrow> u64 \<Rightarrow> u64 \<Rightarrow> lifecycle_result \<Rightarrow> ('e, 'i) action" where
  "complete_stop cx now pod_id result s =
     (if map_option tp_state (hm_get (wk_pods (sy_worker s)) pod_id) \<noteq> Some Stopping then Inr s
      else case result of
        ResStop (Inr exit_code) \<Rightarrow> complete_pod_stop cx pod_id exit_code now s
      | ResStop (Inl _) \<Rightarrow> on_worker (schedule_stop_retry pod_id now) s
      | _ \<Rightarrow> Inl ''stop op returned wrong result'')"

fun complete_op :: "('e, 'i) ctx \<Rightarrow> u64 \<Rightarrow> thread \<Rightarrow> ('e, 'i) action" where
  "complete_op cx now (Done (OpPull pod_id _ _ _) r) = complete_pull cx now pod_id r"
| "complete_op cx now (Done (OpCreate pod_id _ _) r) = complete_create cx now pod_id r"
| "complete_op cx now (Done (OpStart pod_id _ handle) r) = complete_start cx now pod_id handle r"
| "complete_op cx now (Done (OpStop pod_id _ _ _) r) = complete_stop cx now pod_id r"
| "complete_op cx now _ = (\<lambda>s. Inl ''lifecycle worker panicked'')"

definition drive_pods :: "('e, 'i) ctx \<Rightarrow> (nat \<Rightarrow> nat list) \<Rightarrow> u64 \<Rightarrow> ('e, 'i) action" where
  "drive_pods cx sched now s =
     and_then (scan_pods cx now s) (\<lambda>(ops, s1).
       call (run_chunks (cx_rt cx) sched (wk_lifecycle_concurrency (sy_worker s1)) 0 (sort_key op_key ops))
         (fold_res (complete_op cx now)) s1)"

section \<open>The tick\<close>

definition register_msg :: "worker \<Rightarrow> worker_message" where
  "register_msg w =
     NodeRegister \<lparr>nr_node_name = wk_node_name w, nr_cpu_millicores = wk_cpu_millicores w,
                   nr_memory_megabytes = wk_memory_megabytes w, nr_gpu_type = wk_gpu_type w,
                   nr_gpu_count = wk_gpu_total w\<rparr>"

definition register_step :: "('e, 'i) ctx \<Rightarrow> u64 \<Rightarrow> ('e, 'i) action" where
  "register_step cx now s =
     (if \<not> wk_registered (sy_worker s) then
        and_then (send cx (register_msg (sy_worker s)) s)
          (modify_worker (\<lambda>w. w\<lparr>wk_registered := True, wk_last_heartbeat_tick := now\<rparr>))
      else Inr s)"

definition heartbeat_msg :: "u64 \<Rightarrow> worker \<Rightarrow> worker_message" where
  "heartbeat_msg now w =
     NodeHeartbeat \<lparr>hb_tick = now,
       hb_active_pods = word_of_nat (length (filter (\<lambda>p. tp_state p = Running) (hm_values (wk_pods w)))),
       hb_gpu_free = saturating_sub (wk_gpu_total w) (wk_gpu_allocated w)\<rparr>"

definition heartbeat_step :: "('e, 'i) ctx \<Rightarrow> u64 \<Rightarrow> ('e, 'i) action" where
  "heartbeat_step cx now s =
     (if now \<ge> wk_last_heartbeat_tick (sy_worker s) + HEARTBEAT_INTERVAL_TICKS then
        and_then (send cx (heartbeat_msg now (sy_worker s)) s)
          (modify_worker (\<lambda>w. w\<lparr>wk_last_heartbeat_tick := now\<rparr>))
      else Inr s)"

partial_function (option) recv_loop :: "('e, 'i) ctx \<Rightarrow> u64 \<Rightarrow> ('e, 'i) sys \<Rightarrow> ('e, 'i) sys res option" where
  "recv_loop cx now s =
     (case io_recv (cx_io cx) (sy_io s) of
        Inl e \<Rightarrow> Some (Inl e)
      | Inr (None, i) \<Rightarrow> Some (Inr (s\<lparr>sy_io := i\<rparr>))
      | Inr (Some msg, i) \<Rightarrow>
          (case handle_message cx msg now (s\<lparr>sy_io := i\<rparr>) of
             Inl e \<Rightarrow> Some (Inl e)
           | Inr s' \<Rightarrow> recv_loop cx now s'))"

definition tick :: "('e, 'i) ctx \<Rightarrow> (nat \<Rightarrow> nat list) \<Rightarrow> ('e, 'i) sys \<Rightarrow> ('e, 'i) sys res option" where
  "tick cx sched s =
     (let now = io_now (cx_io cx) (sy_io s) in
      case register_step cx now s of
        Inl e \<Rightarrow> Some (Inl e)
      | Inr s1 \<Rightarrow>
          map_option (\<lambda>r. and_then r (\<lambda>s2. and_then (drive_pods cx sched now s2) (heartbeat_step cx now)))
            (recv_loop cx now s1))"

end
