(* ===== verification/Worker_Shutdown.thy ===== *)
theory Worker_Shutdown
  imports Worker_Steps
begin

text \<open>
  \<open>Worker::shutdown\<close> of \<^verbatim>\<open>worker/src/worker.rs\<close>: every tracked pod is stopped, removed and
  unmounted under one absolute deadline; what cannot be verified stays tracked.
\<close>

definition DEFAULT_SHUTDOWN_GRACE_MS :: u64 where "DEFAULT_SHUTDOWN_GRACE_MS = 15000"

definition remaining_ms :: "instant \<Rightarrow> instant \<Rightarrow> nat" where
  "remaining_ms deadline t = min ((deadline - t) div 10 ^ 6) (2 ^ 64 - 1)"

text \<open>At most \<open>n\<close> attempts to stop, each followed by a status check.\<close>

fun stop_attempts_loop ::
    "('e, 'i) ctx \<Rightarrow> pod_handle \<Rightarrow> u64 \<Rightarrow> instant \<Rightarrow> nat \<Rightarrow> (i32 option, 'e) call" where
  "stop_attempts_loop cx handle requested_grace deadline 0 = ret None"
| "stop_attempts_loop cx handle requested_grace deadline (Suc n) =
     bind_call (os_instant_now (cx_os cx)) (\<lambda>t.
       let left = remaining_ms deadline t in
       if left = 0 then ret None
       else
         bind_call (rt_stop_pod_until (cx_rt cx) handle (min requested_grace (word_of_nat left)) deadline)
           (\<lambda>_. bind_call (rt_pod_status_until (cx_rt cx) handle deadline) (\<lambda>status.
             case status of
               Inr (StatusStopped exit_code) \<Rightarrow> ret (Some exit_code)
             | _ \<Rightarrow> stop_attempts_loop cx handle requested_grace deadline n)))"

definition status_exit_code :: "('e, 'i) ctx \<Rightarrow> pod_handle \<Rightarrow> instant \<Rightarrow> (i32 option, 'e) call" where
  "status_exit_code cx handle deadline =
     bind_call (rt_pod_status_until (cx_rt cx) handle deadline) (\<lambda>status.
       ret (case status of Inr (StatusStopped exit_code) \<Rightarrow> Some exit_code | _ \<Rightarrow> None))"

definition verify_exit_code :: "('e, 'i) ctx \<Rightarrow> instant \<Rightarrow> tracked_pod \<Rightarrow> (i32 option, 'e) call" where
  "verify_exit_code cx deadline pod =
     (case tp_state pod of
        Stopped exit_code \<Rightarrow> ret (Some exit_code)
      | _ \<Rightarrow>
          (case tp_handle pod of
             None \<Rightarrow> ret (Some 0)
           | Some handle \<Rightarrow>
               let requested_grace = (if tp_grace_period_ms pod > 0 then tp_grace_period_ms pod
                                      else DEFAULT_SHUTDOWN_GRACE_MS);
                   stop_attempts = saturating_sub STOP_ATTEMPT_MAX (tp_lifecycle_failures pod)
               in bind_call (stop_attempts_loop cx handle requested_grace deadline (unat stop_attempts))
                    (\<lambda>verified. if stop_attempts = 0 then status_exit_code cx handle deadline
                                else ret verified)))"

definition retain_pod :: "u64 \<Rightarrow> worker \<Rightarrow> worker res" where
  "retain_pod pod_id w =
     and_then (expect (hm_get (wk_pods w) pod_id) ''shutdown pod must remain tracked'') (\<lambda>_.
       Inr (update_pod pod_id
              (\<lambda>pod. pod\<lparr>tp_state := Stopping, tp_lifecycle_failures := STOP_ATTEMPT_MAX,
                         tp_lifecycle_retry_after_tick := - 1\<rparr>) w))"

text \<open>The last part of an iteration: report and forget the pod, once nothing of it is left.\<close>

definition forget_pod :: "('e, 'i) ctx \<Rightarrow> u64 \<Rightarrow> bool \<Rightarrow> i32 \<Rightarrow> ('e, 'i) action" where
  "forget_pod cx pod_id was_terminal exit_code s =
     (let w = sy_worker s;
          failure_reason = hm_get (wk_pending_failure_reasons w) pod_id;
          w1 = w\<lparr>wk_pending_failure_reasons := hm_remove pod_id (wk_pending_failure_reasons w)\<rparr>;
          s1 = s\<lparr>sy_worker := w1\<rparr>
      in and_then
           (if \<not> was_terminal then
              send cx (status_event pod_id (case failure_reason of Some reason \<Rightarrow> ReportFailed reason
                                            | None \<Rightarrow> ReportStopped exit_code))
                (s1\<lparr>sy_worker := release_pod_resources pod_id w1\<rparr>)
            else and_then (ensure (failure_reason = None) ''assertion failed: failure_reason.is_none()'')
                   (\<lambda>_. Inr s1))
           (modify_worker (\<lambda>w. w\<lparr>wk_pods := hm_remove pod_id (wk_pods w)\<rparr>)))"

definition release_shutdown_pod ::
    "('e, 'i) ctx \<Rightarrow> instant \<Rightarrow> u64 \<Rightarrow> bool \<Rightarrow> i32 \<Rightarrow> ('e, 'i) action" where
  "release_shutdown_pod cx deadline pod_id was_terminal exit_code =
     call (unmount_juicefs_until (cx_os cx) pod_id deadline) (\<lambda>r. case r of
       Inl _ \<Rightarrow> on_worker (retain_pod pod_id)
     | Inr _ \<Rightarrow> forget_pod cx pod_id was_terminal exit_code)"

definition shutdown_pod :: "('e, 'i) ctx \<Rightarrow> instant \<Rightarrow> u64 \<Rightarrow> ('e, 'i) action" where
  "shutdown_pod cx deadline pod_id s =
     (case hm_get (wk_pods (sy_worker s)) pod_id of
        None \<Rightarrow> Inr s
      | Some pod \<Rightarrow>
          let was_terminal = is_terminal (tp_state pod) in
          call (verify_exit_code cx deadline pod) (\<lambda>verified. case verified of
            None \<Rightarrow> if \<not> was_terminal then on_worker (retain_pod pod_id) else Inr
          | Some exit_code \<Rightarrow>
              (case tp_handle pod of
                 None \<Rightarrow> release_shutdown_pod cx deadline pod_id was_terminal exit_code
               | Some handle \<Rightarrow>
                   call (rt_remove_pod_until (cx_rt cx) handle deadline) (\<lambda>r. case r of
                     Inl _ \<Rightarrow> on_worker (retain_pod pod_id)
                   | Inr _ \<Rightarrow> (\<lambda>s1.
                       and_then (expect (hm_get (wk_pods (sy_worker s1)) pod_id)
                                  ''shutdown pod must remain tracked'') (\<lambda>_.
                         release_shutdown_pod cx deadline pod_id was_terminal exit_code
                           (s1\<lparr>sy_worker := update_pod pod_id (\<lambda>pod. pod\<lparr>tp_handle := None\<rparr>)
                                 (sy_worker s1)\<rparr>)))))) s)"

fun shutdown_loop :: "('e, 'i) ctx \<Rightarrow> instant \<Rightarrow> u64 list \<Rightarrow> ('e, 'i) action" where
  "shutdown_loop cx deadline [] s = Inr s"
| "shutdown_loop cx deadline (pod_id # pod_ids) s =
     call (os_instant_now (cx_os cx)) (\<lambda>t s1.
       if t \<ge> deadline then Inr s1
       else and_then (shutdown_pod cx deadline pod_id s1) (shutdown_loop cx deadline pod_ids)) s"

definition shutdown_with_deadline ::
    "('e, 'i) ctx \<Rightarrow> nat \<Rightarrow> ('e, 'i) sys \<Rightarrow> (bool \<times> ('e, 'i) sys) res" where
  "shutdown_with_deadline cx shutdown_budget s =
     and_then (ensure (shutdown_budget \<noteq> 0) ''shutdown budget must be positive'') (\<lambda>_.
     and_then (os_instant_now (cx_os cx) (sy_env s)) (\<lambda>(t, e).
     and_then (shutdown_loop cx (t + shutdown_budget) (sort (hm_keys (wk_pods (sy_worker s))))
                 (s\<lparr>sy_env := e\<rparr>)) (\<lambda>s1.
       if wk_pods (sy_worker s1) = [] then
         and_then (ensure (wk_pending_failure_reasons (sy_worker s1) = [])
                    ''assertion failed: self.pending_failure_reasons.is_empty()'')
           (\<lambda>_. Inr (True, s1))
       else Inr (False, s1))))"

definition shutdown :: "('e, 'i) ctx \<Rightarrow> ('e, 'i) sys \<Rightarrow> (bool \<times> ('e, 'i) sys) res" where
  "shutdown cx = shutdown_with_deadline cx (20 * 10 ^ 9)"

end
