(* ===== verification/Worker_Invariant.thy ===== *)
theory Worker_Invariant
  imports Worker_Shutdown
begin

text \<open>
  The worker's invariant and the operations on the worker alone. The resources of the pods that
  are not terminal add up to what is accounted as allocated and never exceed the node; a terminal
  pod owns no runtime and keeps no secrets; a recorded failure reason belongs to a pod being
  stopped; the tombstones and the tracked pods are bounded.
\<close>

section \<open>Outcomes\<close>

text \<open>
  \<open>outcome X Q r\<close>: the result \<open>r\<close> is a state that satisfies \<open>Q\<close>, or a panic whose message is
  in \<open>X\<close>. With \<open>X\<close> empty this is freedom from panics, with \<open>X\<close> everything it is partial
  correctness.
\<close>

definition outcome :: "string set \<Rightarrow> ('a \<Rightarrow> bool) \<Rightarrow> 'a res \<Rightarrow> bool" where
  "outcome X Q r = (case r of Inl m \<Rightarrow> m \<in> X | Inr s \<Rightarrow> Q s)"

named_theorems outcome_intros

lemma outcome_Inr [outcome_intros]: "Q s \<Longrightarrow> outcome X Q (Inr s)"
  by (simp add: outcome_def)

lemma outcome_simps [simp]: "outcome X Q (Inr s) = Q s" "outcome X Q (Inl m) \<longleftrightarrow> m \<in> X"
  by (simp_all add: outcome_def)

lemma outcome_and_then:
  "outcome X P r \<Longrightarrow> (\<And>s. P s \<Longrightarrow> outcome X Q (f s)) \<Longrightarrow> outcome X Q (and_then r f)"
  by (cases r) (simp_all add: outcome_def)

lemma outcome_mono: "outcome X P r \<Longrightarrow> (\<And>s. P s \<Longrightarrow> Q s) \<Longrightarrow> outcome X Q r"
  by (cases r) (simp_all add: outcome_def)

lemma outcome_UNIV: "(\<And>s. r = Inr s \<Longrightarrow> Q s) \<Longrightarrow> outcome UNIV Q r"
  by (cases r) (simp_all add: outcome_def)

lemma outcome_InrD: "outcome X Q r \<Longrightarrow> r = Inr s \<Longrightarrow> Q s"
  by (simp add: outcome_def)

lemma outcome_emptyD: "outcome {} Q r \<Longrightarrow> \<exists>s. r = Inr s \<and> Q s"
  by (cases r) (simp_all add: outcome_def)

lemma outcome_fold_res:
  assumes "I s" "\<And>x s. x \<in> set xs \<Longrightarrow> I s \<Longrightarrow> outcome X I (f x s)"
  shows "outcome X I (fold_res f xs s)"
  using assms
proof (induction xs arbitrary: s)
  case (Cons x xs)
  then show ?case by (auto intro!: outcome_and_then)
qed simp

lemma outcome_conj: "outcome X P r \<Longrightarrow> outcome X Q r \<Longrightarrow> outcome X (\<lambda>s. P s \<and> Q s) r"
  by (cases r) (simp_all add: outcome_def)

section \<open>The invariant\<close>

definition used :: "(tracked_pod \<Rightarrow> nat) \<Rightarrow> (u64, tracked_pod) hashmap \<Rightarrow> nat" where
  "used f pods = hm.total (\<lambda>p. if is_terminal (tp_state p) then 0 else f p) pods"

definition pod_ok :: "tracked_pod \<Rightarrow> bool" where
  "pod_ok p =
     (case tp_state p of
        ImagePulling \<Rightarrow> tp_handle p = None
      | Creating \<Rightarrow> tp_handle p = None
      | Starting \<Rightarrow> tp_handle p \<noteq> None
      | Running \<Rightarrow> tp_handle p \<noteq> None
      | Stopping \<Rightarrow> True
      | _ \<Rightarrow> tp_handle p = None \<and> tp_entrypoint p = [] \<and> tp_env_vars p = []
             \<and> tp_juicefs_path p = [] \<and> tp_image_pull_auth p = None)"

definition accounted :: "worker \<Rightarrow> bool" where
  "accounted w =
     (used (\<lambda>p. unat (tp_gpu_count p)) (wk_pods w) = unat (wk_gpu_allocated w)
      \<and> used (\<lambda>p. unat (tp_cpu_millicores p)) (wk_pods w) = unat (wk_cpu_allocated_millicores w)
      \<and> used (\<lambda>p. unat (tp_memory_megabytes p)) (wk_pods w) = unat (wk_memory_allocated_megabytes w)
      \<and> wk_gpu_allocated w \<le> wk_gpu_total w
      \<and> wk_cpu_allocated_millicores w \<le> wk_cpu_millicores w
      \<and> wk_memory_allocated_megabytes w \<le> wk_memory_megabytes w)"

text \<open>
  The admission guards saturate, so a node whose size is the largest value of its type is not
  protected by them.
\<close>

definition node_size_ok :: "worker \<Rightarrow> bool" where
  "node_size_ok w = (wk_gpu_total w < - 1 \<and> wk_cpu_millicores w < - 1 \<and> wk_memory_megabytes w < - 1)"

definition pods_ok :: "worker \<Rightarrow> bool" where
  "pods_ok w = (\<forall>k p. hm_get (wk_pods w) k = Some p \<longrightarrow> tp_pod_id p = k \<and> pod_ok p)"

definition pending_ok :: "worker \<Rightarrow> bool" where
  "pending_ok w =
     (\<forall>k. hm_get (wk_pending_failure_reasons w) k \<noteq> None
        \<longrightarrow> map_option tp_state (hm_get (wk_pods w) k) = Some Stopping)"

definition core_inv :: "worker \<Rightarrow> bool" where
  "core_inv w = (hm_wf (wk_pods w) \<and> hm_wf (wk_pending_failure_reasons w) \<and> pods_ok w \<and> pending_ok w
                 \<and> accounted w \<and> node_size_ok w)"

definition terminal_count :: "worker \<Rightarrow> nat" where
  "terminal_count w = length (terminal_entries w)"

definition worker_inv :: "worker \<Rightarrow> bool" where
  "worker_inv w = (core_inv w \<and> terminal_count w \<le> MAX_TERMINAL_TOMBSTONES
                   \<and> hm_len (wk_pods w) \<le> MAX_TRACKED_PODS)"

lemmas inv_defs = core_inv_def pods_ok_def pending_ok_def accounted_def node_size_ok_def

lemma is_terminal_simps [simp]:
  "\<not> is_terminal ImagePulling" "\<not> is_terminal Creating" "\<not> is_terminal Starting"
  "\<not> is_terminal Running" "\<not> is_terminal Stopping" "is_terminal (Stopped c)" "is_terminal (Failed r)"
  by (simp_all add: is_terminal_def)

lemma terminal_count_total:
  "terminal_count w = hm.total (\<lambda>p. if is_terminal (tp_state p) then 1 else 0) (wk_pods w)"
  by (simp add: terminal_count_def terminal_entries_def filter_values_total)

section \<open>Updating one pod\<close>

lemma hm_modify_Some: "hm_get m k = Some v \<Longrightarrow> hm_modify k f m = hm_insert k (f v) m"
  by (simp add: hm_modify_def)

lemma used_insert:
  assumes "hm_wf m" "hm_get m k = Some p" "is_terminal (tp_state q) = is_terminal (tp_state p)" "g q = g p"
  shows "used g (hm_insert k q m) = used g m"
  using hm.total_ins_upd [OF assms(1,2), of "\<lambda>p. if is_terminal (tp_state p) then 0 else g p" q] assms(3,4)
  by (simp add: used_def split: if_splits)

lemma terminal_total_insert:
  assumes "hm_wf m" "hm_get m k = Some p" "is_terminal (tp_state q) = is_terminal (tp_state p)"
  shows "hm.total (\<lambda>p. if is_terminal (tp_state p) then 1 else 0) (hm_insert k q m)
       = hm.total (\<lambda>p. if is_terminal (tp_state p) then 1 else 0) m"
  using hm.total_ins_upd [OF assms(1,2), of "\<lambda>p. if is_terminal (tp_state p) then 1 else 0" q] assms(3)
  by (simp split: if_splits)

text \<open>An update that keeps the pod's identity, resources and liveness.\<close>

definition same_claim :: "tracked_pod \<Rightarrow> tracked_pod \<Rightarrow> bool" where
  "same_claim p q =
     (tp_pod_id q = tp_pod_id p \<and> tp_gpu_count q = tp_gpu_count p
      \<and> tp_cpu_millicores q = tp_cpu_millicores p \<and> tp_memory_megabytes q = tp_memory_megabytes p
      \<and> is_terminal (tp_state q) = is_terminal (tp_state p))"

lemma core_inv_update:
  assumes inv: "core_inv w" and p: "hm_get (wk_pods w) k = Some p"
    and same: "same_claim p (f p)" and ok: "pod_ok (f p)"
    and pend: "tp_state p = Stopping \<Longrightarrow> hm_get (wk_pending_failure_reasons w) k \<noteq> None
       \<Longrightarrow> tp_state (f p) = Stopping"
  shows "core_inv (update_pod k f w)"
proof -
  have wf: "hm_wf (wk_pods w)" and key: "tp_pod_id p = k" using inv p by (auto simp: inv_defs)
  show ?thesis
    using inv p ok same pend key
    by (auto simp: inv_defs update_pod_def hm_modify_Some same_claim_def used_insert [OF wf p])
qed

lemma worker_inv_update:
  assumes inv: "worker_inv w" and p: "hm_get (wk_pods w) k = Some p"
    and same: "same_claim p (f p)" and ok: "pod_ok (f p)"
    and pend: "tp_state p = Stopping \<Longrightarrow> hm_get (wk_pending_failure_reasons w) k \<noteq> None
       \<Longrightarrow> tp_state (f p) = Stopping"
  shows "worker_inv (update_pod k f w)"
proof -
  have core: "core_inv w" and wf: "hm_wf (wk_pods w)" using inv by (simp_all add: worker_inv_def core_inv_def)
  have "core_inv (update_pod k f w)" by (rule core_inv_update) (use assms core in auto)
  then show ?thesis
    using inv p same
    by (simp add: worker_inv_def terminal_count_total update_pod_def hm_modify_Some same_claim_def
          terminal_total_insert [OF wf p] hm_len_insert [OF wf])
qed

section \<open>Pruning\<close>

lemma get_fold_remove: "hm_get (fold hm_remove ks m) k = (if k \<in> set ks then None else hm_get m k)"
  by (induction ks arbitrary: m) auto

lemma fold_remove_tombstones:
  assumes "distinct (map snd es)"
    and "\<And>e. e \<in> set es \<Longrightarrow> \<exists>p. hm_get (wk_pods w) (snd e) = Some p \<and> tp_handle p = None
           \<and> hm_get (wk_pending_failure_reasons w) (snd e) = None"
  shows "fold_res remove_tombstone es w = Inr (w\<lparr>wk_pods := fold hm_remove (map snd es) (wk_pods w)\<rparr>)"
  using assms
proof (induction es arbitrary: w)
  case (Cons e es)
  obtain p where p: "hm_get (wk_pods w) (snd e) = Some p" "tp_handle p = None"
      "hm_get (wk_pending_failure_reasons w) (snd e) = None"
    using Cons.prems(2) [of e] by auto
  let ?w = "w\<lparr>wk_pods := hm_remove (snd e) (wk_pods w)\<rparr>"
  have "fold_res remove_tombstone es ?w = Inr (?w\<lparr>wk_pods := fold hm_remove (map snd es) (wk_pods ?w)\<rparr>)"
  proof (rule Cons.IH)
    show "distinct (map snd es)" using Cons.prems(1) by simp
    fix x assume x: "x \<in> set es"
    then have "snd x \<noteq> snd e" using Cons.prems(1) by (auto simp: image_iff)
    then show "\<exists>p. hm_get (wk_pods ?w) (snd x) = Some p \<and> tp_handle p = None
           \<and> hm_get (wk_pending_failure_reasons ?w) (snd x) = None"
      using Cons.prems(2) [of x] x by simp
  qed
  moreover have "remove_tombstone e w = Inr ?w" using p by (simp add: remove_tombstone_def)
  ultimately show ?case by simp
qed simp

lemma core_inv_remove_terminal:
  assumes inv: "core_inv w" and p: "hm_get (wk_pods w) k = Some p" "is_terminal (tp_state p)"
  shows "core_inv (w\<lparr>wk_pods := hm_remove k (wk_pods w)\<rparr>)"
    and "Suc (terminal_count (w\<lparr>wk_pods := hm_remove k (wk_pods w)\<rparr>)) = terminal_count w"
proof -
  have wf: "hm_wf (wk_pods w)" using inv by (simp add: core_inv_def)
  have u: "used f (hm_remove k (wk_pods w)) = used f (wk_pods w)" for f
    using hm.total_rem [OF wf p(1), of "\<lambda>p. if is_terminal (tp_state p) then 0 else f p"] p(2)
    by (simp add: used_def)
  show "Suc (terminal_count (w\<lparr>wk_pods := hm_remove k (wk_pods w)\<rparr>)) = terminal_count w"
    using hm.total_rem [OF wf p(1), of "\<lambda>p. if is_terminal (tp_state p) then 1 else 0"] p(2)
    by (simp add: terminal_count_total)
  show "core_inv (w\<lparr>wk_pods := hm_remove k (wk_pods w)\<rparr>)"
    using inv p by (auto simp: inv_defs u)
qed

lemma core_inv_remove_terminals:
  assumes "core_inv w" "distinct ks"
    and "\<And>k. k \<in> set ks \<Longrightarrow> \<exists>p. hm_get (wk_pods w) k = Some p \<and> is_terminal (tp_state p)"
  shows "core_inv (w\<lparr>wk_pods := fold hm_remove ks (wk_pods w)\<rparr>)
    \<and> terminal_count (w\<lparr>wk_pods := fold hm_remove ks (wk_pods w)\<rparr>) + length ks = terminal_count w
    \<and> hm_len (fold hm_remove ks (wk_pods w)) + length ks = hm_len (wk_pods w)"
  using assms
proof (induction ks arbitrary: w)
  case (Cons k ks)
  obtain p where p: "hm_get (wk_pods w) k = Some p" "is_terminal (tp_state p)" using Cons.prems(3) by auto
  let ?w = "w\<lparr>wk_pods := hm_remove k (wk_pods w)\<rparr>"
  note rem = core_inv_remove_terminal [OF Cons.prems(1) p]
  have "core_inv (?w\<lparr>wk_pods := fold hm_remove ks (wk_pods ?w)\<rparr>)
    \<and> terminal_count (?w\<lparr>wk_pods := fold hm_remove ks (wk_pods ?w)\<rparr>) + length ks = terminal_count ?w
    \<and> hm_len (fold hm_remove ks (wk_pods ?w)) + length ks = hm_len (wk_pods ?w)"
    by (rule Cons.IH) (use Cons.prems rem(1) in auto)
  moreover have "Suc (hm_len (hm_remove k (wk_pods w))) = hm_len (wk_pods w)"
    by (rule hm_len_remove [OF _ p(1)]) (use Cons.prems(1) in \<open>simp add: core_inv_def\<close>)
  ultimately show ?case using rem(2) by simp
qed simp

lemma core_inv_pod: "core_inv w \<Longrightarrow> hm_get (wk_pods w) k = Some p \<Longrightarrow> tp_pod_id p = k \<and> pod_ok p"
  by (simp add: core_inv_def pods_ok_def)

lemma core_inv_pending:
  "core_inv w \<Longrightarrow> hm_get (wk_pending_failure_reasons w) k \<noteq> None
     \<Longrightarrow> map_option tp_state (hm_get (wk_pods w) k) = Some Stopping"
  unfolding core_inv_def pending_ok_def by blast

lemma core_inv_no_pending:
  "core_inv w \<Longrightarrow> map_option tp_state (hm_get (wk_pods w) k) \<noteq> Some Stopping
     \<Longrightarrow> hm_get (wk_pending_failure_reasons w) k = None"
  using core_inv_pending by blast

lemma core_inv_wf: "core_inv w \<Longrightarrow> hm_wf (wk_pods w)" "core_inv w \<Longrightarrow> hm_wf (wk_pending_failure_reasons w)"
  by (simp_all add: core_inv_def)

lemma pods_ok_ids: "hm_wf (wk_pods w) \<Longrightarrow> pods_ok w \<Longrightarrow> map tp_pod_id (hm_values (wk_pods w)) = hm_keys (wk_pods w)"
  unfolding hm_values_def hm_keys_def pods_ok_def hm_get_def hm_wf_def by (auto intro!: map_cong)

lemma distinct_terminal_entries:
  "core_inv w \<Longrightarrow> distinct (map snd (terminal_entries w))"
proof -
  assume inv: "core_inv w"
  then have "distinct (map tp_pod_id (hm_values (wk_pods w)))"
    using pods_ok_ids [of w] distinct_hm_keys [of "wk_pods w"] by (simp add: core_inv_def)
  then show ?thesis unfolding terminal_entries_def map_map comp_def snd_conv by (rule distinct_map_filter)
qed

lemma in_terminal_entries:
  assumes "core_inv w"
  shows "(t, k) \<in> set (terminal_entries w) \<longleftrightarrow>
     (\<exists>p. hm_get (wk_pods w) k = Some p \<and> is_terminal (tp_state p) \<and> t = tp_state_changed_at p)"
  using assms set_hm_values [of "wk_pods w"]
  by (auto simp: terminal_entries_def core_inv_def pods_ok_def image_iff)

definition pruned :: "nat \<Rightarrow> worker \<Rightarrow> u64 list" where
  "pruned limit w = map snd (take (terminal_count w - limit) (sort (terminal_entries w)))"

lemma pruned_terminal:
  assumes "core_inv w" "k \<in> set (pruned limit w)"
  shows "\<exists>p. hm_get (wk_pods w) k = Some p \<and> is_terminal (tp_state p)"
  using assms in_terminal_entries [OF assms(1)] by (fastforce simp: pruned_def dest: in_set_takeD)

lemma distinct_pruned: "core_inv w \<Longrightarrow> distinct (pruned limit w)"
proof -
  assume "core_inv w"
  then have "distinct (map snd (sort (terminal_entries w)))"
    using distinct_terminal_entries by (simp add: distinct_map)
  then show ?thesis unfolding pruned_def take_map [symmetric] by (rule distinct_take)
qed

lemma length_pruned [simp]: "length (pruned limit w) = terminal_count w - limit"
  by (simp add: pruned_def terminal_count_def)

lemma terminal_no_pending:
  "core_inv w \<Longrightarrow> hm_get (wk_pods w) k = Some p \<Longrightarrow> is_terminal (tp_state p) \<Longrightarrow>
     tp_handle p = None \<and> hm_get (wk_pending_failure_reasons w) k = None"
  using core_inv_pod [of w k p] core_inv_no_pending [of w k] by (cases "tp_state p") (auto simp: pod_ok_def)

lemma prune_eq:
  assumes inv: "core_inv w" and limit: "limit \<le> MAX_TERMINAL_TOMBSTONES"
  shows "prune_terminal_pods_to limit w
    = Inr (w\<lparr>wk_pods := fold hm_remove (pruned limit w) (wk_pods w)\<rparr>)"
proof -
  let ?es = "take (terminal_count w - limit) (sort (terminal_entries w))"
  have "fold_res remove_tombstone ?es w = Inr (w\<lparr>wk_pods := fold hm_remove (map snd ?es) (wk_pods w)\<rparr>)"
  proof (rule fold_remove_tombstones)
    show "distinct (map snd ?es)" using distinct_pruned [OF inv] by (simp add: pruned_def)
    fix e assume "e \<in> set ?es"
    then have "e \<in> set (terminal_entries w)" by (auto dest: in_set_takeD)
    then show "\<exists>p. hm_get (wk_pods w) (snd e) = Some p \<and> tp_handle p = None
           \<and> hm_get (wk_pending_failure_reasons w) (snd e) = None"
      using in_terminal_entries [OF inv, of "fst e" "snd e"] terminal_no_pending [OF inv] by fastforce
  qed
  then show ?thesis
    using limit by (simp add: prune_terminal_pods_to_def pruned_def terminal_count_def)
qed

lemma prune_inv:
  assumes inv: "core_inv w" and limit: "limit \<le> MAX_TERMINAL_TOMBSTONES"
  obtains w' where "prune_terminal_pods_to limit w = Inr w'" "core_inv w'"
    "terminal_count w' = min (terminal_count w) limit" "hm_len (wk_pods w') \<le> hm_len (wk_pods w)"
    "w' = w\<lparr>wk_pods := fold hm_remove (pruned limit w) (wk_pods w)\<rparr>"
proof (rule that)
  let ?w = "w\<lparr>wk_pods := fold hm_remove (pruned limit w) (wk_pods w)\<rparr>"
  note rem = core_inv_remove_terminals [OF inv distinct_pruned [OF inv] pruned_terminal [OF inv, of _ limit], of limit]
  show "prune_terminal_pods_to limit w = Inr ?w" by (rule prune_eq [OF inv limit])
  show "core_inv ?w" using rem by blast
  show "terminal_count ?w = min (terminal_count w) limit" using rem by auto
  show "hm_len (wk_pods ?w) \<le> hm_len (wk_pods w)" using rem by auto
qed simp

section \<open>Retiring a pod\<close>

lemma used_insert_terminal:
  assumes "hm_wf m" "hm_get m k = Some p" "\<not> is_terminal (tp_state p)" "is_terminal (tp_state q)"
  shows "used g (hm_insert k q m) + g p = used g m"
  using hm.total_ins_upd [OF assms(1,2), of "\<lambda>p. if is_terminal (tp_state p) then 0 else g p" q] assms(3,4)
  by (simp add: used_def)

lemma used_le: "hm_wf m \<Longrightarrow> hm_get m k = Some p \<Longrightarrow> \<not> is_terminal (tp_state p) \<Longrightarrow> g p \<le> used g m"
  using hm.total_entry_le [of m k p "\<lambda>p. if is_terminal (tp_state p) then 0 else g p"]
  by (simp add: used_def)

text \<open>The worker after a pod became the terminal pod \<open>q\<close> and gave its resources back.\<close>

definition retired :: "u64 \<Rightarrow> tracked_pod \<Rightarrow> worker \<Rightarrow> worker" where
  "retired k q w =
     w\<lparr>wk_gpu_allocated := saturating_sub (wk_gpu_allocated w) (tp_gpu_count q),
       wk_cpu_allocated_millicores := saturating_sub (wk_cpu_allocated_millicores w) (tp_cpu_millicores q),
       wk_memory_allocated_megabytes :=
         saturating_sub (wk_memory_allocated_megabytes w) (tp_memory_megabytes q),
       wk_pods := hm_insert k (scrub_pod q) (wk_pods w)\<rparr>"

lemma hm_insert_insert [simp]: "hm_insert k v (hm_insert k u m) = hm_insert k v m"
  by (induction m) (auto simp: hm_insert_def)

lemma saturating_sub_le: "saturating_sub a b \<le> a"
  by (simp add: word_le_nat_alt unat_saturating_sub)

lemma retire_pod_eq:
  assumes "hm_get (wk_pods w) k = Some p" "is_terminal (tp_state (f p))" "tp_handle (f p) = None"
  shows "retire_pod k (update_pod k f w)
       = prune_terminal_pods_to MAX_TERMINAL_TOMBSTONES (retired k (f p) w)"
  using assms
  by (simp add: retire_pod_def scrub_terminal_pod_data_def release_pod_resources_def update_pod_def
        hm_modify_Some retired_def)

lemma retired_core_inv:
  assumes inv: "core_inv w" and p: "hm_get (wk_pods w) k = Some p" "\<not> is_terminal (tp_state p)"
    and pend: "hm_get (wk_pending_failure_reasons w) k = None"
    and q: "is_terminal (tp_state q)" "tp_handle q = None" "tp_pod_id q = tp_pod_id p"
      "tp_gpu_count q = tp_gpu_count p" "tp_cpu_millicores q = tp_cpu_millicores p"
      "tp_memory_megabytes q = tp_memory_megabytes p"
  shows "core_inv (retired k q w)" "terminal_count (retired k q w) = Suc (terminal_count w)"
    "hm_len (wk_pods (retired k q w)) = hm_len (wk_pods w)"
proof -
  have wf: "hm_wf (wk_pods w)" and key: "tp_pod_id p = k" using inv p by (auto simp: inv_defs)
  have sq: "is_terminal (tp_state (scrub_pod q))" "pod_ok (scrub_pod q)" "tp_pod_id (scrub_pod q) = k"
    using q key by (auto simp: scrub_pod_def pod_ok_def is_terminal_def split: tracked_pod_state.splits)
  note u = used_insert_terminal [OF wf p sq(1)] used_le [OF wf p]
  have acc: "accounted (retired k q w)"
    using inv u [of "\<lambda>p. unat (tp_gpu_count p)"] u [of "\<lambda>p. unat (tp_cpu_millicores p)"]
      u [of "\<lambda>p. unat (tp_memory_megabytes p)"] q
    by (auto simp: core_inv_def accounted_def retired_def unat_saturating_sub
          intro: order_trans [OF saturating_sub_le])
  then show "core_inv (retired k q w)"
    using inv p pend sq by (auto simp: inv_defs retired_def)
  show "terminal_count (retired k q w) = Suc (terminal_count w)"
    using hm.total_ins_upd [OF wf p(1), of "\<lambda>p. if is_terminal (tp_state p) then 1 else 0" "scrub_pod q"] p(2) sq(1)
    by (simp add: terminal_count_total retired_def)
  show "hm_len (wk_pods (retired k q w)) = hm_len (wk_pods w)"
    by (simp add: retired_def hm_len_insert [OF wf] p)
qed

text \<open>
  The tracked pods stay the same, unless there are more of them than tombstones are kept.
\<close>

definition same_pods :: "worker \<Rightarrow> worker \<Rightarrow> bool" where
  "same_pods w w' = (hm_len (wk_pods w) \<le> MAX_TERMINAL_TOMBSTONES
                      \<longrightarrow> dom (hm_get (wk_pods w')) = dom (hm_get (wk_pods w)))"

lemma hm_len_card: "hm_wf m \<Longrightarrow> hm_len m = card (dom (hm_get m))"
proof -
  assume "hm_wf m"
  then have "card (dom (hm_get m)) = length (hm_keys m)"
    using distinct_card [of "hm_keys m"] by simp
  then show ?thesis by (simp add: hm_len_def hm_keys_def)
qed

lemma terminal_count_le: "terminal_count w \<le> hm_len (wk_pods w)"
  unfolding terminal_count_total hm_len_total by (rule hm.total_mono) simp

lemma retire_pod_inv:
  assumes inv: "worker_inv w" and p: "hm_get (wk_pods w) k = Some p" "\<not> is_terminal (tp_state p)"
    and pend: "hm_get (wk_pending_failure_reasons w) k = None"
    and q: "is_terminal (tp_state (f p))" "tp_handle (f p) = None" "tp_pod_id (f p) = tp_pod_id p"
      "tp_gpu_count (f p) = tp_gpu_count p" "tp_cpu_millicores (f p) = tp_cpu_millicores p"
      "tp_memory_megabytes (f p) = tp_memory_megabytes p"
  shows "outcome X (\<lambda>w'. worker_inv w' \<and> same_pods w w') (retire_pod k (update_pod k f w))"
proof -
  have core: "core_inv w" using inv by (simp add: worker_inv_def)
  note ret = retired_core_inv [of w k p "f p", OF core p pend q]
  obtain w' where w': "prune_terminal_pods_to MAX_TERMINAL_TOMBSTONES (retired k (f p) w) = Inr w'" "core_inv w'"
      "terminal_count w' = min (terminal_count (retired k (f p) w)) MAX_TERMINAL_TOMBSTONES"
      "hm_len (wk_pods w') \<le> hm_len (wk_pods (retired k (f p) w))"
      "w' = (retired k (f p) w)\<lparr>wk_pods := fold hm_remove (pruned MAX_TERMINAL_TOMBSTONES (retired k (f p) w))
               (wk_pods (retired k (f p) w))\<rparr>"
    by (rule prune_inv [OF ret(1) order_refl])
  have "worker_inv w'" using inv w'(2-4) ret(3) by (simp add: worker_inv_def)
  moreover have "same_pods w w'"
  proof (unfold same_pods_def, intro impI)
    assume "hm_len (wk_pods w) \<le> MAX_TERMINAL_TOMBSTONES"
    then have "terminal_count (retired k (f p) w) \<le> MAX_TERMINAL_TOMBSTONES"
      using terminal_count_le [of "retired k (f p) w"] ret(3) by simp
    then have "pruned MAX_TERMINAL_TOMBSTONES (retired k (f p) w) = []"
      using length_pruned [of MAX_TERMINAL_TOMBSTONES "retired k (f p) w"]
      by (metis diff_is_0_eq length_0_conv)
    then show "dom (hm_get (wk_pods w')) = dom (hm_get (wk_pods w))"
      using p(1) unfolding w'(5) by (auto simp: retired_def)
  qed
  ultimately show ?thesis
    using retire_pod_eq [of w k p f, OF p(1) q(1,2)] w'(1) by simp
qed

end
