(* ===== verification/Worker_Safety.thy ===== *)
theory Worker_Safety
  imports Worker_Invariant
begin

text \<open>
  Every handler and every part of a tick keeps the worker's invariant, whatever the runtime, the
  host and the link answer, and panics only when one of them does. The one exception is the scan,
  which indexes the pods by the keys it took at its start: it needs that no tombstone is pruned
  meanwhile.
\<close>

section \<open>Environments\<close>

definition yields :: "string set \<Rightarrow> ('a \<Rightarrow> bool) \<Rightarrow> ('a, 'e) call \<Rightarrow> bool" where
  "yields X P c = (\<forall>e. outcome X (\<lambda>(r, e'). P r) (c e))"

abbreviation calls_ok :: "string set \<Rightarrow> ('a, 'e) call \<Rightarrow> bool" where
  "calls_ok X c \<equiv> yields X (\<lambda>_. True) c"

text \<open>The panics of an environment are among \<open>X\<close>.\<close>

definition rt_ok :: "string set \<Rightarrow> 'e runtime \<Rightarrow> bool" where
  "rt_ok X rt =
     ((\<forall>i a. calls_ok X (rt_pull_image rt i a)) \<and> (\<forall>sp. calls_ok X (rt_create_pod rt sp))
      \<and> (\<forall>h. calls_ok X (rt_start_pod rt h)) \<and> (\<forall>h p b. calls_ok X (rt_forward_run rt h p b))
      \<and> (\<forall>h p b. calls_ok X (rt_probe_pod rt h p b)) \<and> (\<forall>h g. calls_ok X (rt_stop_pod rt h g))
      \<and> (\<forall>h. calls_ok X (rt_pod_status rt h)) \<and> (\<forall>h. calls_ok X (rt_remove_pod rt h))
      \<and> (\<forall>h g d. calls_ok X (rt_stop_pod_until rt h g d))
      \<and> (\<forall>h d. calls_ok X (rt_pod_status_until rt h d))
      \<and> (\<forall>h d. calls_ok X (rt_remove_pod_until rt h d)))"

definition os_ok :: "string set \<Rightarrow> 'e os \<Rightarrow> bool" where
  "os_ok X os =
     (calls_ok X (os_instant_now os) \<and> (\<forall>p. calls_ok X (os_create_dir_all os p))
      \<and> (\<forall>a. calls_ok X (os_command os a)) \<and> (\<forall>p. calls_ok X (os_read_to_string os p))
      \<and> (\<forall>p. calls_ok X (os_remove_dir_all os p)) \<and> (\<forall>u a. calls_ok X (os_http_secret os u a)))"

definition io_ok :: "string set \<Rightarrow> 'i io \<Rightarrow> bool" where
  "io_ok X io = ((\<forall>m i. outcome X (\<lambda>_. True) (io_send io m i)) \<and> calls_ok X (io_recv io))"

definition env_ok :: "string set \<Rightarrow> ('e, 'i) ctx \<Rightarrow> bool" where
  "env_ok X cx = (os_ok X (cx_os cx) \<and> rt_ok X (cx_rt cx) \<and> io_ok X (cx_io cx))"

lemma env_ok_UNIV: "env_ok UNIV cx"
  by (simp add: env_ok_def os_ok_def rt_ok_def io_ok_def yields_def outcome_def split: sum.splits)

lemma yields_bind:
  "yields X P c \<Longrightarrow> (\<And>x. P x \<Longrightarrow> yields X Q (f x)) \<Longrightarrow> yields X Q (bind_call c f)"
  by (fastforce simp: yields_def bind_call_def intro: outcome_and_then)

lemma yields_ret [simp]: "yields X P (ret x) \<longleftrightarrow> P x"
  by (simp add: yields_def ret_def)

lemma yields_try:
  "calls_ok X c \<Longrightarrow> (\<And>x. calls_ok X (f x)) \<Longrightarrow> calls_ok X (try_call c f)"
  unfolding try_call_def by (rule yields_bind) (auto split: sum.split)

lemma yields_fun: "(\<And>e. calls_ok X (f e)) \<Longrightarrow> calls_ok X (\<lambda>e. f e e)"
  by (simp add: yields_def)

lemma yields_mono: "yields X P c \<Longrightarrow> (\<And>x. P x \<Longrightarrow> Q x) \<Longrightarrow> yields X Q c"
  by (fastforce simp: yields_def intro: outcome_mono)

lemma os_okD:
  assumes "os_ok X os"
  shows "calls_ok X (os_instant_now os)" "calls_ok X (os_create_dir_all os p)"
    "calls_ok X (os_command os a)" "calls_ok X (os_read_to_string os p)"
    "calls_ok X (os_remove_dir_all os p)" "calls_ok X (os_http_secret os u b)"
  using assms by (simp_all add: os_ok_def)

lemma rt_okD:
  assumes "rt_ok X rt"
  shows "calls_ok X (rt_pull_image rt i a)" "calls_ok X (rt_create_pod rt sp)"
    "calls_ok X (rt_start_pod rt h)" "calls_ok X (rt_forward_run rt h p b)"
    "calls_ok X (rt_probe_pod rt h p pa)" "calls_ok X (rt_stop_pod rt h g)"
    "calls_ok X (rt_pod_status rt h)" "calls_ok X (rt_remove_pod rt h)"
    "calls_ok X (rt_stop_pod_until rt h g d)" "calls_ok X (rt_pod_status_until rt h d)"
    "calls_ok X (rt_remove_pod_until rt h d)"
  using assms by (simp_all add: rt_ok_def)

lemma mount_is_active_ok: "os_ok X os \<Longrightarrow> calls_ok X (mount_is_active os d)"
  unfolding mount_is_active_def by (rule yields_bind [OF os_okD(4)]) (auto split: sum.split)

lemma command_timeout_ok: "os_ok X os \<Longrightarrow> calls_ok X (command_timeout os d)"
  unfolding command_timeout_def by (rule yields_bind [OF os_okD(1)]) (auto simp: Let_def)

lemma remove_pod_dir_ok: "os_ok X os \<Longrightarrow> calls_ok X (remove_pod_dir os p)"
  unfolding remove_pod_dir_def
  by (rule yields_bind [OF os_okD(5)])
     (auto simp: yields_def ret_def split: sum.split remove_error.split)

lemma unmount_until_ok: "os_ok X os \<Longrightarrow> calls_ok X (unmount_juicefs_until os p d)"
  unfolding unmount_juicefs_until_def Let_def
  by (auto intro!: yields_bind [OF os_okD(1)] yields_bind [OF os_okD(3)] yields_try mount_is_active_ok
        command_timeout_ok remove_pod_dir_ok)

lemma unmount_ok: "os_ok X os \<Longrightarrow> calls_ok X (unmount_juicefs os p)"
  unfolding unmount_juicefs_def by (rule yields_bind [OF os_okD(1)]) (simp_all add: unmount_until_ok)

lemma mount_ok:
  assumes "os_ok X os"
  shows "calls_ok X (mount_juicefs os p path)"
proof -
  have run: "calls_ok X (bind_call (os_command os args) (\<lambda>output. case output of
      Inl err \<Rightarrow> ret (Inl (g err)) | Inr out \<Rightarrow> ret (h out)))" for args g and h :: "_ \<Rightarrow> _ + volume_mount"
    by (rule yields_bind [OF os_okD(3) [OF assms]]) (auto split: sum.split)
  then have "calls_ok X (\<lambda>e. case v e of None \<Rightarrow> ret (Inl x) e | Some u \<Rightarrow>
      bind_call (os_command os (args u e)) (\<lambda>output. case output of
        Inl err \<Rightarrow> ret (Inl (g err)) | Inr out \<Rightarrow> ret (h out)) e)"
    for v x g args and h :: "_ \<Rightarrow> _ + volume_mount"
    by (auto simp: yields_def ret_def split: option.split)
  then show ?thesis
    unfolding mount_juicefs_def Let_def
    by (auto intro!: yields_bind [OF os_okD(2) [OF assms]] split: sum.split)
qed

lemma pod_mounts_ok: "os_ok X os \<Longrightarrow> calls_ok X (pod_mounts os p pod)"
  unfolding pod_mounts_def by (auto intro!: yields_bind [OF mount_ok])

lemma fetch_secret_ok: "os_ok X os \<Longrightarrow> calls_ok X (fetch_secret os n r)"
  unfolding fetch_secret_def Let_def
  by (auto split: option.split intro!: yields_bind [OF os_okD(6)])
     (auto split: sum.split option.split intro!: yields_bind [OF os_okD(1)])

lemma resolve_secret_ok: "os_ok X os \<Longrightarrow> calls_ok X (resolve_secret os n r)"
  unfolding resolve_secret_def
  by (auto split: option.split intro!: yields_bind [OF os_okD(1)] fetch_secret_ok)

lemma resolve_plain_ok: "os_ok X os \<Longrightarrow> calls_ok X (resolve_plain_or_secret os v b r)"
  by (simp add: resolve_plain_or_secret_def resolve_secret_ok)

lemma resolve_ok: "os_ok X os \<Longrightarrow> calls_ok X (resolve os entries r)"
proof (induction entries arbitrary: r)
  case (Cons en ens)
  then show ?case
    by (auto intro!: yields_bind [where P = "\<lambda>_. True"] resolve_secret_ok split: prod.split)
qed simp

section \<open>Rules for actions\<close>

lemma outcome_call:
  assumes "yields X P c" "\<And>r e. P r \<Longrightarrow> outcome X Q (f r (s\<lparr>sy_env := e\<rparr>))"
  shows "outcome X Q (call c f s)"
  unfolding call_def
proof (rule outcome_and_then)
  show "outcome X (\<lambda>(r, e'). P r) (c (sy_env s))" using assms(1) by (simp add: yields_def)
qed (use assms(2) in auto)

lemma callE:
  assumes "call c f s = Inr s'"
  obtains r e where "c (sy_env s) = Inr (r, e)" "f r (s\<lparr>sy_env := e\<rparr>) = Inr s'"
  using assms by (auto simp: call_def and_then_Inr)

lemma outcome_send:
  assumes "env_ok X cx" "\<And>i. Q (s\<lparr>sy_io := i, sy_out := sy_out s @ [m]\<rparr>)"
  shows "outcome X Q (send cx m s)"
  unfolding send_def by (rule outcome_and_then) (use assms in \<open>auto simp: env_ok_def io_ok_def\<close>)

lemma outcome_on_worker:
  "outcome X (\<lambda>w. Q (s\<lparr>sy_worker := w\<rparr>)) (f (sy_worker s)) \<Longrightarrow> outcome X Q (on_worker f s)"
  unfolding on_worker_def by (erule outcome_and_then) simp

lemma outcome_on_worker_then:
  "outcome X P (f (sy_worker s)) \<Longrightarrow> (\<And>w. P w \<Longrightarrow> outcome X Q (g (s\<lparr>sy_worker := w\<rparr>)))
     \<Longrightarrow> outcome X Q (and_then (on_worker f s) g)"
  by (cases "f (sy_worker s)") (simp_all add: on_worker_def)

lemma env_okD: "env_ok X cx \<Longrightarrow> os_ok X (cx_os cx)" "env_ok X cx \<Longrightarrow> rt_ok X (cx_rt cx)"
  by (simp_all add: env_ok_def)

section \<open>Worker operations\<close>

text \<open>
  \<open>steady X D w\<close>: the invariant holds and either the tracked pods are exactly \<open>D\<close>, few enough
  that no tombstone is pruned, or a missing key is an accepted panic.
\<close>

definition MISSING_KEY :: string where "MISSING_KEY = ''no entry found for key''"

definition steady :: "string set \<Rightarrow> u64 set \<Rightarrow> worker \<Rightarrow> bool" where
  "steady X D w =
     (worker_inv w
      \<and> (MISSING_KEY \<in> X
         \<or> dom (hm_get (wk_pods w)) = D \<and> card D \<le> MAX_TERMINAL_TOMBSTONES))"

lemma steady_inv: "steady X D w \<Longrightarrow> worker_inv w"
  by (simp add: steady_def)

lemma steady_core: "steady X D w \<Longrightarrow> core_inv w"
  by (simp add: steady_def worker_inv_def)

lemma steady_same:
  assumes "steady X D w" "worker_inv w'" "same_pods w w'"
  shows "steady X D w'"
  using assms hm_len_card [of "wk_pods w"]
  by (auto simp: steady_def same_pods_def worker_inv_def core_inv_def)

lemma steady_dom:
  "steady X D w \<Longrightarrow> worker_inv w' \<Longrightarrow> dom (hm_get (wk_pods w')) = dom (hm_get (wk_pods w)) \<Longrightarrow> steady X D w'"
  by (auto simp: steady_def)

lemma dom_update_pod [simp]: "dom (hm_get (wk_pods (update_pod k f w))) = dom (hm_get (wk_pods w))"
  by (auto simp: update_pod_def get_hm_modify dom_def)

lemma get_update_pod:
  "hm_get (wk_pods (update_pod k f w)) j = (if j = k then map_option f (hm_get (wk_pods w) k) else hm_get (wk_pods w) j)"
  by (simp add: update_pod_def get_hm_modify)

lemma update_pod_fields [simp]:
  "wk_pending_failure_reasons (update_pod k f w) = wk_pending_failure_reasons w"
  "wk_gpu_type (update_pod k f w) = wk_gpu_type w"
  "wk_gpu_allocated (update_pod k f w) = wk_gpu_allocated w"
  "wk_registered (update_pod k f w) = wk_registered w"
  by (simp_all add: update_pod_def)

lemma steady_update:
  assumes st: "steady X D w" and p: "hm_get (wk_pods w) k = Some p"
    and same: "same_claim p (f p)" and ok: "pod_ok (f p)"
    and pend: "tp_state p = Stopping \<Longrightarrow> tp_state (f p) = Stopping"
  shows "steady X D (update_pod k f w)"
  by (rule steady_dom [OF st worker_inv_update [OF steady_inv [OF st] p]]) (simp_all add: assms)

lemma steady_pod: "steady X D w \<Longrightarrow> hm_get (wk_pods w) k = Some p \<Longrightarrow> tp_pod_id p = k \<and> pod_ok p"
  using core_inv_pod steady_core by blast

lemma steady_no_pending:
  "steady X D w \<Longrightarrow> hm_get (wk_pods w) k = Some p \<Longrightarrow> tp_state p \<noteq> Stopping
     \<Longrightarrow> hm_get (wk_pending_failure_reasons w) k = None"
  using core_inv_no_pending [OF steady_core, of X D w k] by simp

lemma schedule_stop_retry_inv:
  assumes st: "steady X D w" and p: "hm_get (wk_pods w) k = Some p" "tp_state p = Stopping"
  shows "outcome X (steady X D) (schedule_stop_retry k now w)"
proof -
  have "steady X D (update_pod k
      (\<lambda>pod. pod\<lparr>tp_lifecycle_failures := min (saturating_add (tp_lifecycle_failures pod) 1) STOP_ATTEMPT_MAX,
                 tp_lifecycle_retry_after_tick := saturating_add now STOP_RETRY_DELAY_TICKS\<rparr>) w)"
    by (rule steady_update [OF st p(1)]) (use p in \<open>simp_all add: same_claim_def pod_ok_def\<close>)
  then show ?thesis using p by (simp add: schedule_stop_retry_def)
qed

lemma core_inv_insert_pending:
  assumes "core_inv w" "hm_get (wk_pods w) k = Some p" "tp_state p = Stopping"
  shows "core_inv (w\<lparr>wk_pending_failure_reasons := hm_insert k r (wk_pending_failure_reasons w)\<rparr>)"
  using assms unfolding core_inv_def pending_ok_def
  by (simp add: pods_ok_def accounted_def node_size_ok_def)

lemma core_inv_remove_pending:
  assumes "core_inv w"
  shows "core_inv (w\<lparr>wk_pending_failure_reasons := hm_remove k (wk_pending_failure_reasons w)\<rparr>)"
  using assms unfolding core_inv_def pending_ok_def
  by (simp add: pods_ok_def accounted_def node_size_ok_def)

lemma core_inv_pending_len:
  assumes "core_inv w"
  shows "hm_len (wk_pending_failure_reasons w) \<le> hm_len (wk_pods w)"
proof -
  have "dom (hm_get (wk_pending_failure_reasons w)) \<subseteq> dom (hm_get (wk_pods w))"
  proof
    fix k assume "k \<in> dom (hm_get (wk_pending_failure_reasons w))"
    then have "map_option tp_state (hm_get (wk_pods w) k) = Some Stopping"
      by (intro core_inv_pending [OF assms]) auto
    then show "k \<in> dom (hm_get (wk_pods w))" by auto
  qed
  then show ?thesis
    using card_mono [OF hm.finite_dom_get] core_inv_wf [OF assms] by (simp add: hm_len_card)
qed

lemma begin_failure_cleanup_inv:
  assumes st: "steady X D w" and p: "hm_get (wk_pods w) k = Some p" "\<not> is_terminal (tp_state p)"
      "tp_state p \<noteq> Stopping"
  shows "outcome X (steady X D) (begin_failure_cleanup k reason now w)"
proof -
  let ?f = "\<lambda>pod. pod\<lparr>tp_state := Stopping, tp_state_changed_at := now, tp_grace_period_ms := 0,
                       tp_lifecycle_failures := 0, tp_lifecycle_retry_after_tick := 0\<rparr>"
  let ?w1 = "update_pod k ?f w"
  let ?w2 = "?w1\<lparr>wk_pending_failure_reasons := hm_insert k reason (wk_pending_failure_reasons w)\<rparr>"
  have st1: "steady X D ?w1"
    by (rule steady_update [OF st p(1)]) (use p in \<open>simp_all add: same_claim_def pod_ok_def\<close>)
  have none: "hm_get (wk_pending_failure_reasons w) k = None" by (rule steady_no_pending [OF st p(1,3)])
  have core: "core_inv ?w2"
    using core_inv_insert_pending [OF steady_core [OF st1], of k "?f p" reason] p(1)
    by (simp add: get_update_pod)
  have "hm_len (wk_pending_failure_reasons ?w2) \<le> hm_len (wk_pods ?w2)"
    by (rule core_inv_pending_len [OF core])
  moreover have "worker_inv ?w2"
    using core steady_inv [OF st1] by (simp add: worker_inv_def terminal_count_total)
  moreover from this have "steady X D ?w2" using steady_dom [OF st1] by simp
  ultimately show ?thesis using none by (simp add: begin_failure_cleanup_def Let_def)
qed

lemma handle_stop_pod_inv:
  assumes "steady X D w"
  shows "steady X D (handle_stop_pod cmd now w)"
proof (cases "hm_get (wk_pods w) (stp_pod_id cmd)")
  case (Some p)
  then show ?thesis
    using assms
    by (auto simp: handle_stop_pod_def same_claim_def pod_ok_def intro!: steady_update)
qed (simp add: handle_stop_pod_def assms)

section \<open>Failing and finishing\<close>

abbreviation steady_sys :: "string set \<Rightarrow> u64 set \<Rightarrow> ('e, 'i) sys \<Rightarrow> bool" where
  "steady_sys X D s \<equiv> steady X D (sy_worker s)"

lemma outcome_steady_same:
  "steady X D w \<Longrightarrow> outcome X (\<lambda>w'. worker_inv w' \<and> same_pods w w') r \<Longrightarrow> outcome X (steady X D) r"
  by (erule outcome_mono) (blast intro: steady_same)

lemma fail_pod_inv:
  assumes env: "env_ok X cx" and st: "steady_sys X D s" and p: "hm_get (wk_pods (sy_worker s)) k = Some p"
    and live: "\<not> is_terminal (tp_state p)" "tp_state p \<noteq> Stopping"
  shows "outcome X (steady_sys X D) (fail_pod cx k reason now s)"
proof -
  let ?f = "\<lambda>pod. pod\<lparr>tp_state := Failed reason, tp_state_changed_at := now\<rparr>"
  have cleanup: "outcome X (steady X D) (begin_failure_cleanup k reason now (sy_worker s))"
    by (rule begin_failure_cleanup_inv [OF st p live])
  have retire: "outcome X (steady X D) (retire_pod k (update_pod k ?f (sy_worker s)))" if "tp_handle p = None"
  proof (rule outcome_steady_same [OF st retire_pod_inv [OF steady_inv [OF st] p live(1)]])
    show "hm_get (wk_pending_failure_reasons (sy_worker s)) k = None"
      by (rule steady_no_pending [OF st p live(2)])
  qed (use that in simp_all)
  show ?thesis
    unfolding fail_pod_def Let_def p expect_simps and_then_simps
  proof (rule outcome_call)
    show "calls_ok X (if tp_handle p \<noteq> None then ret (Inr ()) else unmount_juicefs (cx_os cx) k)"
      using unmount_ok [OF env_okD(1) [OF env]] by simp
    fix r e
    show "outcome X (steady_sys X D)
        (if tp_handle p \<noteq> None \<or> isl r then on_worker (begin_failure_cleanup k reason now) (s\<lparr>sy_env := e\<rparr>)
         else and_then (on_worker (\<lambda>w. retire_pod k (update_pod k ?f w)) (s\<lparr>sy_env := e\<rparr>))
                (send cx (status_event k (ReportFailed reason))))"
      using cleanup
      by (auto intro!: outcome_on_worker outcome_on_worker_then [where P = "steady X D"]
            outcome_send [OF env] intro: retire)
  qed
qed

lemma finish_pod_stop_inv:
  assumes env: "env_ok X cx" and st: "steady_sys X D s" and p: "hm_get (wk_pods (sy_worker s)) k = Some p"
    and stop: "tp_state p = Stopping" "tp_handle p = None"
  shows "outcome X (steady_sys X D) (finish_pod_stop cx k c now s)"
proof -
  let ?w = "(sy_worker s)\<lparr>wk_pending_failure_reasons := hm_remove k (wk_pending_failure_reasons (sy_worker s))\<rparr>"
  have "worker_inv ?w"
    using st core_inv_remove_pending [OF steady_core [OF st]]
    by (simp add: steady_def worker_inv_def terminal_count_total)
  then have st1: "steady X D ?w" using steady_dom [OF st] by simp
  have "outcome X (steady X D) (retire_pod k (update_pod k
     (\<lambda>pod. pod\<lparr>tp_state := (case hm_get (wk_pending_failure_reasons (sy_worker s)) k of
                             Some reason \<Rightarrow> Failed reason | None \<Rightarrow> Stopped c),
                tp_state_changed_at := now, tp_lifecycle_retry_after_tick := 0\<rparr>) ?w))"
    by (rule outcome_steady_same [OF st1 retire_pod_inv [OF steady_inv [OF st1], of k p]])
       (use p stop in \<open>auto split: option.split\<close>)
  then show ?thesis
    unfolding finish_pod_stop_def Let_def using p
    by (simp, elim outcome_and_then) (simp add: outcome_send [OF env])
qed

lemma unmount_and_finish_inv:
  assumes env: "env_ok X cx" and st: "steady_sys X D s" and p: "hm_get (wk_pods (sy_worker s)) k = Some p"
    and stop: "tp_state p = Stopping" "tp_handle p = None"
  shows "outcome X (steady_sys X D) (unmount_and_finish cx k c now s)"
  unfolding unmount_and_finish_def
  by (rule outcome_call [OF unmount_ok [OF env_okD(1) [OF env]]])
     (use schedule_stop_retry_inv [OF st p stop(1)] assms in
       \<open>auto split: sum.split intro!: outcome_on_worker finish_pod_stop_inv\<close>)

lemma complete_pod_stop_inv:
  assumes env: "env_ok X cx" and st: "steady_sys X D s" and p: "hm_get (wk_pods (sy_worker s)) k = Some p"
    and stop: "tp_state p = Stopping"
  shows "outcome X (steady_sys X D) (complete_pod_stop cx k c now s)"
proof (cases "tp_handle p")
  case None
  then show ?thesis
    using p stop unmount_and_finish_inv [OF env st p stop]
    by (simp add: complete_pod_stop_def index_pod_def)
next
  case (Some h)
  let ?f = "\<lambda>pod. pod\<lparr>tp_handle := None\<rparr>"
  have st1: "steady X D (update_pod k ?f (sy_worker s))"
    by (rule steady_update [OF st p]) (use stop in \<open>simp_all add: same_claim_def pod_ok_def\<close>)
  have rm: "calls_ok X (rt_remove_pod (cx_rt cx) h)" by (rule rt_okD [OF env_okD(2) [OF env]])
  have "outcome X (steady_sys X D) (call (rt_remove_pod (cx_rt cx) h) (\<lambda>r.
      case r of Inl _ \<Rightarrow> on_worker (schedule_stop_retry k now)
      | Inr _ \<Rightarrow> (\<lambda>s1. and_then (expect (hm_get (wk_pods (sy_worker s1)) k) ''stopping pod must remain tracked'')
          (\<lambda>_. unmount_and_finish cx k c now (s1\<lparr>sy_worker := update_pod k ?f (sy_worker s1)\<rparr>)))) s)"
    by (rule outcome_call [OF rm])
       (use schedule_stop_retry_inv [OF st p stop] st1 p stop in
         \<open>auto split: sum.split intro!: outcome_on_worker unmount_and_finish_inv [OF env] simp: get_update_pod\<close>)
  then show ?thesis using p stop Some by (simp add: complete_pod_stop_def index_pod_def)
qed

section \<open>The scan\<close>

lemma index_pod_outcome:
  "steady X D w \<Longrightarrow> k \<in> D \<Longrightarrow> outcome X (\<lambda>p. hm_get (wk_pods w) k = Some p) (index_pod k w)"
  by (cases "hm_get (wk_pods w) k") (auto simp: index_pod_def steady_def MISSING_KEY_def)

lemma probe_running_inv:
  assumes env: "env_ok X cx" and st: "steady_sys X D s" and p: "hm_get (wk_pods (sy_worker s)) k = Some p"
    and run: "tp_state p = Running"
  shows "outcome X (steady_sys X D) (probe_running cx now k s)"
proof -
  obtain h where h: "tp_handle p = Some h"
    using steady_pod [OF st p] run by (auto simp: pod_ok_def)
  let ?f = "\<lambda>pod. pod\<lparr>tp_last_probe_tick := now\<rparr>"
  let ?w = "update_pod k ?f (sy_worker s)"
  have st1: "steady X D ?w"
    by (rule steady_update [OF st p]) (use run h in \<open>simp_all add: same_claim_def pod_ok_def\<close>)
  have p1: "hm_get (wk_pods ?w) k = Some (?f p)" using p by (simp add: get_update_pod)
  have upd: "steady X D (update_pod k (\<lambda>pod. pod\<lparr>tp_consecutive_failures := g pod\<rparr>) ?w)" for g
    by (rule steady_update [OF st1 p1]) (use run h in \<open>simp_all add: same_claim_def pod_ok_def\<close>)
  have probe: "calls_ok X (rt_probe_pod (cx_rt cx) h port path)" for port path
    by (rule rt_okD [OF env_okD(2) [OF env]])
  show ?thesis
    unfolding probe_running_def Let_def index_pod_def
    using p h st run upd
    by (auto intro!: outcome_call [OF probe] fail_pod_inv [OF env, where p = "?f p\<lparr>tp_consecutive_failures :=
             saturating_add (tp_consecutive_failures (?f p)) 1\<rparr>"]
          simp: modify_worker_def get_update_pod)
qed

lemma scan_running_inv:
  assumes env: "env_ok X cx" and st: "steady_sys X D s" and p: "hm_get (wk_pods (sy_worker s)) k = Some p"
    and run: "tp_state p = Running"
  shows "outcome X (steady_sys X D) (scan_running cx now k p s)"
proof -
  obtain h where h: "tp_handle p = Some h"
    using steady_pod [OF st p] run by (auto simp: pod_ok_def)
  let ?f = "\<lambda>pod. pod\<lparr>tp_state := Stopping, tp_state_changed_at := now, tp_grace_period_ms := 0,
              tp_lifecycle_failures := STOP_ATTEMPT_MAX, tp_lifecycle_retry_after_tick := 0\<rparr>"
  have st1: "steady X D (update_pod k ?f (sy_worker s))"
    by (rule steady_update [OF st p]) (use run in \<open>simp_all add: same_claim_def pod_ok_def\<close>)
  have stat: "calls_ok X (rt_pod_status (cx_rt cx) h)" by (rule rt_okD [OF env_okD(2) [OF env]])
  show ?thesis
    unfolding scan_running_def h expect_simps and_then_simps
  proof (rule outcome_call [OF stat])
    fix r :: "runtime_error + pod_status" and e
    let ?s = "s\<lparr>sy_env := e\<rparr>"
    have "outcome X (steady_sys X D) (fail_pod cx k m now ?s)" for m
      by (rule fail_pod_inv [OF env _ _ _ _, where p = p]) (use st p run in simp_all)
    moreover have "outcome X (steady_sys X D) (probe_running cx now k ?s)"
      by (rule probe_running_inv [OF env, where p = p]) (use st p run in simp_all)
    moreover have "outcome X (steady_sys X D)
        (complete_pod_stop cx k c now (?s\<lparr>sy_worker := update_pod k ?f (sy_worker ?s)\<rparr>))" for c
      by (rule complete_pod_stop_inv [OF env, where p = "?f p"])
         (use st1 p in \<open>simp_all add: get_update_pod\<close>)
    ultimately show "outcome X (steady_sys X D) ((case r of
           Inr StatusRunning \<Rightarrow> probe_running cx now k
         | Inr (StatusStopped exit_code) \<Rightarrow> (\<lambda>s1. complete_pod_stop cx k exit_code now
               (s1\<lparr>sy_worker := update_pod k ?f (sy_worker s1)\<rparr>))
         | Inr StatusCreated \<Rightarrow> fail_pod cx k ''runtime no longer proves pod is running'' now
         | Inr StatusUnknown \<Rightarrow> fail_pod cx k ''runtime no longer proves pod is running'' now
         | Inl error \<Rightarrow>
             fail_pod cx k (''runtime status verification failed: '' @ show_runtime_error error) now) ?s)"
      by (simp split: sum.split pod_status.split)
  qed
qed

text \<open>The state of a scan: the invariant, and operations for tracked pods only.\<close>

abbreviation scan_ok :: "string set \<Rightarrow> u64 set \<Rightarrow> ('e, 'i) scan \<Rightarrow> bool" where
  "scan_ok X D st \<equiv> steady_sys X D (snd st)"

lemma scan_creating_inv:
  assumes env: "env_ok X cx" and st: "steady_sys X D s" and p: "hm_get (wk_pods (sy_worker s)) k = Some p"
    and cr: "tp_state p = Creating"
  shows "outcome X (scan_ok X D) (scan_creating cx now k p (ops, s))"
proof -
  have fail: "outcome X (steady_sys X D) (fail_pod cx k m now (s\<lparr>sy_env := e\<rparr>))" for m e
    by (rule fail_pod_inv [OF env, where p = p]) (use st p cr in simp_all)
  have "outcome X (\<lambda>_. True) (pod_mounts (cx_os cx) k p (sy_env s))"
    using pod_mounts_ok [OF env_okD(1) [OF env]] by (simp add: yields_def case_prod_unfold)
  then show ?thesis
    unfolding scan_creating_def Let_def using st
    by (auto intro!: outcome_and_then [OF fail] elim!: outcome_and_then split: sum.split)
qed

lemma scan_pod_inv:
  assumes env: "env_ok X cx" and st: "scan_ok X D st" and k: "k \<in> D"
  shows "outcome X (scan_ok X D) (scan_pod cx now k st)"
proof -
  obtain ops s where [simp]: "st = (ops, s)" by (cases st)
  have "outcome X (\<lambda>p. hm_get (wk_pods (sy_worker s)) k = Some p) (index_pod k (sy_worker s))"
    using index_pod_outcome st k by simp
  then show ?thesis
    unfolding scan_pod_def Let_def using st
    by (auto elim!: outcome_and_then
          intro!: scan_creating_inv [OF env] outcome_and_then [OF scan_running_inv [OF env]]
          split: tracked_pod_state.split option.split)
qed

lemma scan_pods_inv:
  assumes env: "env_ok X cx" and st: "steady_sys X D s" and D: "D = dom (hm_get (wk_pods (sy_worker s)))"
  shows "outcome X (scan_ok X D) (scan_pods cx now s)"
  unfolding scan_pods_def
  by (rule outcome_fold_res) (use st D in \<open>auto intro!: scan_pod_inv [OF env]\<close>)

section \<open>Threads\<close>

fun result_matches :: "lifecycle_op \<Rightarrow> lifecycle_result \<Rightarrow> bool" where
  "result_matches (OpPull _ _ _ _) (ResPull _) = True"
| "result_matches (OpCreate _ _ _) (ResCreate _) = True"
| "result_matches (OpStart _ _ _) (ResStart _) = True"
| "result_matches (OpStop _ _ _ _) (ResStop _) = True"
| "result_matches _ _ = False"

primrec thread_op :: "thread \<Rightarrow> lifecycle_op" where
  "thread_op (Spawned op) = op"
| "thread_op (StopIssued op h e) = op"
| "thread_op (Done op r) = op"

text \<open>The number of steps a thread still takes, and that what it holds fits its operation.\<close>

fun steps_left :: "thread \<Rightarrow> nat" where
  "steps_left (Spawned (OpStop _ (Some _) _ _)) = 2"
| "steps_left (Spawned _) = 1"
| "steps_left (StopIssued _ _ _) = 1"
| "steps_left (Done _ _) = 0"

lemma steps_left_Spawned [simp]: "steps_left (Spawned op) \<noteq> 0"
  by (cases "Spawned op" rule: steps_left.cases) simp_all

fun thread_ok :: "thread \<Rightarrow> bool" where
  "thread_ok (StopIssued op h e) = (\<exists>k g a. op = OpStop k (Some h) g a)"
| "thread_ok (Done op r) = result_matches op r"
| "thread_ok _ = True"

lemma thread_step_yields:
  assumes "rt_ok X rt" "thread_ok t"
  shows "yields X (\<lambda>t'. thread_ok t' \<and> thread_op t' = thread_op t \<and> steps_left t' = steps_left t - 1)
    (thread_step rt t)"
  using assms(2) rt_okD [OF assms(1)]
  by (cases "(rt, t)" rule: thread_step.cases)
     (auto intro!: yields_bind [where P = "\<lambda>_. True"])

lemma run_order_yields:
  assumes "rt_ok X rt" "list_all thread_ok ts"
  shows "yields X (\<lambda>ts'. list_all thread_ok ts' \<and> map thread_op ts' = map thread_op ts) (run_order rt order ts)"
  using assms(2)
proof (induction order arbitrary: ts)
  case (Cons i order)
  show ?case
  proof (cases "i < length ts")
    case True
    then have ok: "thread_ok (ts ! i)" using Cons.prems by (simp add: list_all_length)
    have "yields X (\<lambda>ts'. list_all thread_ok ts' \<and> map thread_op ts' = map thread_op ts)
        (bind_call (thread_step rt (ts ! i)) (\<lambda>t. run_order rt order (ts[i := t])))"
    proof (rule yields_bind [OF thread_step_yields [OF assms(1) ok]])
      fix t assume t: "thread_ok t \<and> thread_op t = thread_op (ts ! i) \<and> steps_left t = steps_left (ts ! i) - 1"
      have "list_all thread_ok (ts[i := t])"
        using Cons.prems t by (auto simp: list_all_iff dest!: set_update_subset_insert [THEN subsetD])
      moreover have "map thread_op (ts[i := t]) = map thread_op ts"
        using t True by (simp add: map_update list_update_same_conv)
      ultimately show "yields X (\<lambda>ts'. list_all thread_ok ts' \<and> map thread_op ts' = map thread_op ts)
          (run_order rt order (ts[i := t]))"
        using Cons.IH [of "ts[i := t]"] by simp
    qed
    then show ?thesis using True by simp
  qed (use Cons in simp)
qed simp

definition finished :: "thread \<Rightarrow> bool" where
  "finished t = (thread_ok t \<and> steps_left t = 0)"

lemma steps_left_le: "steps_left t \<le> 2"
  by (cases t rule: steps_left.cases) simp_all

lemma join_yields:
  assumes "rt_ok X rt" "list_all thread_ok ts"
  shows "yields X (\<lambda>ts'. list_all finished ts' \<and> map thread_op ts' = map thread_op ts) (join_all rt ts)"
  using assms(2)
proof (induction ts)
  case (Cons t ts)
  have one: "yields X (\<lambda>t'. finished t' \<and> thread_op t' = thread_op t) (bind_call (thread_step rt t) (thread_step rt))"
  proof (rule yields_bind [OF thread_step_yields [OF assms(1)]])
    fix u assume u: "thread_ok u \<and> thread_op u = thread_op t \<and> steps_left u = steps_left t - 1"
    show "yields X (\<lambda>t'. finished t' \<and> thread_op t' = thread_op t) (thread_step rt u)"
      by (rule yields_mono [OF thread_step_yields [OF assms(1)]])
         (use u steps_left_le [of t] in \<open>auto simp: finished_def\<close>)
  qed (use Cons.prems in simp)
  have rest: "yields X (\<lambda>ts'. list_all finished ts' \<and> map thread_op ts' = map thread_op ts) (join_all rt ts)"
    using Cons by simp
  show ?case
    unfolding join_all.simps
    by (rule yields_bind [OF one], rule yields_bind [OF rest]) simp
qed simp

lemma run_chunk_yields:
  assumes "rt_ok X rt"
  shows "yields X (\<lambda>ts. list_all finished ts \<and> map thread_op ts = ops) (run_chunk rt order ops)"
  unfolding run_chunk_def
  by (rule yields_bind [OF run_order_yields [OF assms]])
     (auto simp: list_all_iff comp_def intro: yields_mono [OF join_yields [OF assms]])

lemma run_chunks_yields:
  assumes "rt_ok X rt"
  shows "yields X (\<lambda>ts. list_all finished ts \<and> map thread_op ts = ops) (run_chunks rt sched c off ops)"
proof (induction "length ops" arbitrary: ops off rule: less_induct)
  case less
  show ?case
  proof (cases ops)
    case (Cons op ops')
    let ?n = "phase_concurrency c op"
    have "yields X (\<lambda>ts. list_all finished ts \<and> map thread_op ts = drop ?n ops)
        (run_chunks rt sched c (off + ?n) (drop ?n ops))"
      using less Cons phase_concurrency_pos [of c op] by simp
    then have "yields X (\<lambda>ts. list_all finished ts \<and> map thread_op ts = ops)
        (bind_call (run_chunk rt (sched off) (take ?n ops)) (\<lambda>ts.
           bind_call (run_chunks rt sched c (off + ?n) (drop ?n ops)) (\<lambda>rest. ret (ts @ rest))))"
      by (intro yields_bind [OF run_chunk_yields [OF assms]]) (auto elim!: yields_bind)
    then show ?thesis by (subst run_chunks.simps) (simp add: Cons Let_def)
  qed (simp add: run_chunks.simps)
qed

section \<open>Completions\<close>

lemma state_of_Some:
  "map_option tp_state (hm_get m k) = Some st \<Longrightarrow> \<exists>p. hm_get m k = Some p \<and> tp_state p = st"
  by auto

lemma complete_pull_inv:
  assumes env: "env_ok X cx" and st: "steady_sys X D s" and m: "result_matches (OpPull k d i a) r"
  shows "outcome X (steady_sys X D) (complete_pull cx now k r s)"
proof (cases "map_option tp_state (hm_get (wk_pods (sy_worker s)) k) = Some ImagePulling")
  case True
  then obtain p where p: "hm_get (wk_pods (sy_worker s)) k = Some p" "tp_state p = ImagePulling" by auto
  have h: "tp_handle p = None" using steady_pod [OF st p(1)] p(2) by (simp add: pod_ok_def)
  have "steady X D (update_pod k (\<lambda>pod. pod\<lparr>tp_state := Creating, tp_state_changed_at := now\<rparr>) (sy_worker s))"
    by (rule steady_update [OF st p(1)]) (use p h in \<open>simp_all add: same_claim_def pod_ok_def\<close>)
  then show ?thesis
    using m p fail_pod_inv [OF env st p(1)]
    by (cases r) (auto simp: complete_pull_def split: sum.split intro!: outcome_send [OF env])
qed (use st in \<open>simp add: complete_pull_def\<close>)

lemma complete_create_inv:
  assumes env: "env_ok X cx" and st: "steady_sys X D s" and m: "result_matches (OpCreate k d sp) r"
  shows "outcome X (steady_sys X D) (complete_create cx now k r s)"
proof (cases "map_option tp_state (hm_get (wk_pods (sy_worker s)) k) = Some Creating")
  case True
  then obtain p where p: "hm_get (wk_pods (sy_worker s)) k = Some p" "tp_state p = Creating" by auto
  have "steady X D (update_pod k (\<lambda>pod. pod\<lparr>tp_handle := Some h, tp_state := Starting,
      tp_state_changed_at := now, tp_lifecycle_retry_after_tick := 0\<rparr>) (sy_worker s))" for h
    by (rule steady_update [OF st p(1)]) (use p in \<open>simp_all add: same_claim_def pod_ok_def\<close>)
  then show ?thesis
    using m p fail_pod_inv [OF env st p(1)]
    by (cases r) (auto simp: complete_create_def split: sum.split)
qed (use st in \<open>simp add: complete_create_def\<close>)

lemma start_failed_inv:
  assumes env: "env_ok X cx" and st: "steady_sys X D s" and p: "hm_get (wk_pods (sy_worker s)) k = Some p"
      "tp_state p = Starting"
  shows "outcome X (steady_sys X D) (start_failed cx now k h err s)"
proof (cases "saturating_add (tp_lifecycle_failures p) 1 \<ge> LIFECYCLE_RETRY_MAX")
  case True
  then show ?thesis
    using fail_pod_inv [OF env st p(1)] p by (simp add: start_failed_def retry_lifecycle_pod_def)
next
  case False
  let ?g = "\<lambda>pod. pod\<lparr>tp_lifecycle_failures := tp_lifecycle_failures p + 1, tp_lifecycle_retry_after_tick :=
     saturating_add now (saturating_mul LIFECYCLE_RETRY_DELAY_TICKS
       (push_bit (unat (tp_lifecycle_failures p + 1) mod 64) 1))\<rparr>"
  let ?w = "update_pod k ?g (sy_worker s)"
  have hp: "tp_handle p \<noteq> None" using steady_pod [OF st p(1)] p(2) by (simp add: pod_ok_def)
  have st1: "steady X D ?w"
    by (rule steady_update [OF st p(1)]) (use p hp in \<open>simp_all add: same_claim_def pod_ok_def\<close>)
  have p1: "hm_get (wk_pods ?w) k = Some (?g p)" using p by (simp add: get_update_pod)
  have st2: "steady X D (update_pod k (\<lambda>pod. pod\<lparr>tp_handle := None, tp_state := Creating,
      tp_state_changed_at := now\<rparr>) ?w)"
    by (rule steady_update [OF st1 p1]) (use p in \<open>simp_all add: same_claim_def pod_ok_def\<close>)
  have fail: "outcome X (steady_sys X D) (fail_pod cx k m now (s\<lparr>sy_worker := ?w, sy_env := e\<rparr>))" for m e
    by (rule fail_pod_inv [OF env, where p = "?g p"]) (use st1 p1 p in simp_all)
  have rm: "calls_ok X (rt_remove_pod (cx_rt cx) h)" by (rule rt_okD [OF env_okD(2) [OF env]])
  show ?thesis
    unfolding start_failed_def retry_lifecycle_pod_def Let_def using False p st2 fail
    by (auto intro!: outcome_call [OF rm] split: sum.split simp: modify_worker_def)
qed

lemma complete_start_inv:
  assumes env: "env_ok X cx" and st: "steady_sys X D s" and m: "result_matches (OpStart k d h) r"
  shows "outcome X (steady_sys X D) (complete_start cx now k h r s)"
proof (cases "map_option tp_state (hm_get (wk_pods (sy_worker s)) k) = Some Starting")
  case True
  then obtain p where p: "hm_get (wk_pods (sy_worker s)) k = Some p" "tp_state p = Starting" by auto
  have hp: "tp_handle p \<noteq> None" using steady_pod [OF st p(1)] p(2) by (simp add: pod_ok_def)
  have "steady X D (update_pod k (\<lambda>pod. pod\<lparr>tp_state := Running, tp_state_changed_at := now,
      tp_lifecycle_failures := 0, tp_lifecycle_retry_after_tick := 0\<rparr>) (sy_worker s))"
    by (rule steady_update [OF st p(1)]) (use p hp in \<open>simp_all add: same_claim_def pod_ok_def\<close>)
  then show ?thesis
    using m p start_failed_inv [OF env st p]
    by (cases r) (auto simp: complete_start_def split: sum.split intro!: outcome_send [OF env])
qed (use st in \<open>simp add: complete_start_def\<close>)

lemma complete_stop_inv:
  assumes env: "env_ok X cx" and st: "steady_sys X D s" and m: "result_matches (OpStop k h g a) r"
  shows "outcome X (steady_sys X D) (complete_stop cx now k r s)"
proof (cases "map_option tp_state (hm_get (wk_pods (sy_worker s)) k) = Some Stopping")
  case True
  then obtain p where p: "hm_get (wk_pods (sy_worker s)) k = Some p" "tp_state p = Stopping" by auto
  show ?thesis
    using m p complete_pod_stop_inv [OF env st p] schedule_stop_retry_inv [OF st p]
    by (cases r) (auto simp: complete_stop_def split: sum.split intro!: outcome_on_worker)
qed (use st in \<open>simp add: complete_stop_def\<close>)

lemma complete_op_inv:
  assumes env: "env_ok X cx" and st: "steady_sys X D s" and t: "finished t"
  shows "outcome X (steady_sys X D) (complete_op cx now t s)"
  using t st complete_pull_inv [OF env] complete_create_inv [OF env] complete_start_inv [OF env]
    complete_stop_inv [OF env]
  by (cases "(cx, now, t)" rule: complete_op.cases) (auto simp: finished_def split: option.splits)

lemma drive_pods_inv:
  assumes env: "env_ok X cx" and st: "steady_sys X D s" and D: "D = dom (hm_get (wk_pods (sy_worker s)))"
  shows "outcome X (steady_sys X D) (drive_pods cx sched now s)"
  unfolding drive_pods_def
proof (rule outcome_and_then [OF scan_pods_inv [OF env st D]])
  fix sc :: "('a, 'b) scan" assume sc: "steady_sys X D (snd sc)"
  obtain ops s1 where [simp]: "sc = (ops, s1)" by (cases sc)
  have "outcome X (steady_sys X D) (call
      (run_chunks (cx_rt cx) sched (wk_lifecycle_concurrency (sy_worker s1)) 0 (sort_key op_key ops))
      (fold_res (complete_op cx now)) s1)"
    by (rule outcome_call [OF run_chunks_yields [OF env_okD(2) [OF env]]])
       (use sc in \<open>auto intro!: outcome_fold_res complete_op_inv [OF env] simp: list_all_iff\<close>)
  then show "outcome X (steady_sys X D) (case sc of (ops, s1) \<Rightarrow> call
      (run_chunks (cx_rt cx) sched (wk_lifecycle_concurrency (sy_worker s1)) 0 (sort_key op_key ops))
      (fold_res (complete_op cx now)) s1)" by simp
qed

section \<open>Handlers\<close>

abbreviation inv_sys :: "('e, 'i) sys \<Rightarrow> bool" where
  "inv_sys s \<equiv> worker_inv (sy_worker s)"

lemma admitted_sum:
  fixes a b c :: "'a::len word"
  assumes "\<not> saturating_add a b > c" "c < - 1"
  shows "unat (a + b) = unat a + unat b" "a + b \<le> c"
proof -
  have le: "unat a + unat b \<le> unat c" using assms saturating_add_le_imp [of a b c] by auto
  then show "unat (a + b) = unat a + unat b"
    using unat_less_pow [of c] by (intro unat_add_no_overflow) (rule le_less_trans)
  with le show "a + b \<le> c" by (simp add: word_le_nat_alt)
qed

lemma used_insert_new:
  assumes "hm_wf m" "hm_get m k = None" "\<not> is_terminal (tp_state q)"
  shows "used g (hm_insert k q m) = g q + used g m"
  using hm.total_ins_new [OF assms(1,2), of "\<lambda>p. if is_terminal (tp_state p) then 0 else g p" q] assms(3)
  by (simp add: used_def)

text \<open>The worker right after a pod is admitted.\<close>

definition admitted :: "start_pod_cmd \<Rightarrow> tracked_pod \<Rightarrow> secret_resolver \<Rightarrow> worker \<Rightarrow> worker" where
  "admitted cmd pod r w =
     (allocate cmd w)\<lparr>wk_secret_resolver := r, wk_pods := hm_insert (sp_pod_id cmd) pod (wk_pods w)\<rparr>"

lemma admitted_inv:
  assumes inv: "worker_inv w" and new: "hm_get (wk_pods w) (sp_pod_id cmd) = None"
    and room: "hm_len (wk_pods w) < MAX_TRACKED_PODS" and ok: "start_rejection cmd w = None"
  shows "worker_inv (admitted cmd (new_pod cmd now ev auth) r w)"
proof -
  have core: "core_inv w" using inv by (simp add: worker_inv_def)
  then have wf: "hm_wf (wk_pods w)" by (rule core_inv_wf)
  have live: "\<not> is_terminal (tp_state (new_pod cmd now ev auth))" by (simp add: new_pod_def)
  have g: "\<not> saturating_add (wk_gpu_allocated w) (sp_gpu_count cmd) > wk_gpu_total w"
      "\<not> saturating_add (wk_cpu_allocated_millicores w) (sp_cpu_millicores cmd) > wk_cpu_millicores w"
      "\<not> saturating_add (wk_memory_allocated_megabytes w) (sp_memory_megabytes cmd) > wk_memory_megabytes w"
    using ok by (auto simp: start_rejection_def split: if_splits)
  have sz: "wk_gpu_total w < - 1" "wk_cpu_millicores w < - 1" "wk_memory_megabytes w < - 1"
    using core by (simp_all add: core_inv_def node_size_ok_def)
  have "accounted (admitted cmd (new_pod cmd now ev auth) r w)"
    using core admitted_sum [OF g(1) sz(1)] admitted_sum [OF g(2) sz(2)] admitted_sum [OF g(3) sz(3)]
    by (simp add: core_inv_def accounted_def admitted_def allocate_def used_insert_new [OF wf new live])
       (simp add: new_pod_def)
  then have "core_inv (admitted cmd (new_pod cmd now ev auth) r w)"
    using core new unfolding core_inv_def pods_ok_def pending_ok_def node_size_ok_def
    by (auto simp: admitted_def allocate_def new_pod_def pod_ok_def)
  moreover have "terminal_count (admitted cmd (new_pod cmd now ev auth) r w) = terminal_count w"
    using hm.total_ins_new [OF wf new, of "\<lambda>p. if is_terminal (tp_state p) then 1 else 0"] live
    by (simp add: terminal_count_total admitted_def)
  ultimately show ?thesis
    using inv room new
    by (simp add: worker_inv_def) (simp add: admitted_def hm_len_insert [OF wf])
qed

lemma admit_pod_inv:
  assumes env: "env_ok X cx" and inv: "inv_sys s" and new: "hm_get (wk_pods (sy_worker s)) (sp_pod_id cmd) = None"
    and room: "hm_len (wk_pods (sy_worker s)) < MAX_TRACKED_PODS" and ok: "start_rejection cmd (sy_worker s) = None"
  shows "outcome X inv_sys (admit_pod cx cmd now s)"
proof -
  have *: "inv_sys (s'\<lparr>sy_worker := (allocate cmd (sy_worker s))\<lparr>wk_secret_resolver := r,
      wk_pods := hm_insert (sp_pod_id cmd) (new_pod cmd now ev auth) (wk_pods (sy_worker s))\<rparr>\<rparr>)" for s' r ev auth
    using admitted_inv [OF inv new room ok, of now ev auth r] by (simp add: admitted_def)
  have pods: "wk_pods (allocate cmd w) = wk_pods w" for w by (simp add: allocate_def)
  show ?thesis
    unfolding admit_pod_def Let_def
    by (rule outcome_call [OF resolve_ok [OF env_okD(1) [OF env]]], clarsimp,
        rule outcome_call [OF resolve_plain_ok [OF env_okD(1) [OF env]]])
       (use * in \<open>auto simp: pods intro!: outcome_send [OF env]\<close>)
qed

lemma handle_start_pod_inv:
  assumes env: "env_ok X cx" and inv: "inv_sys s"
  shows "outcome X inv_sys (handle_start_pod cx cmd now s)"
proof (cases "hm_get (wk_pods (sy_worker s)) (sp_pod_id cmd)")
  case None
  have core: "core_inv (sy_worker s)" using inv by (simp add: worker_inv_def)
  obtain w where w: "prune_terminal_pods_to MAX_TERMINAL_TOMBSTONES (sy_worker s) = Inr w" "core_inv w"
      "terminal_count w = min (terminal_count (sy_worker s)) MAX_TERMINAL_TOMBSTONES"
      "hm_len (wk_pods w) \<le> hm_len (wk_pods (sy_worker s))"
      "w = (sy_worker s)\<lparr>wk_pods := fold hm_remove (pruned MAX_TERMINAL_TOMBSTONES (sy_worker s)) (wk_pods (sy_worker s))\<rparr>"
    by (rule prune_inv [OF core order_refl])
  have "worker_inv w" using inv w by (simp add: worker_inv_def)
  moreover have "hm_get (wk_pods w) (sp_pod_id cmd) = None" using None by (simp add: w(5) get_fold_remove)
  ultimately show ?thesis
    using None w(1) admit_pod_inv [OF env, of "s\<lparr>sy_worker := w\<rparr>"]
    by (auto simp: handle_start_pod_def on_worker_def reject_start_def split: option.split
          intro!: outcome_send [OF env])
qed (use inv in \<open>simp add: handle_start_pod_def outcome_send [OF env]\<close>)

lemma min_by_pod_id_in: "min_by_pod_id ps = Some p \<Longrightarrow> p \<in> set ps"
  by (induction ps arbitrary: p) (auto split: option.splits if_splits)

lemma handle_run_request_inv:
  assumes env: "env_ok X cx" and inv: "inv_sys s"
  shows "outcome X inv_sys (handle_run_request cx cmd s)"
proof -
  have fwd: "calls_ok X (rt_forward_run (cx_rt cx) h p b)" for h p b
    by (rule rt_okD [OF env_okD(2) [OF env]])
  show ?thesis
    using inv
    by (auto simp: handle_run_request_def routable_def dest!: min_by_pod_id_in split: option.split sum.split
          intro!: outcome_send [OF env] outcome_call [OF fwd])
qed

lemma handle_message_inv:
  assumes env: "env_ok X cx" and inv: "inv_sys s"
  shows "outcome X inv_sys (handle_message cx m now s)"
proof (cases m)
  case (StopPod cmd)
  have "steady UNIV {} (handle_stop_pod cmd now (sy_worker s))"
    by (rule handle_stop_pod_inv) (simp add: steady_def inv)
  then show ?thesis using StopPod by (simp add: modify_worker_def steady_def)
next
  case (ProbePod cmd)
  then show ?thesis
    using inv by (auto simp: handle_probe_pod_def split: option.split intro!: outcome_send [OF env])
qed (simp_all add: handle_start_pod_inv [OF env inv] handle_run_request_inv [OF env inv])

end
