(* ===== verification/Worker_Tick.thy ===== *)
theory Worker_Tick
  imports Worker_Safety
begin

text \<open>
  The tick as a whole: it returns for every link that hands out finitely many messages at a time,
  keeps the invariant, and panics only where the environment does or where the scan meets a
  pruned tombstone.
\<close>

section \<open>Finite links\<close>

text \<open>
  What the receive loop relies on: receiving a message uses one up, and sending adds none.
\<close>

locale finite_link =
  fixes io :: "'i io" and pending :: "'i \<Rightarrow> nat"
  assumes recv_uses: "io_recv io i = Inr (Some m, i') \<Longrightarrow> pending i' < pending i"
    and send_adds_none: "io_send io w i = Inr i' \<Longrightarrow> pending i' \<le> pending i"
begin

lemma send_bound:
  "cx_io cx = io \<Longrightarrow> send cx m s = Inr s' \<Longrightarrow> pending (sy_io s') \<le> pending (sy_io s)"
  using send_adds_none by (auto simp: send_def and_then_Inr)

lemma handle_message_bound:
  assumes "cx_io cx = io" "handle_message cx m now s = Inr s'"
  shows "pending (sy_io s') \<le> pending (sy_io s)"
proof (cases m)
  case (StartPod cmd)
  with assms show ?thesis
    by (auto simp: handle_start_pod_def on_worker_def reject_start_def admit_pod_def call_def and_then_Inr
          Let_def split: option.splits if_splits prod.splits dest!: send_bound [OF assms(1)])
next
  case (StopPod cmd)
  with assms show ?thesis by (auto simp: modify_worker_def)
next
  case (ProbePod cmd)
  with assms show ?thesis
    by (auto simp: handle_probe_pod_def split: option.splits dest!: send_bound [OF assms(1)])
next
  case (RunRequest cmd)
  with assms show ?thesis
    by (auto simp: handle_run_request_def and_then_Inr elim!: callE split: option.splits sum.splits
          dest!: send_bound [OF assms(1)])
qed

lemma recv_loop_returns:
  assumes "cx_io cx = io"
  shows "\<exists>r. recv_loop cx now s = Some r"
proof (induction "pending (sy_io s)" arbitrary: s rule: less_induct)
  case less
  show ?case
  proof (cases "io_recv (cx_io cx) (sy_io s)")
    case (Inl e)
    then show ?thesis by (subst recv_loop.simps) simp
  next
    case (Inr mi)
    obtain m i where mi: "mi = (m, i)" by (cases mi)
    show ?thesis
    proof (cases m)
      case None
      with Inr mi show ?thesis by (subst recv_loop.simps) simp
    next
      case (Some msg)
      with Inr mi assms have lt: "pending i < pending (sy_io s)" using recv_uses by simp
      show ?thesis
      proof (cases "handle_message cx msg now (s\<lparr>sy_io := i\<rparr>)")
        case (Inl e)
        with Inr mi Some show ?thesis by (subst recv_loop.simps) simp
      next
        case (Inr s')
        have "pending (sy_io s') < pending (sy_io s)"
          using handle_message_bound [OF assms Inr] lt by simp
        then obtain r where "recv_loop cx now s' = Some r" using less by blast
        with Inr \<open>io_recv (cx_io cx) (sy_io s) = Inr mi\<close> mi Some show ?thesis
          by (subst recv_loop.simps) simp
      qed
    qed
  qed
qed

lemma tick_returns:
  assumes "cx_io cx = io"
  shows "\<exists>r. tick cx sched s = Some r"
proof (cases "register_step cx (io_now (cx_io cx) (sy_io s)) s")
  case (Inr s1)
  then show ?thesis using recv_loop_returns [OF assms, of _ s1] by (auto simp: tick_def Let_def)
qed (simp add: tick_def Let_def)

end

section \<open>The invariant over a tick\<close>

lemma recv_loop_inv:
  assumes "recv_loop cx now s = Some r" "env_ok X cx" "inv_sys s"
  shows "outcome X inv_sys r"
  using assms
proof (induction rule: recv_loop.raw_induct [rotated, consumes 1, case_names step])
  case (step recv_loop cx now s r)
  have recv: "outcome X (\<lambda>_. True) (io_recv (cx_io cx) (sy_io s))"
    using step(3) by (simp add: env_ok_def io_ok_def yields_def case_prod_unfold)
  show ?case
  proof (cases "io_recv (cx_io cx) (sy_io s)")
    case (Inl e)
    with step(2) recv show ?thesis by auto
  next
    case (Inr mi)
    obtain m i where mi: "mi = (m, i)" by (cases mi)
    show ?thesis
    proof (cases m)
      case None
      with step(2,4) Inr mi show ?thesis by auto
    next
      case (Some msg)
      have h: "outcome X inv_sys (handle_message cx msg now (s\<lparr>sy_io := i\<rparr>))"
        by (rule handle_message_inv [OF step(3)]) (use step(4) in simp)
      show ?thesis
      proof (cases "handle_message cx msg now (s\<lparr>sy_io := i\<rparr>)")
        case (Inl e)
        with step(2) Inr mi Some h show ?thesis by auto
      next
        case (Inr s')
        with step(2) \<open>io_recv (cx_io cx) (sy_io s) = Inr mi\<close> mi Some have "recv_loop cx now s' = Some r" by simp
        then show ?thesis using step(1) [of cx now s' r] step(3) h Inr by simp
      qed
    qed
  qed
qed

lemma register_step_inv:
  assumes "env_ok X cx" "inv_sys s"
  shows "outcome X inv_sys (register_step cx now s)"
proof -
  have flags: "worker_inv (w\<lparr>wk_registered := b, wk_last_heartbeat_tick := t\<rparr>) = worker_inv w" for w b t
    by (simp add: worker_inv_def inv_defs terminal_count_total)
  have "outcome X inv_sys (send cx (register_msg (sy_worker s)) s)"
    by (rule outcome_send) (use assms in simp_all)
  then show ?thesis
    using assms(2) flags
    by (auto simp: register_step_def modify_worker_def elim!: outcome_and_then)
qed

lemma heartbeat_step_inv:
  assumes "env_ok X cx" "inv_sys s"
  shows "outcome X inv_sys (heartbeat_step cx now s)"
proof -
  have flags: "worker_inv (w\<lparr>wk_last_heartbeat_tick := t\<rparr>) = worker_inv w" for w t
    by (simp add: worker_inv_def inv_defs terminal_count_total)
  have "outcome X inv_sys (send cx (heartbeat_msg now (sy_worker s)) s)"
    by (rule outcome_send) (use assms in simp_all)
  then show ?thesis
    using assms(2) flags
    by (auto simp: heartbeat_step_def modify_worker_def elim!: outcome_and_then)
qed

lemma tick_inv:
  assumes "tick cx sched s = Some r" and env: "env_ok X cx" and mk: "MISSING_KEY \<in> X" and inv: "inv_sys s"
  shows "outcome X inv_sys r"
proof -
  let ?now = "io_now (cx_io cx) (sy_io s)"
  have drive: "outcome X inv_sys (drive_pods cx sched ?now s2)" if "inv_sys s2" for s2
    by (rule outcome_mono [OF drive_pods_inv [OF env _ refl]]) (use that mk in \<open>auto simp: steady_def\<close>)
  have reg: "outcome X inv_sys (register_step cx ?now s)" by (rule register_step_inv [OF env inv])
  show ?thesis
  proof (cases "register_step cx ?now s")
    case (Inl e)
    with assms(1) reg show ?thesis by (auto simp: tick_def Let_def)
  next
    case (Inr s1)
    with assms(1) obtain r2 where r2: "recv_loop cx ?now s1 = Some r2"
        "r = and_then r2 (\<lambda>s2. and_then (drive_pods cx sched ?now s2) (heartbeat_step cx ?now))"
      by (auto simp: tick_def Let_def)
    have "outcome X inv_sys r2" by (rule recv_loop_inv [OF r2(1) env]) (use reg Inr in simp)
    then show ?thesis
      unfolding r2(2) by (elim outcome_and_then) (blast intro: outcome_and_then [OF drive] heartbeat_step_inv [OF env])
  qed
qed

section \<open>The start\<close>

lemma worker_new_inv:
  assumes "gpu < - 1" "cpu < - 1" "mem < - 1"
  shows "worker_inv (worker_new r n t gpu cpu mem)"
    "worker_inv (new_with_lifecycle_concurrency r n t gpu cpu mem c)"
  using assms
  by (simp_all add: worker_inv_def inv_defs terminal_count_def terminal_entries_def worker_new_def
        new_with_lifecycle_concurrency_def used_def hm.total_def hm_eval)

end
