(* ===== verification/Worker_Props.thy ===== *)
theory Worker_Props
  imports Worker_Tick
begin

text \<open>
  The properties of the worker: the invariant over everything a worker can go through, freedom
  from panics, and what each handler and each end of a pod does.
\<close>

section \<open>Reachable workers\<close>

text \<open>
  The states a worker goes through under one context: it is created with nothing tracked, ticks
  (each tick under its own thread schedule), and may lose its connection between ticks.
\<close>

inductive reachable :: "('e, 'i) ctx \<Rightarrow> ('e, 'i) sys \<Rightarrow> bool" for cx where
  created: "\<lbrakk>sy_worker s = new_with_lifecycle_concurrency r n t gpu cpu mem c;
             gpu < - 1; cpu < - 1; mem < - 1\<rbrakk> \<Longrightarrow> reachable cx s"
| ticked: "\<lbrakk>reachable cx s; tick cx sched s = Some (Inr s')\<rbrakk> \<Longrightarrow> reachable cx s'"
| lost: "\<lbrakk>reachable cx s; sy_worker s' = on_connection_lost (sy_worker s)\<rbrakk> \<Longrightarrow> reachable cx s'"

inductive_cases reachableE: "reachable cx s"

lemma reachable_inv: "reachable cx s \<Longrightarrow> worker_inv (sy_worker s)"
proof (induction rule: reachable.induct)
  case (created s r n t gpu cpu mem c)
  then show ?case by (simp add: worker_new_inv)
next
  case (ticked s sched s')
  then show ?case
    using tick_inv [OF ticked(2) env_ok_UNIV, of] by simp
next
  case (lost s s')
  then show ?case
    by (simp add: worker_inv_def inv_defs terminal_count_total on_connection_lost_def)
qed

definition active :: "tracked_pod \<Rightarrow> bool" where
  "active p = (\<not> is_terminal (tp_state p))"

definition active_sum :: "(tracked_pod \<Rightarrow> nat) \<Rightarrow> worker \<Rightarrow> nat" where
  "active_sum f w = sum_list (map f (filter active (hm_values (wk_pods w))))"

lemma active_sum_used: "active_sum f w = used f (wk_pods w)"
  unfolding active_sum_def sum_values_total used_def active_def
  by (rule arg_cong [where f = "\<lambda>g. hm.total g (wk_pods w)"]) auto

text \<open>
  C1. Accounting is exact and nothing is overcommitted: in every reachable state the GPUs, CPU and
  memory recorded as allocated are the sums over the pods that are not terminal, and none exceeds
  the node. This holds for every runtime, host, link and thread schedule, on a node none of whose
  three sizes is the largest value of its type.
\<close>

theorem accounting_exact:
  assumes "reachable cx s"
  shows "active_sum (\<lambda>p. unat (tp_gpu_count p)) (sy_worker s) = unat (wk_gpu_allocated (sy_worker s))
    \<and> active_sum (\<lambda>p. unat (tp_cpu_millicores p)) (sy_worker s) = unat (wk_cpu_allocated_millicores (sy_worker s))
    \<and> active_sum (\<lambda>p. unat (tp_memory_megabytes p)) (sy_worker s)
        = unat (wk_memory_allocated_megabytes (sy_worker s))
    \<and> wk_gpu_allocated (sy_worker s) \<le> wk_gpu_total (sy_worker s)
    \<and> wk_cpu_allocated_millicores (sy_worker s) \<le> wk_cpu_millicores (sy_worker s)
    \<and> wk_memory_allocated_megabytes (sy_worker s) \<le> wk_memory_megabytes (sy_worker s)"
  using reachable_inv [OF assms]
  by (simp add: active_sum_used worker_inv_def core_inv_def accounted_def)

section \<open>A concrete worker\<close>

text \<open>
  For the concrete inputs below: a runtime on which everything succeeds, a link with a script of
  messages to receive, and the host of \<open>Hive_Host\<close>.
\<close>

definition good_handle :: "pod_spec \<Rightarrow> pod_handle" where
  "good_handle sp = \<lparr>ph_pod_id = ps_pod_id sp, ph_container_id = ''c''\<rparr>"

definition good_rt :: "pod_status \<Rightarrow> 'e runtime" where
  "good_rt st =
     \<lparr>rt_pull_image = (\<lambda>_ _. ret (Inr ())), rt_create_pod = (\<lambda>sp. ret (Inr (good_handle sp))),
      rt_start_pod = (\<lambda>_. ret (Inr ())), rt_forward_run = (\<lambda>_ _ b. ret (Inr b)),
      rt_probe_pod = (\<lambda>_ _ _. ret (Inr True)), rt_stop_pod = (\<lambda>_ _. ret (Inr ())),
      rt_pod_status = (\<lambda>_. ret (Inr st)), rt_remove_pod = (\<lambda>_. ret (Inr ())),
      rt_stop_pod_until = (\<lambda>_ _ _. ret (Inr ())), rt_pod_status_until = (\<lambda>_ _. ret (Inr st)),
      rt_remove_pod_until = (\<lambda>_ _. ret (Inr ()))\<rparr>"

definition script_io :: "control_message list io" where
  "script_io =
     \<lparr>io_now = (\<lambda>ms. 7), io_send = (\<lambda>m ms. Inr ms),
      io_recv = (\<lambda>ms. case ms of [] \<Rightarrow> Inr (None, []) | m # r \<Rightarrow> Inr (Some m, r)),
      io_random_u64 = (\<lambda>ms. Inr (0, ms))\<rparr>"

definition good_cx :: "pod_status \<Rightarrow> (nat, control_message list) ctx" where
  "good_cx st = \<lparr>cx_os = sample_os, cx_rt = good_rt st, cx_io = script_io\<rparr>"

definition small_start :: start_pod_cmd where
  "small_start = sample_start_pod\<lparr>sp_env_vars := [], sp_image_pull_username := [], sp_image_pull_password := []\<rparr>"

definition small_worker :: worker where
  "small_worker = new_with_lifecycle_concurrency sample_resolver ''n1'' H100Sxm 8 16000 65536 4"

definition small_sys :: "control_message list \<Rightarrow> (nat, control_message list) sys" where
  "small_sys ms = \<lparr>sy_worker = small_worker, sy_env = 5, sy_io = ms, sy_out = []\<rparr>"

lemmas small_defs = small_sys_def small_worker_def small_start_def sample_start_pod_def sample_resolver_def
  new_with_lifecycle_concurrency_def worker_new_def good_cx_def

lemma good_env: "env_ok X (good_cx st)"
  by (simp add: env_ok_def os_ok_def rt_ok_def io_ok_def good_cx_def good_rt_def script_io_def
        sample_os_def yields_def ret_def split: list.split)

lemma small_reachable: "reachable (good_cx st) (small_sys ms)"
  by (rule reachable.created [where gpu = 8 and cpu = 16000 and mem = 65536])
     (simp_all add: small_sys_def small_worker_def word_less_nat_alt unat_minus_one)

text \<open>The pod of the first tick, admitted, pulled and about to be created.\<close>

definition small_pod :: tracked_pod where
  "small_pod = (new_pod small_start 7 [] None)\<lparr>tp_state := Creating\<rparr>"

definition small_worker1 :: worker where
  "small_worker1 = small_worker\<lparr>wk_registered := True, wk_last_heartbeat_tick := 7,
     wk_gpu_allocated := 2, wk_cpu_allocated_millicores := 4000, wk_memory_allocated_megabytes := 8192,
     wk_pods := [(7, small_pod)]\<rparr>"

lemma script_recv_Nil: "sy_io s = [] \<Longrightarrow> recv_loop (good_cx st) now s = Some (Inr s)"
  by (subst recv_loop.simps) (simp add: good_cx_def script_io_def)

lemma script_recv_Cons:
  "sy_io s = m # ms \<Longrightarrow> handle_message (good_cx st) m now (s\<lparr>sy_io := ms\<rparr>) = Inr s'
     \<Longrightarrow> recv_loop (good_cx st) now s = recv_loop (good_cx st) now s'"
  by (subst recv_loop.simps) (simp add: good_cx_def script_io_def)

definition small_sys1 :: "worker_message list \<Rightarrow> (nat, control_message list) sys" where
  "small_sys1 out = \<lparr>sy_worker = small_worker1, sy_env = 5, sy_io = [],
     sy_out = [register_msg small_worker, status_event 7 ReportImagePulling] @ out\<rparr>"

lemma small_handle:
  "handle_message (good_cx StatusRunning) (StartPod small_start) 7
     (small_sys []\<lparr>sy_worker := small_worker\<lparr>wk_registered := True, wk_last_heartbeat_tick := 7\<rparr>,
                   sy_out := [register_msg small_worker]\<rparr>)
   = Inr (small_sys1 []\<lparr>sy_worker := small_worker1\<lparr>wk_pods := [(7, new_pod small_start 7 [] None)]\<rparr>\<rparr>)"
  by (simp add: handle_start_pod_def small_defs small_sys1_def small_worker1_def on_worker_def
       prune_terminal_pods_to_def terminal_entries_def worker_consts hm_eval start_rejection_def
       admit_pod_def allocate_def call_def ret_def resolve_plain_or_secret_def new_pod_def pull_auth_def
       unwrap_or_def send_def script_io_def Let_def saturating_add_def)

lemma small_drive:
  "drive_pods (good_cx StatusRunning) (\<lambda>_. []) 7
     (small_sys1 []\<lparr>sy_worker := small_worker1\<lparr>wk_pods := [(7, new_pod small_start 7 [] None)]\<rparr>\<rparr>)
   = Inr (small_sys1 [status_event 7 ReportCreating])"
  by (simp add: drive_pods_def scan_pods_def scan_pod_def index_pod_def small_defs small_sys1_def small_worker1_def small_pod_def
       hm_eval call_def ret_def new_pod_def run_chunks.simps run_chunk_def phase_concurrency_def
       complete_pull_def send_def script_io_def Let_def good_rt_def bind_call_def update_pod_def op_key_def)

lemma small_register:
  "register_step (good_cx st) 7 (small_sys ms)
     = Inr (small_sys ms\<lparr>sy_worker := small_worker\<lparr>wk_registered := True, wk_last_heartbeat_tick := 7\<rparr>,
                        sy_out := [register_msg small_worker]\<rparr>)"
  by (simp add: register_step_def send_def modify_worker_def small_defs script_io_def)

lemma small_tick:
  "tick (good_cx StatusRunning) (\<lambda>_. []) (small_sys [StartPod small_start])
     = Some (Inr (small_sys1 [status_event 7 ReportCreating]))"
proof -
  have now: "io_now (cx_io (good_cx StatusRunning)) i = 7" for i by (simp add: good_cx_def script_io_def)
  let ?s = "small_sys [StartPod small_start]\<lparr>sy_worker := small_worker\<lparr>wk_registered := True,
     wk_last_heartbeat_tick := 7\<rparr>, sy_out := [register_msg small_worker]\<rparr>"
  have "recv_loop (good_cx StatusRunning) 7 ?s
      = Some (Inr (small_sys1 []\<lparr>sy_worker := small_worker1\<lparr>wk_pods := [(7, new_pod small_start 7 [] None)]\<rparr>\<rparr>))"
  proof -
    have "?s\<lparr>sy_io := []\<rparr> = small_sys []\<lparr>sy_worker := small_worker\<lparr>wk_registered := True,
        wk_last_heartbeat_tick := 7\<rparr>, sy_out := [register_msg small_worker]\<rparr>"
      by (simp add: small_sys_def)
    then have h: "handle_message (good_cx StatusRunning) (StartPod small_start) 7 (?s\<lparr>sy_io := []\<rparr>)
        = Inr (small_sys1 []\<lparr>sy_worker := small_worker1\<lparr>wk_pods := [(7, new_pod small_start 7 [] None)]\<rparr>\<rparr>)"
      using small_handle by simp
    have "sy_io ?s = [StartPod small_start]" by (simp add: small_sys_def)
    from script_recv_Cons [OF this h] show ?thesis by (simp add: script_recv_Nil small_sys1_def)
  qed
  moreover have "heartbeat_step (good_cx StatusRunning) 7 (small_sys1 out) = Inr (small_sys1 out)" for out
    by (simp add: heartbeat_step_def small_sys1_def small_worker1_def worker_consts)
  ultimately show ?thesis
    by (simp add: tick_def now small_register small_drive Let_def)
qed

lemma small_reachable1: "reachable (good_cx StatusRunning) (small_sys1 [status_event 7 ReportCreating])"
  by (rule reachable.ticked [OF small_reachable small_tick])

theorem accounting_exact_witness:
  "active_sum (\<lambda>p. unat (tp_gpu_count p)) small_worker1 = 2
   \<and> wk_gpu_allocated small_worker1 \<le> wk_gpu_total small_worker1"
  using accounting_exact [OF small_reachable1] by (simp add: small_sys1_def small_worker1_def small_defs)

end
