(* ===== verification/Rust_Std.thy ===== *)
theory Rust_Std
  imports Rust_Text "HOL-Library.Sublist"
begin

text \<open>
  More of the Rust standard library on strings, as the runtime back ends and the command line use
  it: trimming, splitting, searching and replacing, number parsing, and the socket address parser of
  \<open>core::net\<close>. Strings are their UTF-8 bytes. A white-space character cannot start inside
  another character, so trimming may look at every byte position.
\<close>

section \<open>Trimming\<close>

lemma ws_width_Nil [simp]: "ws_width [] = 0"
  by (simp add: ws_width_def)

function trim_start :: "string \<Rightarrow> string" where
  "trim_start s = (if ws_width s = 0 then s else trim_start (drop (ws_width s) s))"
  by pat_completeness auto
termination
proof (relation "measure length")
  show "(drop (ws_width s) s, s) \<in> measure length" if "ws_width s \<noteq> 0" for s
    using that by (cases s) auto
qed simp

declare trim_start.simps [simp del]

fun trim_end :: "string \<Rightarrow> string" where
  "trim_end [] = []"
| "trim_end (c # cs) = (if trim_start (c # cs) = [] then [] else c # trim_end cs)"

definition trim :: "string \<Rightarrow> string" where
  "trim s = trim_end (trim_start s)"

function trim_end_matches :: "string \<Rightarrow> string \<Rightarrow> string" where
  "trim_end_matches pat s =
     (if pat \<noteq> [] \<and> suffix pat s then trim_end_matches pat (take (length s - length pat) s) else s)"
  by pat_completeness auto
termination
  by (relation "measure (length \<circ> snd)") (auto simp: suffix_def)

declare trim_end_matches.simps [simp del]

section \<open>Searching, splitting, replacing\<close>

fun contains :: "string \<Rightarrow> string \<Rightarrow> bool" where
  "contains pat [] = (pat = [])"
| "contains pat (c # cs) = (prefix pat (c # cs) \<or> contains pat cs)"

fun split_on_from :: "char \<Rightarrow> string \<Rightarrow> string \<Rightarrow> string list" where
  "split_on_from sep acc [] = [rev acc]"
| "split_on_from sep acc (c # cs) =
     (if c = sep then rev acc # split_on_from sep [] cs else split_on_from sep (c # acc) cs)"

definition split_on :: "char \<Rightarrow> string \<Rightarrow> string list" where
  "split_on sep s = split_on_from sep [] s"

fun join :: "string \<Rightarrow> string list \<Rightarrow> string" where
  "join sep [] = []"
| "join sep [x] = x"
| "join sep (x # xs) = x @ sep @ join sep xs"

text \<open>\<open>str::replace\<close> with a pattern that is not empty.\<close>

function replace_all :: "string \<Rightarrow> string \<Rightarrow> string \<Rightarrow> string" where
  "replace_all pat new s =
     (if s = [] \<or> pat = [] then s
      else if prefix pat s then new @ replace_all pat new (drop (length pat) s)
      else hd s # replace_all pat new (tl s))"
  by pat_completeness auto
termination
  by (relation "measure (\<lambda>(p, n, s). length s)") auto

declare replace_all.simps [simp del]

section \<open>Numbers\<close>

definition is_ascii_digit :: "char \<Rightarrow> bool" where
  "is_ascii_digit c = (48 \<le> (of_char c :: nat) \<and> (of_char c :: nat) \<le> 57)"

definition digits_value :: "nat \<Rightarrow> string \<Rightarrow> nat option" where
  "digits_value bound ds =
     (if ds = [] \<or> \<not> list_all is_ascii_digit ds then None
      else if undigits 0 ds < bound then Some (undigits 0 ds) else None)"

definition strip_plus :: "string \<Rightarrow> string" where
  "strip_plus s = (if s \<noteq> [] \<and> hd s = CHR ''+'' then tl s else s)"

text \<open>\<open>str::parse\<close> for an unsigned type with the given number of values.\<close>

definition parse_unsigned :: "nat \<Rightarrow> string \<Rightarrow> nat option" where
  "parse_unsigned bound s = digits_value bound (strip_plus s)"

definition parse_u16 :: "string \<Rightarrow> u16 option" where
  "parse_u16 s = map_option word_of_nat (parse_unsigned (2 ^ 16) s)"

definition parse_u64 :: "string \<Rightarrow> u64 option" where
  "parse_u64 s = map_option word_of_nat (parse_unsigned (2 ^ 64) s)"

definition parse_usize :: "string \<Rightarrow> nat option" where
  "parse_usize s = parse_unsigned (2 ^ 64) s"

definition parse_i32 :: "string \<Rightarrow> int option" where
  "parse_i32 s =
     (if s \<noteq> [] \<and> hd s = CHR ''-'' then map_option (\<lambda>n. - int n) (digits_value (2 ^ 31 + 1) (tl s))
      else map_option int (parse_unsigned (2 ^ 31) s))"

section \<open>Socket addresses\<close>

text \<open>
  The recursive-descent parser behind \<open>SocketAddr::from_str\<close>. A parser gives its result and the
  rest of the input, or \<open>None\<close> with the input untouched.
\<close>

datatype socket_addr =
    SocketV4 "nat list" u16
  | SocketV6 "nat list" nat u16

definition to_digit :: "nat \<Rightarrow> char \<Rightarrow> nat option" where
  "to_digit radix c =
     (let n = of_char c;
          d = (if 48 \<le> n \<and> n \<le> 57 then n - 48 else if 97 \<le> n \<and> n \<le> 122 then n - 87
               else if 65 \<le> n \<and> n \<le> 90 then n - 55 else radix)
      in if d < radix then Some d else None)"

definition radix_value :: "nat \<Rightarrow> string \<Rightarrow> nat" where
  "radix_value radix ds = foldl (\<lambda>acc c. radix * acc + the (to_digit radix c)) 0 ds"

definition read_number :: "nat \<Rightarrow> nat option \<Rightarrow> bool \<Rightarrow> nat \<Rightarrow> string \<Rightarrow> (nat \<times> string) option" where
  "read_number radix max_digits allow_zero_prefix bound s =
     (let ds = takeWhile (\<lambda>c. to_digit radix c \<noteq> None) s in
      if (case max_digits of None \<Rightarrow> False | Some m \<Rightarrow> m < length ds) then None
      else if ds = [] then None
      else if \<not> allow_zero_prefix \<and> hd ds = CHR ''0'' \<and> 1 < length ds then None
      else if radix_value radix ds < bound then Some (radix_value radix ds, drop (length ds) s)
      else None)"

definition read_given_char :: "char \<Rightarrow> string \<Rightarrow> string option" where
  "read_given_char c s = (case s of [] \<Rightarrow> None | x # xs \<Rightarrow> if x = c then Some xs else None)"

definition read_separator ::
    "char \<Rightarrow> nat \<Rightarrow> (string \<Rightarrow> ('a \<times> string) option) \<Rightarrow> string \<Rightarrow> ('a \<times> string) option" where
  "read_separator sep i inner s =
     (if 0 < i then Option.bind (read_given_char sep s) inner else inner s)"

definition read_octet :: "string \<Rightarrow> (nat \<times> string) option" where
  "read_octet = read_number 10 (Some 3) False 256"

definition read_ipv4_addr :: "string \<Rightarrow> (nat list \<times> string) option" where
  "read_ipv4_addr s =
     Option.bind (read_separator (CHR ''.'') 0 read_octet s) (\<lambda>(a, s1).
     Option.bind (read_separator (CHR ''.'') 1 read_octet s1) (\<lambda>(b, s2).
     Option.bind (read_separator (CHR ''.'') 2 read_octet s2) (\<lambda>(c, s3).
     Option.bind (read_separator (CHR ''.'') 3 read_octet s3) (\<lambda>(d, s4). Some ([a, b, c, d], s4)))))"

text \<open>The groups read, whether an embedded IPv4 address ended them, and the rest.\<close>

function read_groups :: "nat \<Rightarrow> nat \<Rightarrow> string \<Rightarrow> nat list \<times> bool \<times> string" where
  "read_groups limit i s =
     (if limit \<le> i then ([], False, s)
      else case (if i + 1 < limit then read_separator (CHR '':'') i read_ipv4_addr s else None) of
          Some (v4, s') \<Rightarrow> ([256 * (v4 ! 0) + v4 ! 1, 256 * (v4 ! 2) + v4 ! 3], True, s')
        | None \<Rightarrow>
            (case read_separator (CHR '':'') i (read_number 16 (Some 4) True (2 ^ 16)) s of
               None \<Rightarrow> ([], False, s)
             | Some (g, s') \<Rightarrow> (let (gs, v4, s'') = read_groups limit (i + 1) s' in (g # gs, v4, s''))))"
  by pat_completeness auto
termination
  by (relation "measure (\<lambda>(limit, i, s). limit - i)") auto

declare read_groups.simps [simp del]

definition read_ipv6_addr :: "string \<Rightarrow> (nat list \<times> string) option" where
  "read_ipv6_addr s =
     (let (head, head_ipv4, s1) = read_groups 8 0 s in
      if length head = 8 then Some (head, s1)
      else if head_ipv4 then None
      else Option.bind (read_given_char (CHR '':'') s1) (\<lambda>s2.
           Option.bind (read_given_char (CHR '':'') s2) (\<lambda>s3.
             let (tail, _, s4) = read_groups (8 - (length head + 1)) 0 s3
             in Some (head @ replicate (8 - length head - length tail) 0 @ tail, s4))))"

definition read_port :: "string \<Rightarrow> (nat \<times> string) option" where
  "read_port s = Option.bind (read_given_char (CHR '':'') s) (read_number 10 None True (2 ^ 16))"

definition read_scope_id :: "string \<Rightarrow> (nat \<times> string) option" where
  "read_scope_id s = Option.bind (read_given_char (CHR ''%'') s) (read_number 10 None True (2 ^ 32))"

definition read_socket_addr_v4 :: "string \<Rightarrow> (socket_addr \<times> string) option" where
  "read_socket_addr_v4 s =
     Option.bind (read_ipv4_addr s) (\<lambda>(ip, s1).
     Option.bind (read_port s1) (\<lambda>(port, s2). Some (SocketV4 ip (word_of_nat port), s2)))"

definition read_socket_addr_v6 :: "string \<Rightarrow> (socket_addr \<times> string) option" where
  "read_socket_addr_v6 s =
     Option.bind (read_given_char (CHR ''['') s) (\<lambda>s1.
     Option.bind (read_ipv6_addr s1) (\<lambda>(ip, s2).
       let (scope, s3) = (case read_scope_id s2 of None \<Rightarrow> (0, s2) | Some r \<Rightarrow> r) in
     Option.bind (read_given_char (CHR '']'') s3) (\<lambda>s4.
     Option.bind (read_port s4) (\<lambda>(port, s5). Some (SocketV6 ip scope (word_of_nat port), s5)))))"

definition parse_socket_addr :: "string \<Rightarrow> socket_addr option" where
  "parse_socket_addr s =
     (case (case read_socket_addr_v4 s of Some r \<Rightarrow> Some r | None \<Rightarrow> read_socket_addr_v6 s) of
        Some (addr, []) \<Rightarrow> Some addr
      | _ \<Rightarrow> None)"

section \<open>Lemmas\<close>

lemma contains_sublist: "contains pat s \<longleftrightarrow> sublist pat s"
  by (induction s) (auto simp: sublist_Cons_right)

lemma is_ascii_digit_dec: "list_all is_ascii_digit (dec n)"
  using dec_digits [of _ n] by (auto simp: list_all_iff is_ascii_digit_def)

lemma dec_nonempty [simp]: "dec n \<noteq> []"
  by (simp add: dec.simps [of n])

lemma dec_no_sign: "strip_plus (dec n) = dec n"
proof -
  have "hd (dec n) \<in> set (dec n)" by simp
  then have "hd (dec n) \<noteq> CHR ''+''" using dec_digits [of "hd (dec n)" n] by auto
  then show ?thesis by (simp add: strip_plus_def)
qed

lemma parse_unsigned_dec [simp]: "parse_unsigned bound (dec n) = (if n < bound then Some n else None)"
  by (simp add: parse_unsigned_def dec_no_sign digits_value_def is_ascii_digit_dec undigits_dec)

lemma digits_value_bound: "digits_value bound ds = Some n \<Longrightarrow> n < bound"
  by (auto simp: digits_value_def split: if_splits)

lemma parse_unsigned_bound: "parse_unsigned bound s = Some n \<Longrightarrow> n < bound"
  by (simp add: parse_unsigned_def digits_value_bound)

lemma split_on_from_join:
  assumes "sep \<notin> set x" "xs \<noteq> []" "\<forall>y \<in> set xs. sep \<notin> set y"
  shows "split_on_from sep acc (x @ sep # join [sep] xs) = (rev acc @ x) # split_on sep (join [sep] xs)"
  using assms(1) by (induction x arbitrary: acc) (auto simp: split_on_def)

lemma split_on_from_no_sep: "sep \<notin> set x \<Longrightarrow> split_on_from sep acc x = [rev acc @ x]"
  by (induction x arbitrary: acc) auto

lemma split_on_join: "xs \<noteq> [] \<Longrightarrow> \<forall>y \<in> set xs. sep \<notin> set y \<Longrightarrow> split_on sep (join [sep] xs) = xs"
proof (induction xs)
  case (Cons x xs)
  show ?case
  proof (cases "xs = []")
    case True
    with Cons show ?thesis by (simp add: split_on_def split_on_from_no_sep)
  next
    case False
    then have "join [sep] (x # xs) = x @ sep # join [sep] xs" by (cases xs) simp_all
    with Cons False split_on_from_join [of sep x xs "[]"] show ?thesis by (simp add: split_on_def)
  qed
qed simp

end
