(* ===== verification/Worker_Metrics.thy ===== *)
theory Worker_Metrics
  imports Worker_Props Rust_Std
begin

text \<open>
  The metrics endpoint of \<^verbatim>\<open>worker/src/metrics.rs\<close>: the Prometheus text of a worker and the answer to
  one request per call. Accepting, reading and writing are functions over a network state.
\<close>

section \<open>Model\<close>

definition metric_head :: "string \<Rightarrow> string \<Rightarrow> string \<Rightarrow> string list" where
  "metric_head name help kind = [''# HELP '' @ name @ '' '' @ help, ''# TYPE '' @ name @ '' '' @ kind]"

definition sample :: "string \<Rightarrow> nat \<Rightarrow> string" where
  "sample name v = name @ '' '' @ dec v"

definition state_label :: "string \<Rightarrow> string" where
  "state_label st = ''hivemind_worker_pods{state='' @ [CHR 0x22] @ st @ [CHR 0x22] @ ''}''"

text \<open>The counters of the loop over the pods, one per state; stopped pods are not counted.\<close>

definition count_state :: "(tracked_pod_state \<Rightarrow> bool) \<Rightarrow> worker \<Rightarrow> u32" where
  "count_state P w = word_of_nat (length (filter (P \<circ> tp_state) (hm_values (wk_pods w))))"

definition is_failed :: "tracked_pod_state \<Rightarrow> bool" where
  "is_failed st = (case st of Failed _ \<Rightarrow> True | _ \<Rightarrow> False)"

definition metrics_lines :: "worker \<Rightarrow> u64 \<Rightarrow> string list" where
  "metrics_lines w uptime_secs =
     metric_head ''hivemind_worker_pods_running'' ''Number of pods in Running state'' ''gauge''
     @ [sample ''hivemind_worker_pods_running'' (fst (pod_counts w))]
     @ metric_head ''hivemind_worker_pods_total'' ''Total tracked pods'' ''gauge''
     @ [sample ''hivemind_worker_pods_total'' (snd (pod_counts w))]
     @ metric_head ''hivemind_worker_pods'' ''Per-state pod counts'' ''gauge''
     @ [sample (state_label ''image_pulling'') (unat (count_state ((=) ImagePulling) w)),
        sample (state_label ''creating'') (unat (count_state ((=) Creating) w)),
        sample (state_label ''starting'') (unat (count_state ((=) Starting) w)),
        sample (state_label ''running'') (unat (count_state ((=) Running) w)),
        sample (state_label ''stopping'') (unat (count_state ((=) Stopping) w)),
        sample (state_label ''failed'') (unat (count_state is_failed w))]
     @ metric_head ''hivemind_worker_gpu_free'' ''Available GPUs'' ''gauge''
     @ [sample ''hivemind_worker_gpu_free'' (unat (saturating_sub (wk_gpu_total w) (wk_gpu_allocated w)))]
     @ metric_head ''hivemind_worker_gpu_total'' ''Total GPUs on node'' ''gauge''
     @ [sample ''hivemind_worker_gpu_total'' (unat (wk_gpu_total w))]
     @ metric_head ''hivemind_worker_gpu_allocated'' ''GPUs allocated to pods'' ''gauge''
     @ [sample ''hivemind_worker_gpu_allocated'' (unat (wk_gpu_allocated w))]
     @ metric_head ''hivemind_worker_connected'' ''Whether agent is registered with control plane'' ''gauge''
     @ [sample ''hivemind_worker_connected'' (if wk_registered w then 1 else 0)]
     @ metric_head ''hivemind_worker_uptime_seconds'' ''Worker process uptime'' ''counter''
     @ [sample ''hivemind_worker_uptime_seconds'' (unat uptime_secs)]"

definition unlines :: "string list \<Rightarrow> string" where
  "unlines ls = concat (map (\<lambda>l. l @ [LF]) ls)"

definition format_metrics :: "worker \<Rightarrow> u64 \<Rightarrow> string" where
  "format_metrics w uptime_secs = unlines (metrics_lines w uptime_secs)"

definition CRLF :: string where "CRLF = [CR, LF]"

definition metrics_response :: "string \<Rightarrow> worker \<Rightarrow> u64 \<Rightarrow> string" where
  "metrics_response req w uptime_secs =
     (if contains ''GET /healthz'' req then
        ''HTTP/1.1 200 OK'' @ CRLF @ ''Content-Length: 2'' @ CRLF @ ''Connection: close'' @ CRLF @ CRLF @ ''ok''
      else let body = format_metrics w uptime_secs in
        ''HTTP/1.1 200 OK'' @ CRLF @ ''Content-Type: text/plain; version=0.0.4; charset=utf-8'' @ CRLF
        @ ''Content-Length: '' @ dec (length body) @ CRLF @ ''Connection: close'' @ CRLF @ CRLF @ body)"

record 'n metrics_net =
  mn_accept :: "'n \<Rightarrow> bool \<times> 'n"
  mn_read :: "nat \<Rightarrow> 'n \<Rightarrow> u8 list option \<times> 'n"
  mn_write :: "string \<Rightarrow> 'n \<Rightarrow> 'n"

definition metrics_poll :: "'n metrics_net \<Rightarrow> u64 \<Rightarrow> worker \<Rightarrow> 'n \<Rightarrow> 'n" where
  "metrics_poll net uptime_secs w n =
     (case mn_accept net n of
        (False, n1) \<Rightarrow> n1
      | (True, n1) \<Rightarrow>
          let (got, n2) = mn_read net 512 n1;
              bytes = (case got of None \<Rightarrow> [] | Some bs \<Rightarrow> bs);
              req = (if utf8_valid bytes then of_bytes bytes else [])
          in mn_write net (metrics_response req w uptime_secs) n2)"

section \<open>Reading the text back\<close>

definition scrape :: "string \<Rightarrow> string \<Rightarrow> nat option" where
  "scrape text name =
     Option.bind (List.find (prefix (name @ '' '')) (lines text)) (\<lambda>l.
       parse_unsigned (2 ^ 64) (drop (length name + 1) l))"

lemma lines_from_line:
  "LF \<notin> set l \<Longrightarrow> lines_from acc (l @ LF # rest) = chomp (rev acc @ l) # lines_from [] rest"
  by (induction l arbitrary: acc) auto

lemma lines_unlines:
  "\<forall>l \<in> set ls. LF \<notin> set l \<and> CR \<notin> set l \<Longrightarrow> lines (unlines ls) = ls"
proof (induction ls)
  case (Cons l ls)
  have "CR \<notin> set l" using Cons.prems by simp
  then have "last l \<noteq> CR" if "l \<noteq> []" using last_in_set [OF that] by metis
  then have "chomp l = l" by (auto simp: chomp_def)
  with Cons lines_from_line [of l "[]" "unlines ls"] show ?case
    by (simp add: lines_def unlines_def)
qed (simp add: lines_def unlines_def)

lemma dec_no_breaks: "LF \<notin> set (dec n)" "CR \<notin> set (dec n)"
  using dec_digits [of LF n] dec_digits [of CR n] by (auto simp: LF_def CR_def)

lemma metrics_lines_plain: "\<forall>l \<in> set (metrics_lines w up). LF \<notin> set l \<and> CR \<notin> set l"
  by (simp add: metrics_lines_def metric_head_def sample_def state_label_def dec_no_breaks)
     (simp add: LF_def CR_def)

lemma scrape_metrics:
  "scrape (format_metrics w up) name =
     Option.bind (List.find (prefix (name @ '' '')) (metrics_lines w up)) (\<lambda>l.
       parse_unsigned (2 ^ 64) (drop (length name + 1) l))"
  by (simp add: scrape_def format_metrics_def lines_unlines metrics_lines_plain)

lemmas metrics_text = scrape_metrics metrics_lines_def metric_head_def sample_def state_label_def

lemma scrape_gpu:
  "scrape (format_metrics w up) ''hivemind_worker_gpu_free''
     = Some (unat (saturating_sub (wk_gpu_total w) (wk_gpu_allocated w)))"
  "scrape (format_metrics w up) ''hivemind_worker_gpu_total'' = Some (unat (wk_gpu_total w))"
  "scrape (format_metrics w up) ''hivemind_worker_gpu_allocated'' = Some (unat (wk_gpu_allocated w))"
  using unat_less_pow [of "wk_gpu_total w"] unat_less_pow [of "wk_gpu_allocated w"]
    unat_less_pow [of "saturating_sub (wk_gpu_total w) (wk_gpu_allocated w)"]
  by (simp_all add: metrics_text)

lemma scrape_running:
  assumes "hm_len (wk_pods w) \<le> 4096"
  shows "scrape (format_metrics w up) ''hivemind_worker_pods_running'' = Some (fst (pod_counts w))"
    "scrape (format_metrics w up) (state_label ''running'') = Some (fst (pod_counts w))"
proof -
  have "length (filter (\<lambda>p. tp_state p = Running) (hm_values (wk_pods w))) \<le> 4096"
    using assms by (intro order_trans [OF length_filter_le]) (simp add: hm_len_def hm_values_def)
  then have le: "fst (pod_counts w) \<le> 4096" by (simp add: pod_counts_def)
  have "filter ((=) Running \<circ> tp_state) ps = filter (\<lambda>p. tp_state p = Running) ps" for ps :: "tracked_pod list"
    by (rule filter_cong) auto
  then have "unat (count_state ((=) Running) w) = fst (pod_counts w)"
    using le by (simp add: count_state_def pod_counts_def unat_of_nat)
  with le show "scrape (format_metrics w up) ''hivemind_worker_pods_running'' = Some (fst (pod_counts w))"
    "scrape (format_metrics w up) (state_label ''running'') = Some (fst (pod_counts w))"
    by (simp_all add: metrics_text)
qed

section \<open>Properties\<close>

text \<open>
  C39. The metrics text tells the truth. In every reachable state of the worker, a scraper that reads
  the text line by line finds a number of free and of allocated GPUs that add up to the total, the
  allocated ones being those of the pods that are not terminal, and the same number of running pods
  under both of its names.
\<close>

theorem metrics_truthful:
  assumes "reachable cx s"
  shows "\<exists>free alloc running. scrape (format_metrics (sy_worker s) up) ''hivemind_worker_gpu_free'' = Some free
    \<and> scrape (format_metrics (sy_worker s) up) ''hivemind_worker_gpu_allocated'' = Some alloc
    \<and> scrape (format_metrics (sy_worker s) up) ''hivemind_worker_gpu_total'' = Some (free + alloc)
    \<and> alloc = active_sum (\<lambda>p. unat (tp_gpu_count p)) (sy_worker s)
    \<and> scrape (format_metrics (sy_worker s) up) ''hivemind_worker_pods_running'' = Some running
    \<and> scrape (format_metrics (sy_worker s) up) (state_label ''running'') = Some running"
proof -
  have inv: "worker_inv (sy_worker s)" by (rule reachable_inv [OF assms])
  then have "wk_gpu_allocated (sy_worker s) \<le> wk_gpu_total (sy_worker s)"
    "unat (wk_gpu_allocated (sy_worker s)) = active_sum (\<lambda>p. unat (tp_gpu_count p)) (sy_worker s)"
    by (simp_all add: worker_inv_def core_inv_def accounted_def active_sum_used)
  moreover have "hm_len (wk_pods (sy_worker s)) \<le> 4096" using inv by (simp add: worker_inv_def worker_consts)
  ultimately show ?thesis
    by (simp add: scrape_gpu scrape_running unat_saturating_sub word_le_nat_alt)
qed

theorem metrics_truthful_witness:
  "\<exists>free. scrape (format_metrics (sy_worker (small_sys1 [status_event 7 ReportCreating])) 60) ''hivemind_worker_gpu_free'' = Some free"
  using metrics_truthful [OF small_reachable1, of 60] by blast

end
