(* ===== verification/Hive_Fingerprint.thy ===== *)
theory Hive_Fingerprint
  imports Rust_Std Hive_Runtime
begin

text \<open>
  \<^verbatim>\<open>worker/src/fingerprint.rs\<close>: what the node has. The files under \<^verbatim>\<open>/proc\<close> come from the operating
  system interface, the host name from \<open>gethostname\<close>, the devices from the NVML library; warnings
  on standard error are left out.
\<close>

section \<open>Model\<close>

record node_fingerprint =
  nf_node_name :: string
  nf_cpu_millicores :: u32
  nf_memory_megabytes :: u32
  nf_gpu_type :: gpu_type
  nf_gpu_count :: u8
  nf_gpu_memory_megabytes :: u32

datatype fingerprint_error =
    CpuInfoRead string
  | CpuInfoParse string
  | MemInfoRead string
  | MemInfoParse string
  | Hostname string

definition parse_cpuinfo :: "string \<Rightarrow> fingerprint_error + u32" where
  "parse_cpuinfo content =
     (let core_count = length (filter (prefix ''processor'') (lines content)) in
      if core_count = 0 then Inl (CpuInfoParse ''no processor entries found'')
      else Inr (word_of_nat core_count * 1000))"

fun meminfo_from :: "string list \<Rightarrow> fingerprint_error + u32" where
  "meminfo_from [] = Inl (MemInfoParse ''MemTotal not found'')"
| "meminfo_from (line # rest) =
     (if prefix ''MemTotal:'' line then
        let kb_str = trim (trim_end_matches '' kB'' (trim (drop 9 line))) in
        case parse_u64 kb_str of
          None \<Rightarrow> Inl (MemInfoParse (''invalid MemTotal value: '' @ kb_str))
        | Some kb \<Rightarrow> Inr (ucast (kb div 1024))
      else meminfo_from rest)"

definition parse_meminfo :: "string \<Rightarrow> fingerprint_error + u32" where
  "parse_meminfo content = meminfo_from (lines content)"

text \<open>
  \<open>str::to_uppercase\<close>, as far as a search for ASCII text can see: ASCII letters, and the characters
  outside ASCII whose uppercase form has ASCII letters in it. Every other character stays outside
  ASCII.
\<close>

definition uppercase_special :: "(u8 list \<times> u8 list) list" where
  "uppercase_special =
     [([0xC3, 0x9F], [0x53, 0x53]), ([0xC4, 0xB1], [0x49]), ([0xC5, 0x89], [0xCA, 0xBC, 0x4E]),
      ([0xC5, 0xBF], [0x53]), ([0xC7, 0xB0], [0x4A, 0xCC, 0x8C]), ([0xE1, 0xBA, 0x96], [0x48, 0xCC, 0xB1]),
      ([0xE1, 0xBA, 0x97], [0x54, 0xCC, 0x88]), ([0xE1, 0xBA, 0x98], [0x57, 0xCC, 0x8A]),
      ([0xE1, 0xBA, 0x99], [0x59, 0xCC, 0x8A]), ([0xE1, 0xBA, 0x9A], [0x41, 0xCA, 0xBE]),
      ([0xEF, 0xAC, 0x80], [0x46, 0x46]), ([0xEF, 0xAC, 0x81], [0x46, 0x49]), ([0xEF, 0xAC, 0x82], [0x46, 0x4C]),
      ([0xEF, 0xAC, 0x83], [0x46, 0x46, 0x49]), ([0xEF, 0xAC, 0x84], [0x46, 0x46, 0x4C]),
      ([0xEF, 0xAC, 0x85], [0x53, 0x54]), ([0xEF, 0xAC, 0x86], [0x53, 0x54])]"

definition ascii_upper :: "char \<Rightarrow> char" where
  "ascii_upper c = (let n = of_char c :: nat in if 97 \<le> n \<and> n \<le> 122 then char_of (n - 32) else c)"

function to_uppercase :: "string \<Rightarrow> string" where
  "to_uppercase s =
     (if s = [] then []
      else case List.find (\<lambda>e. fst e \<noteq> [] \<and> prefix (of_bytes (fst e)) s) uppercase_special of
          Some e \<Rightarrow> of_bytes (snd e) @ to_uppercase (drop (length (fst e)) s)
        | None \<Rightarrow> ascii_upper (hd s) # to_uppercase (tl s))"
  by pat_completeness auto
termination
  by (relation "measure length") (auto simp: find_Some_iff)

declare to_uppercase.simps [simp del]

definition classify_gpu :: "string \<Rightarrow> u32 \<Rightarrow> gpu_type" where
  "classify_gpu name memory_mb =
     (let upper = to_uppercase name in
      if contains ''A100'' upper then (if memory_mb \<le> 42000 then A100_40 else A100_80)
      else if contains ''H100'' upper then (if contains ''SXM'' upper then H100Sxm else H100Pcie)
      else if contains ''H200'' upper then H200
      else if contains ''L40S'' upper then L40s
      else if contains ''A10G'' upper then A10g
      else if contains ''T4'' upper \<and> \<not> contains ''RTX'' upper then T4
      else GpuNone)"

text \<open>What the NVML library reports; \<open>None\<close> is an error.\<close>

record nvml =
  nv_init :: bool
  nv_device_count :: "u32 option"
  nv_device_by_index :: "u32 \<Rightarrow> bool"
  nv_name :: "u32 \<Rightarrow> string option"
  nv_memory_total :: "u32 \<Rightarrow> u64 option"

definition discover_gpus :: "nvml \<Rightarrow> gpu_type \<times> u8 \<times> u32" where
  "discover_gpus nv =
     (if \<not> nv_init nv then (GpuNone, 0, 0)
      else case nv_device_count nv of
          None \<Rightarrow> (GpuNone, 0, 0)
        | Some count \<Rightarrow>
            if count = 0 then (GpuNone, 0, 0)
            else if \<not> nv_device_by_index nv 0 then (GpuNone, 0, 0)
            else let name = (case nv_name nv 0 of None \<Rightarrow> [] | Some n \<Rightarrow> n);
                     memory_mb = (case nv_memory_total nv 0 of None \<Rightarrow> 0 | Some m \<Rightarrow> ucast (m div (1024 * 1024)))
                 in (classify_gpu name memory_mb, ucast count, memory_mb))"

text \<open>
  \<open>gethostname\<close> fills a buffer of 64 bytes or fails.
\<close>

definition hostname_of :: "u8 list \<Rightarrow> string" where
  "hostname_of buf = from_utf8_lossy (takeWhile (\<lambda>b. b \<noteq> 0) buf)"

definition get_hostname :: "string + u8 list \<Rightarrow> fingerprint_error + string" where
  "get_hostname buf = (case buf of Inl e \<Rightarrow> Inl (Hostname e) | Inr bs \<Rightarrow> Inr (hostname_of bs))"

definition read_cpu_millicores :: "'e os \<Rightarrow> (fingerprint_error + u32, 'e) call" where
  "read_cpu_millicores os =
     bind_call (os_read_to_string os ''/proc/cpuinfo'') (\<lambda>r.
       ret (case r of Inl e \<Rightarrow> Inl (CpuInfoRead e) | Inr content \<Rightarrow> parse_cpuinfo content))"

definition read_memory_megabytes :: "'e os \<Rightarrow> (fingerprint_error + u32, 'e) call" where
  "read_memory_megabytes os =
     bind_call (os_read_to_string os ''/proc/meminfo'') (\<lambda>r.
       ret (case r of Inl e \<Rightarrow> Inl (MemInfoRead e) | Inr content \<Rightarrow> parse_meminfo content))"

definition fingerprint ::
    "'e os \<Rightarrow> nvml \<Rightarrow> string + u8 list \<Rightarrow> (fingerprint_error + node_fingerprint, 'e) call" where
  "fingerprint os nv hostname_buf =
     try_call (ret (get_hostname hostname_buf)) (\<lambda>node_name.
     try_call (read_cpu_millicores os) (\<lambda>cpu_millicores.
     try_call (read_memory_megabytes os) (\<lambda>memory_megabytes.
       let (gpu_type, gpu_count, gpu_memory_megabytes) = discover_gpus nv in
       ret (Inr \<lparr>nf_node_name = node_name, nf_cpu_millicores = cpu_millicores,
                 nf_memory_megabytes = memory_megabytes, nf_gpu_type = gpu_type, nf_gpu_count = gpu_count,
                 nf_gpu_memory_megabytes = gpu_memory_megabytes\<rparr>))))"

section \<open>Reading the kernel's text\<close>

lemma trim_start_spaces: "ws_width s = 0 \<Longrightarrow> trim_start (replicate n CHR '' '' @ s) = s"
proof (induction n)
  case (Suc n)
  have "ws_width (CHR '' '' # t) = 1" for t by (simp add: ws_width_def Let_def)
  with Suc show ?case by (subst trim_start.simps) simp
qed (simp add: trim_start.simps)

lemma ws_width_digit: "is_ascii_digit c \<Longrightarrow> ws_width (c # s) = 0"
  by (auto simp: ws_width_def is_ascii_digit_def Let_def)

lemma trim_start_digits: "list_all is_ascii_digit ds \<Longrightarrow> ds \<noteq> [] \<Longrightarrow> trim_start (ds @ s) = ds @ s"
  by (cases ds) (simp_all add: trim_start.simps ws_width_digit)

lemma trim_end_digits: "list_all is_ascii_digit ds \<Longrightarrow> trim_end (ds @ s) = ds @ trim_end s"
proof (induction ds)
  case (Cons d ds)
  have "trim_start ((d # ds) @ s) = (d # ds) @ s" by (rule trim_start_digits [OF Cons.prems]) simp
  with Cons show ?case by simp
qed simp

text \<open>The line \<open>MemTotal\<close> as the kernel prints it.\<close>

definition mem_total_line :: "nat \<Rightarrow> nat \<Rightarrow> string" where
  "mem_total_line pad kb = ''MemTotal:'' @ replicate pad CHR '' '' @ dec kb @ '' kB''"

lemma trim_kb: "trim (replicate pad CHR '' '' @ dec kb @ '' kB'') = dec kb @ '' kB''"
proof -
  have "ws_width (dec kb @ t) = 0" for t
    using is_ascii_digit_dec [of kb] dec_nonempty [of kb] by (cases "dec kb") (simp_all add: ws_width_digit)
  moreover have "trim_end '' kB'' = '' kB''" by (simp add: trim_start.simps ws_width_def Let_def)
  ultimately show ?thesis
    by (simp add: trim_def trim_start_spaces trim_end_digits [OF is_ascii_digit_dec])
qed

lemma meminfo_line:
  assumes "kb < 2 ^ 64"
  shows "meminfo_from (mem_total_line pad kb # rest) = Inr (word_of_nat (kb div 1024))"
proof -
  have "suffix '' kB'' (dec kb @ '' kB'')" by (simp add: suffix_def)
  then have "trim_end_matches '' kB'' (dec kb @ '' kB'') = trim_end_matches '' kB'' (dec kb)"
    by (subst trim_end_matches.simps) simp
  moreover have "\<not> suffix '' kB'' (dec kb)"
    using is_ascii_digit_dec [of kb] by (auto simp: suffix_def is_ascii_digit_def)
  then have "trim_end_matches '' kB'' (dec kb) = dec kb" by (subst trim_end_matches.simps) simp
  moreover have "trim (dec kb) = dec kb"
    using trim_end_digits [OF is_ascii_digit_dec, of kb "[]"] trim_start_digits [OF is_ascii_digit_dec, of kb "[]"]
    by (simp add: trim_def)
  moreover have "(ucast ((word_of_nat kb :: u64) div 1024) :: u32) = word_of_nat (kb div 1024)"
    using assms by (simp add: word_unat_eq_iff unsigned_ucast_eq unat_div unat_of_nat take_bit_eq_mod)
  ultimately show ?thesis
    using assms by (simp add: mem_total_line_def trim_kb parse_u64_def Let_def)
qed

lemma meminfo_skip: "\<forall>l \<in> set ls. \<not> prefix ''MemTotal:'' l \<Longrightarrow> meminfo_from (ls @ rest) = meminfo_from rest"
  by (induction ls) auto

text \<open>
  The memory size is read as the kernel writes it: in a file whose first \<open>MemTotal\<close> line holds a
  number of kilobytes, padded with any number of spaces, the result is that number in megabytes,
  rounded down, whatever the other lines are. Only the lowest 32 bits are kept.
\<close>

theorem meminfo_parsed:
  assumes "lines content = before @ mem_total_line pad kb # rest" and "\<forall>l \<in> set before. \<not> prefix ''MemTotal:'' l"
    and "kb < 2 ^ 64"
  shows "parse_meminfo content = Inr (word_of_nat (kb div 1024))"
  using assms meminfo_skip [OF assms(2)] meminfo_line [OF assms(3)] by (simp add: parse_meminfo_def)

theorem meminfo_parsed_witness:
  "parse_meminfo (''MemTotal:       16384 kB'' @ [LF] @ ''MemFree: 5 kB'') = Inr 16"
proof -
  have "dec 16384 = ''16384''"
    by (simp add: dec.simps [of 16384] dec.simps [of 1638] dec.simps [of 163] dec.simps [of 16] dec.simps [of "Suc 0"]
          digit_char_def char_of_def bit_0)
  then have "lines (''MemTotal:       16384 kB'' @ [LF] @ ''MemFree: 5 kB'') = [] @ mem_total_line 7 16384 # [''MemFree: 5 kB'']"
    by (simp add: lines_def LF_def chomp_def CR_def mem_total_line_def numeral_eq_Suc)
  from meminfo_parsed [OF this] show ?thesis by simp
qed

end
