(* ===== verification/Real_Io.thy ===== *)
theory Real_Io
  imports Rust_Std Hive_Frame Hive_Runtime Hive_Prng
begin

text \<open>
  The socket link of \<^verbatim>\<open>worker/src/real_io.rs\<close>: a nonblocking TCP stream, a buffer in which frames are
  assembled from whatever chunks the stream hands out, and the frame and message codecs on top. The
  stream, the system clock and the nonce source are one record of functions over a world. The
  receive loop can only fail to return if the stream is interrupted for ever.
\<close>

section \<open>Model\<close>

definition READ_BUFFER_SIZE :: nat where "READ_BUFFER_SIZE = 32 * 1024"

record 'w tcp =
  tcp_connect_timeout :: "socket_addr \<Rightarrow> nat \<Rightarrow> 'w \<Rightarrow> (io_error + unit) \<times> 'w"
  tcp_set_nonblocking :: "'w \<Rightarrow> (io_error + unit) \<times> 'w"
  tcp_set_nodelay :: "'w \<Rightarrow> (io_error + unit) \<times> 'w"
  tcp_read :: "nat \<Rightarrow> 'w \<Rightarrow> (io_error + u8 list) \<times> 'w"
  tcp_writer :: "'w writer"
  tcp_shutdown :: "'w \<Rightarrow> 'w"
  tcp_epoch_nanos :: "'w \<Rightarrow> nat"
  tcp_nonce :: "'w \<Rightarrow> u8 list \<times> 'w"

record 'w real_io =
  ri_stream :: 'w
  ri_read_buf :: "u8 list"
  ri_frame_buf :: "u8 list"
  ri_frame_pos :: nat
  ri_write_buf :: "u8 list"
  ri_prng :: prng
  ri_connected :: bool
  ri_encryption_key :: "u8 list option"

definition real_io_open :: "'w tcp \<Rightarrow> u8 list option \<Rightarrow> 'w \<Rightarrow> 'w real_io" where
  "real_io_open t key w =
     \<lparr>ri_stream = w, ri_read_buf = replicate MAX_FRAME_PAYLOAD 0, ri_frame_buf = replicate READ_BUFFER_SIZE 0,
      ri_frame_pos = 0, ri_write_buf = replicate MAX_FRAME_PAYLOAD 0,
      ri_prng = prng_init (word_of_nat (tcp_epoch_nanos t w)), ri_connected = True, ri_encryption_key = key\<rparr>"

definition connect_timeout ::
    "'w tcp \<Rightarrow> string \<Rightarrow> u8 list option \<Rightarrow> nat \<Rightarrow> 'w \<Rightarrow> (io_error + 'w real_io) \<times> 'w" where
  "connect_timeout t addr key timeout w =
     (if timeout = 0 then (Inl (InvalidInput, ''connect timeout is zero''), w)
      else case parse_socket_addr addr of
          None \<Rightarrow> (Inl (InvalidInput, ''replica address must be an IP socket address''), w)
        | Some socket_addr \<Rightarrow>
     (case tcp_connect_timeout t socket_addr timeout w of
          (Inl e, w1) \<Rightarrow> (Inl e, w1)
        | (Inr _, w1) \<Rightarrow>
     (case tcp_set_nonblocking t w1 of
          (Inl e, w2) \<Rightarrow> (Inl e, w2)
        | (Inr _, w2) \<Rightarrow>
     (case tcp_set_nodelay t w2 of
          (Inl e, w3) \<Rightarrow> (Inl e, w3)
        | (Inr _, w3) \<Rightarrow> (Inr (real_io_open t key w3), w3)))))"

definition connect :: "'w tcp \<Rightarrow> string \<Rightarrow> u8 list option \<Rightarrow> 'w \<Rightarrow> (io_error + 'w real_io) \<times> 'w" where
  "connect t addr key = connect_timeout t addr key (2 * 10 ^ 9)"

definition RANGE_PANIC :: string where "RANGE_PANIC = ''range end index out of range''"

definition decode_buffered_frame ::
    "aead \<Rightarrow> 'w tcp \<Rightarrow> 'w real_io \<Rightarrow> (control_message option \<times> 'w real_io) res" where
  "decode_buffered_frame a t r =
     and_then (ensure (ri_frame_pos r \<le> length (ri_frame_buf r)) RANGE_PANIC) (\<lambda>_.
     case try_decode_frame a (take (ri_frame_pos r) (ri_frame_buf r)) (ri_read_buf r) (ri_encryption_key r) of
       (Inr (Some (msg_type, payload_len, consumed)), read_buf) \<Rightarrow>
         and_then (ensure (consumed \<le> ri_frame_pos r \<and> payload_len \<le> length read_buf) RANGE_PANIC) (\<lambda>_.
           let r1 = r\<lparr>ri_read_buf := read_buf,
                      ri_frame_buf := overwrite_at 0 (slice consumed (ri_frame_pos r) (ri_frame_buf r)) (ri_frame_buf r),
                      ri_frame_pos := ri_frame_pos r - consumed\<rparr>
           in case decode_control_message msg_type (take payload_len read_buf) of
                Inr msg \<Rightarrow> Inr (Some msg, r1)
              | Inl e \<Rightarrow> Inr (None, r1\<lparr>ri_stream := tcp_shutdown t (ri_stream r1), ri_connected := False\<rparr>))
     | (Inr None, read_buf) \<Rightarrow> Inr (None, r\<lparr>ri_read_buf := read_buf\<rparr>)
     | (Inl e, read_buf) \<Rightarrow> Inr (None, r\<lparr>ri_read_buf := read_buf, ri_connected := False\<rparr>))"

definition real_now :: "'w tcp \<Rightarrow> 'w real_io \<Rightarrow> u64" where
  "real_now t r = word_of_nat (tcp_epoch_nanos t (ri_stream r) div 10 ^ 6)"

definition real_send :: "aead \<Rightarrow> 'w tcp \<Rightarrow> worker_message \<Rightarrow> 'w real_io \<Rightarrow> 'w real_io res" where
  "real_send a t msg r =
     (if \<not> ri_connected r then Inr r
      else case encode_agent_message msg (ri_write_buf r) of
          (Inl e, write_buf) \<Rightarrow> Inr (r\<lparr>ri_write_buf := write_buf, ri_connected := False\<rparr>)
        | (Inr (msg_type, payload_len), write_buf) \<Rightarrow>
            and_then (ensure (payload_len \<le> length write_buf) RANGE_PANIC) (\<lambda>_.
            let (nonce, w1) = (if ri_encryption_key r = None then ([], ri_stream r) else tcp_nonce t (ri_stream r)) in
            and_then (write_frame_encrypted a nonce (tcp_writer t) w1 msg_type (take payload_len write_buf)
                        (ri_encryption_key r)) (\<lambda>(result, w2).
              Inr (r\<lparr>ri_write_buf := write_buf, ri_stream := w2, ri_connected := (result = Inr ())\<rparr>))))"

text \<open>What a read does to the link, and whether the loop goes round again.\<close>

definition absorb :: "(io_error + u8 list) \<times> 'w \<Rightarrow> 'w real_io \<Rightarrow> bool \<times> 'w real_io" where
  "absorb result r =
     (let r1 = r\<lparr>ri_stream := snd result\<rparr> in
      case fst result of
        Inr [] \<Rightarrow> (False, r1\<lparr>ri_connected := False\<rparr>)
      | Inr bs \<Rightarrow> (True, r1\<lparr>ri_frame_buf := overwrite_at (ri_frame_pos r) bs (ri_frame_buf r),
                             ri_frame_pos := ri_frame_pos r + length bs\<rparr>)
      | Inl (kind, _) \<Rightarrow>
          if kind = WouldBlock then (False, r1)
          else if kind = Interrupted then (True, r1)
          else (False, r1\<lparr>ri_connected := False\<rparr>))"

partial_function (option) recv_frames ::
    "aead \<Rightarrow> 'w tcp \<Rightarrow> 'w real_io \<Rightarrow> (control_message option \<times> 'w real_io) res option" where
  "recv_frames a t r =
     (case decode_buffered_frame a t r of
        Inl e \<Rightarrow> Some (Inl e)
      | Inr d \<Rightarrow>
          if fst d \<noteq> None \<or> \<not> ri_connected (snd d) then Some (Inr d)
          else if ri_frame_pos (snd d) = length (ri_frame_buf (snd d)) then
            Some (Inr (None, (snd d)\<lparr>ri_connected := False\<rparr>))
          else
            let next = absorb (tcp_read t (length (ri_frame_buf (snd d)) - ri_frame_pos (snd d)) (ri_stream (snd d))) (snd d)
            in if fst next then recv_frames a t (snd next) else Some (Inr (None, snd next)))"

definition real_recv :: "aead \<Rightarrow> 'w tcp \<Rightarrow> 'w real_io \<Rightarrow> (control_message option \<times> 'w real_io) res option" where
  "real_recv a t r = (if \<not> ri_connected r then Some (Inr (None, r)) else recv_frames a t r)"

definition real_random_u64 :: "(u64, 'w real_io) call" where
  "real_random_u64 r = (let (x, g) = prng_next (ri_prng r) in Inr (x, r\<lparr>ri_prng := g\<rparr>))"

text \<open>The link as the worker sees it; a receive that never returns is an error of its own.\<close>

definition RECV_DIVERGES :: string where "RECV_DIVERGES = ''recv does not return''"

definition real_link :: "aead \<Rightarrow> 'w tcp \<Rightarrow> 'w real_io io" where
  "real_link a t =
     \<lparr>io_now = real_now t, io_send = real_send a t,
      io_recv = (\<lambda>r. case real_recv a t r of None \<Rightarrow> Inl RECV_DIVERGES | Some x \<Rightarrow> x),
      io_random_u64 = real_random_u64\<rparr>"

section \<open>Frames in a stream\<close>

lemma accept_plaintext_length: "length (snd (accept_plaintext p buf)) = length buf"
  by (auto simp: accept_plaintext_def FRAME_INNER_MIN_def Let_def split: sum.splits)

lemma accept_plaintext_buf:
  assumes "length buf = length buf'"
  shows "fst (accept_plaintext p buf) = fst (accept_plaintext p buf')"
  using assms by (auto simp: accept_plaintext_def Let_def split: sum.splits)

lemma accept_plaintext_take:
  assumes "accept_plaintext p buf = (Inr (t, l), buf')"
  shows "l \<le> length buf' \<and> take l buf' = drop 3 p"
  using accept_plaintext_Inr [OF assms] by auto

text \<open>The decoder in terms of the declared frame length and the plaintext of the frame.\<close>

definition frame_length :: "u8 list \<Rightarrow> nat" where
  "frame_length data = unat (u32_from_le (take 4 data)) + 4"

definition frame_plaintext :: "aead \<Rightarrow> u8 list option \<Rightarrow> u8 list \<Rightarrow> io_error + u8 list" where
  "frame_plaintext a key data =
     (if data ! 4 = 1 then map_err (Pair InvalidData)
        (decrypt_frame a (the key) (slice 5 (frame_length data) data) (take 5 data))
      else Inr (slice 5 (frame_length data) data))"

definition declared :: "u8 list option \<Rightarrow> u8 list \<Rightarrow> io_error + nat" where
  "declared key data = validate_frame_declaration (unat (u32_from_le (take 4 data))) (data ! 4) (key \<noteq> None)"

lemma try_decode_frame_eq:
  "try_decode_frame a data buf key =
     (if length data < 5 then (Inr None, buf)
      else case declared key data of
        Inl e \<Rightarrow> (Inl e, buf)
      | Inr _ \<Rightarrow>
          if length data < frame_length data then (Inr None, buf)
          else case frame_plaintext a key data of
            Inl e \<Rightarrow> (Inl e, buf)
          | Inr plaintext \<Rightarrow>
              (case accept_plaintext plaintext buf of
                 (Inl e, buf') \<Rightarrow> (Inl e, buf')
               | (Inr (t, l), buf') \<Rightarrow> (Inr (Some (t, l, frame_length data)), buf')))"
proof -
  have "unat (u32_from_le (take 4 data)) < 2 ^ 32" using unsigned_less [of "u32_from_le (take 4 data)"] by simp
  then have "usize_checked_add 4 (unat (u32_from_le (take 4 data))) = Some (frame_length data)"
    by (simp add: usize_checked_add_def frame_length_def)
  then show ?thesis
    by (simp add: try_decode_frame_def declared_def frame_plaintext_def slice_def [of 0] Let_def
          split: sum.splits)
qed

lemma declared_bounds: "declared key data = Inr n \<Longrightarrow> 8 \<le> frame_length data \<and> frame_length data \<le> 16432"
  by (auto simp: declared_def validate_frame_declaration_Inr frame_length_def)

lemma prefix_reads:
  assumes "5 \<le> length data"
  shows "frame_length (data @ rest) = frame_length data" "declared key (data @ rest) = declared key data"
  using assms by (simp_all add: frame_length_def declared_def nth_append)

lemma frame_plaintext_append:
  "5 \<le> length data \<Longrightarrow> frame_length data \<le> length data \<Longrightarrow> frame_plaintext a key (data @ rest) = frame_plaintext a key data"
  by (simp add: frame_plaintext_def prefix_reads nth_append slice_def)

text \<open>The first frame of a byte string: incomplete, refused, or a message and the bytes it takes.\<close>

datatype frame_result = Incomplete | Refused | Message control_message nat

definition first_frame :: "aead \<Rightarrow> u8 list option \<Rightarrow> u8 list \<Rightarrow> frame_result" where
  "first_frame a key data =
     (case try_decode_frame a data (replicate MAX_FRAME_PAYLOAD 0) key of
        (Inr None, _) \<Rightarrow> Incomplete
      | (Inl _, _) \<Rightarrow> Refused
      | (Inr (Some (t, l, n)), buf) \<Rightarrow>
          (case decode_control_message t (take l buf) of Inl _ \<Rightarrow> Refused | Inr m \<Rightarrow> Message m n))"

lemma first_frame_bounds: "first_frame a key data = Message m n \<Longrightarrow> 0 < n \<and> n \<le> length data"
  by (auto simp: first_frame_def try_decode_frame_eq dest: declared_bounds split: if_splits sum.splits prod.splits)

lemma first_frame_incomplete: "first_frame a key data = Incomplete \<Longrightarrow> length data < 16432"
  by (auto simp: first_frame_def try_decode_frame_eq dest: declared_bounds split: if_splits sum.splits prod.splits)

lemma first_frame_append:
  assumes "first_frame a key data \<noteq> Incomplete"
  shows "first_frame a key (data @ rest) = first_frame a key data"
proof -
  have "try_decode_frame a (data @ rest) buf key = try_decode_frame a data buf key"
    if "fst (try_decode_frame a data buf key) \<noteq> Inr None" for buf
    using that by (auto simp: try_decode_frame_eq prefix_reads frame_plaintext_append split: if_splits sum.splits prod.splits)
  moreover have "fst (try_decode_frame a data (replicate MAX_FRAME_PAYLOAD 0) key) \<noteq> Inr None"
    using assms by (auto simp: first_frame_def split: prod.splits)
  ultimately show ?thesis by (simp add: first_frame_def)
qed

text \<open>The messages of a byte stream: those of its frames, up to the first one that is refused.\<close>

function stream_messages :: "aead \<Rightarrow> u8 list option \<Rightarrow> u8 list \<Rightarrow> control_message list" where
  "stream_messages a key data =
     (case first_frame a key data of
        Message m n \<Rightarrow> m # stream_messages a key (drop n data)
      | _ \<Rightarrow> [])"
  by pat_completeness auto
termination
  by (relation "measure (\<lambda>(a, key, data). length data)") (auto dest: first_frame_bounds)

declare stream_messages.simps [simp del]

lemma stream_messages_Message:
  assumes "first_frame a key data = Message m n"
  shows "stream_messages a key (data @ rest) = m # stream_messages a key (drop n data @ rest)"
  using first_frame_append [of a key data rest] first_frame_bounds [OF assms] assms
  by (simp add: stream_messages.simps [of a key "data @ rest"])

lemma stream_messages_Refused:
  "first_frame a key data = Refused \<Longrightarrow> stream_messages a key (data @ rest) = []"
  using first_frame_append [of a key data rest] by (simp add: stream_messages.simps [of a key "data @ rest"])

lemma stream_messages_prefix: "prefix (stream_messages a key data) (stream_messages a key (data @ rest))"
proof (induction a key data rule: stream_messages.induct)
  case (1 a key data)
  show ?case
  proof (cases "first_frame a key data")
    case (Message m n)
    then show ?thesis
      using 1 [OF Message] by (simp add: stream_messages_Message [OF Message] stream_messages.simps [of a key data])
  qed (simp_all add: stream_messages.simps [of a key data])
qed

lemma stream_messages_Incomplete: "first_frame a key data = Incomplete \<Longrightarrow> stream_messages a key data = []"
  by (simp add: stream_messages.simps)

section \<open>The link\<close>

definition link_wf :: "'w real_io \<Rightarrow> bool" where
  "link_wf r =
     (length (ri_frame_buf r) = READ_BUFFER_SIZE \<and> length (ri_read_buf r) = MAX_FRAME_PAYLOAD
      \<and> length (ri_write_buf r) = MAX_FRAME_PAYLOAD \<and> ri_frame_pos r \<le> READ_BUFFER_SIZE)"

definition buffered :: "'w real_io \<Rightarrow> u8 list" where
  "buffered r = take (ri_frame_pos r) (ri_frame_buf r)"

lemma length_buffered: "link_wf r \<Longrightarrow> length (buffered r) = ri_frame_pos r"
  by (simp add: link_wf_def buffered_def)

text \<open>The result does not depend on what an earlier frame left in the payload buffer.\<close>

lemma first_frame_any_buf:
  assumes "length buf = MAX_FRAME_PAYLOAD" "try_decode_frame a data buf key = (res, buf')"
  shows "length buf' = MAX_FRAME_PAYLOAD"
    and "first_frame a key data = (case res of
        Inr None \<Rightarrow> Incomplete | Inl _ \<Rightarrow> Refused
      | Inr (Some (t, l, n)) \<Rightarrow>
          (case decode_control_message t (take l buf') of Inl _ \<Rightarrow> Refused | Inr m \<Rightarrow> Message m n))"
    and "res = Inr None \<Longrightarrow> buf' = buf"
    and "res = Inr (Some (t, l, n)) \<Longrightarrow> n \<le> length data \<and> l \<le> MAX_FRAME_PAYLOAD"
proof -
  let ?z = "replicate MAX_FRAME_PAYLOAD 0 :: u8 list"
  have len: "length ?z = length buf" using assms(1) by simp
  show 1: "length buf' = MAX_FRAME_PAYLOAD"
    using assms accept_plaintext_length [of _ buf]
    by (auto simp: try_decode_frame_eq split: if_splits sum.splits prod.splits) (metis snd_conv)+
  show "first_frame a key data = (case res of
        Inr None \<Rightarrow> Incomplete | Inl _ \<Rightarrow> Refused
      | Inr (Some (t, l, n)) \<Rightarrow>
          (case decode_control_message t (take l buf') of Inl _ \<Rightarrow> Refused | Inr m \<Rightarrow> Message m n))"
  proof (cases "frame_plaintext a key data")
    case (Inr p)
    have "fst (accept_plaintext p ?z) = fst (accept_plaintext p buf)"
      by (rule accept_plaintext_buf [OF len])
    then show ?thesis
      using assms(2) Inr accept_plaintext_take [of p ?z] accept_plaintext_take [of p buf]
      by (cases "accept_plaintext p ?z"; cases "accept_plaintext p buf")
         (auto simp: first_frame_def try_decode_frame_eq split: if_splits sum.splits prod.splits)
  qed (use assms(2) in \<open>auto simp: first_frame_def try_decode_frame_eq split: if_splits sum.splits\<close>)
  show "buf' = buf" if "res = Inr None"
    using assms(2) that by (auto simp: try_decode_frame_eq split: if_splits sum.splits prod.splits)
  show "n \<le> length data \<and> l \<le> MAX_FRAME_PAYLOAD" if "res = Inr (Some (t, l, n))"
    using assms that accept_plaintext_Inr
    by (auto simp: try_decode_frame_eq split: if_splits sum.splits prod.splits dest!: accept_plaintext_Inr)
qed

text \<open>What two links share apart from the bytes in the buffers.\<close>

definition same_link :: "'w real_io \<Rightarrow> 'w real_io \<Rightarrow> bool" where
  "same_link r r' =
     (link_wf r' \<and> ri_encryption_key r' = ri_encryption_key r \<and> ri_prng r' = ri_prng r)"

lemma drop_slice: "n \<le> i \<Longrightarrow> i \<le> length xs \<Longrightarrow> take (i - n) (overwrite_at 0 (slice n i xs) xs) = drop n (take i xs)"
  by (simp add: overwrite_at_def slice_def drop_take)

lemma decode_buffered_frame_cases:
  assumes "link_wf r"
  shows "case first_frame a (ri_encryption_key r) (buffered r) of
      Incomplete \<Rightarrow> decode_buffered_frame a t r = Inr (None, r)
    | Refused \<Rightarrow> \<exists>r'. decode_buffered_frame a t r = Inr (None, r') \<and> same_link r r' \<and> \<not> ri_connected r'
        \<and> ri_stream r' \<in> {ri_stream r, tcp_shutdown t (ri_stream r)}
    | Message m n \<Rightarrow> \<exists>r'. decode_buffered_frame a t r = Inr (Some m, r') \<and> same_link r r'
        \<and> ri_connected r' = ri_connected r \<and> ri_stream r' = ri_stream r \<and> buffered r' = drop n (buffered r)"
proof -
  obtain res buf' where d: "try_decode_frame a (buffered r) (ri_read_buf r) (ri_encryption_key r) = (res, buf')"
    by fastforce
  have len: "length (ri_read_buf r) = MAX_FRAME_PAYLOAD" using assms by (simp add: link_wf_def)
  note facts = first_frame_any_buf [OF len d]
  have pos: "ri_frame_pos r \<le> length (ri_frame_buf r)" using assms by (simp add: link_wf_def)
  show ?thesis
  proof (cases res)
    case (Inl e)
    then show ?thesis
      using facts(1,2) d pos assms
      by (auto simp: decode_buffered_frame_def buffered_def same_link_def link_wf_def)
  next
    case (Inr fo)
    show ?thesis
    proof (cases fo)
      case None
      then show ?thesis
        using Inr facts(2,3) d pos by (simp add: decode_buffered_frame_def buffered_def)
    next
      case (Some f)
      obtain ty l n where f: "f = (ty, l, n)" by (cases f)
      have b: "n \<le> ri_frame_pos r" "l \<le> length buf'"
        using facts(1) facts(4) [of ty l n] Inr Some f length_buffered [OF assms] by auto
      have "length (slice n (ri_frame_pos r) (ri_frame_buf r)) \<le> length (ri_frame_buf r)" using pos by simp
      then show ?thesis
        using b Inr Some f facts(1,2) d pos assms drop_slice [OF b(1) pos]
        by (auto simp: decode_buffered_frame_def buffered_def same_link_def link_wf_def Let_def split: sum.splits)
    qed
  qed
qed

lemma absorb_data:
  assumes "link_wf r" "bs \<noteq> []" "length bs \<le> READ_BUFFER_SIZE - ri_frame_pos r"
  shows "\<exists>r'. absorb (Inr bs, w) r = (True, r') \<and> same_link r r' \<and> ri_connected r' = ri_connected r
    \<and> ri_stream r' = w \<and> buffered r' = buffered r @ bs \<and> ri_frame_pos r' = ri_frame_pos r + length bs"
  using assms
  by (cases bs) (auto simp: absorb_def same_link_def link_wf_def buffered_def overwrite_at_def Let_def)

text \<open>
  What is assumed of the stream: a read hands out at most what was asked for, the bytes it hands out
  are those that were received, nothing else takes or adds any, and it is not interrupted for ever.
\<close>

definition stream_ok :: "'w tcp \<Rightarrow> ('w \<Rightarrow> u8 list) \<Rightarrow> ('w \<Rightarrow> nat) \<Rightarrow> bool" where
  "stream_ok t received interrupts =
     ((\<forall>n w bs w'. tcp_read t n w = (Inr bs, w') \<longrightarrow> length bs \<le> n \<and> received w' = received w @ bs)
      \<and> (\<forall>n w k e w'. tcp_read t n w = (Inl (k, e), w') \<longrightarrow>
           received w' = received w \<and> (k = Interrupted \<longrightarrow> interrupts w' < interrupts w))
      \<and> (\<forall>w. received (tcp_shutdown t w) = received w)
      \<and> (\<forall>w. received (snd (tcp_nonce t w)) = received w)
      \<and> (\<forall>bs w. received (snd (wr_write_all (tcp_writer t) bs w)) = received w)
      \<and> (\<forall>w. received (snd (wr_flush (tcp_writer t) w)) = received w))"

text \<open>The link has handed over \<open>ms\<close>: what is still to come is in the buffer.\<close>

definition delivered_so_far ::
    "aead \<Rightarrow> ('w \<Rightarrow> u8 list) \<Rightarrow> control_message list \<Rightarrow> 'w real_io \<Rightarrow> bool" where
  "delivered_so_far a received ms r =
     (if ri_connected r then
        \<forall>x. stream_messages a (ri_encryption_key r) (received (ri_stream r) @ x)
              = ms @ stream_messages a (ri_encryption_key r) (buffered r @ x)
      else prefix ms (stream_messages a (ri_encryption_key r) (received (ri_stream r))))"

text \<open>After a receive without a message everything that arrived has been handed over.\<close>

definition recv_post ::
    "aead \<Rightarrow> ('w \<Rightarrow> u8 list) \<Rightarrow> control_message list \<Rightarrow> 'w real_io \<Rightarrow> control_message option \<Rightarrow> 'w real_io \<Rightarrow> bool" where
  "recv_post a received ms r m r' =
     (same_link r r' \<and> delivered_so_far a received (ms @ opt_list m) r'
      \<and> (m = None \<longrightarrow> stream_messages a (ri_encryption_key r) (received (ri_stream r')) = ms
           \<and> (ri_connected r' \<longrightarrow> ri_frame_pos r' < 16432)))"

lemma same_link_trans: "same_link r r' \<Longrightarrow> same_link r' r'' \<Longrightarrow> same_link r r''"
  by (simp add: same_link_def)

lemma recv_post_trans: "same_link r r1 \<Longrightarrow> recv_post a received ms r1 m r' \<Longrightarrow> recv_post a received ms r m r'"
  by (auto simp: recv_post_def same_link_def)

text \<open>A receive that ends with the link down, or up but with an incomplete frame.\<close>

lemma recv_post_end:
  assumes "same_link r r'" "link_wf r" "stream_messages a (ri_encryption_key r) (received (ri_stream r')) = ms"
    "ri_connected r' \<Longrightarrow> r' = r\<lparr>ri_stream := w\<rparr> \<and> received w = received (ri_stream r) \<and> delivered_so_far a received ms r
        \<and> ri_connected r \<and> first_frame a (ri_encryption_key r) (buffered r) = Incomplete"
  shows "recv_post a received ms r None r'"
proof (cases "ri_connected r'")
  case True
  note u = assms(4) [OF True]
  then have "ri_frame_pos r < 16432" using first_frame_incomplete length_buffered [OF assms(2)] by metis
  moreover have "delivered_so_far a received ms r'" using u by (auto simp: delivered_so_far_def buffered_def)
  ultimately show ?thesis using assms(1,3) u by (simp add: recv_post_def)
next
  case False
  then show ?thesis using assms(1,3) by (auto simp: recv_post_def delivered_so_far_def same_link_def)
qed

definition progress :: "('w \<Rightarrow> nat) \<Rightarrow> 'w real_io \<Rightarrow> 'w real_io \<Rightarrow> bool" where
  "progress interrupts r r' =
     (READ_BUFFER_SIZE - ri_frame_pos r' < READ_BUFFER_SIZE - ri_frame_pos r
      \<or> ri_frame_pos r' = ri_frame_pos r \<and> interrupts (ri_stream r') < interrupts (ri_stream r))"

text \<open>A read of a link that waits for the rest of a frame brings the loop forward or ends it.\<close>

lemma read_step:
  assumes "stream_ok t received interrupts" "link_wf r" "ri_connected r" "delivered_so_far a received ms r"
    "first_frame a (ri_encryption_key r) (buffered r) = Incomplete"
    "tcp_read t (READ_BUFFER_SIZE - ri_frame_pos r) (ri_stream r) = (res, w)"
  shows "case absorb (res, w) r of (go, r') \<Rightarrow>
    if go then same_link r r' \<and> ri_connected r' \<and> delivered_so_far a received ms r' \<and> progress interrupts r r'
    else recv_post a received ms r None r'"
proof -
  let ?key = "ri_encryption_key r"
  have all: "stream_messages a ?key (received (ri_stream r) @ x) = ms @ stream_messages a ?key (buffered r @ x)" for x
    using assms(3,4) by (simp add: delivered_so_far_def)
  have fin: "stream_messages a ?key (received (ri_stream r)) = ms"
    using all [of "[]"] stream_messages_Incomplete [OF assms(5)] by simp
  have sl: "same_link r (r\<lparr>ri_stream := w\<rparr>)" "same_link r (r\<lparr>ri_stream := w, ri_connected := False\<rparr>)"
    using assms(2) by (simp_all add: same_link_def link_wf_def)
  show ?thesis
  proof (cases res)
    case (Inl e)
    obtain k msg where e: "e = (k, msg)" by (cases e)
    have w: "received w = received (ri_stream r)" "k = Interrupted \<Longrightarrow> interrupts w < interrupts (ri_stream r)"
      using assms(1,6) Inl e by (auto simp: stream_ok_def)
    have "delivered_so_far a received ms (r\<lparr>ri_stream := w\<rparr>)"
      using assms(3,4) w(1) by (simp add: delivered_so_far_def buffered_def)
    moreover have "recv_post a received ms r None (r\<lparr>ri_stream := w\<rparr>)"
      by (rule recv_post_end [OF sl(1) assms(2), where w = w]) (use w(1) fin assms(3-5) in simp_all)
    moreover have "recv_post a received ms r None (r\<lparr>ri_stream := w, ri_connected := False\<rparr>)"
      by (rule recv_post_end [OF sl(2) assms(2)]) (use w(1) fin in simp_all)
    ultimately show ?thesis
      using Inl e w(2) sl(1) assms(3) by (cases "k = WouldBlock"; cases "k = Interrupted") (simp_all add: absorb_def progress_def Let_def)
  next
    case (Inr bs)
    have w: "received w = received (ri_stream r) @ bs" "length bs \<le> READ_BUFFER_SIZE - ri_frame_pos r"
      using assms(1,6) Inr by (auto simp: stream_ok_def)
    show ?thesis
    proof (cases "bs = []")
      case True
      have "recv_post a received ms r None (r\<lparr>ri_stream := w, ri_connected := False\<rparr>)"
        by (rule recv_post_end [OF sl(2) assms(2)]) (use w(1) fin True in simp_all)
      then show ?thesis using True Inr by (simp add: absorb_def Let_def)
    next
      case False
      from absorb_data [OF assms(2) False w(2), of w] obtain r1 where r1: "absorb (Inr bs, w) r = (True, r1)"
        "same_link r r1" "ri_connected r1" "ri_stream r1 = w" "buffered r1 = buffered r @ bs"
        "ri_frame_pos r1 = ri_frame_pos r + length bs" using assms(3) by auto
      have "delivered_so_far a received ms r1"
        using r1(2-5) w(1) all by (simp add: delivered_so_far_def same_link_def)
      moreover have "progress interrupts r r1"
        using r1(6) False w(2) by (cases bs) (auto simp: progress_def)
      ultimately show ?thesis using r1 Inr by simp
    qed
  qed
qed

lemma recv_frames_ok:
  assumes "stream_ok t received interrupts" "link_wf r" "ri_connected r" "delivered_so_far a received ms r"
  shows "\<exists>m r'. recv_frames a t r = Some (Inr (m, r')) \<and> recv_post a received ms r m r'"
  using assms(2-)
proof (induction "(READ_BUFFER_SIZE - ri_frame_pos r, interrupts (ri_stream r))" arbitrary: r
    rule: wf_induct_rule [OF wf_lex_prod [OF wf_less_than wf_less_than]])
  case (1 r)
  let ?key = "ri_encryption_key r"
  have all: "stream_messages a ?key (received (ri_stream r) @ x) = ms @ stream_messages a ?key (buffered r @ x)" for x
    using 1(3,4) by (simp add: delivered_so_far_def)
  note cases = decode_buffered_frame_cases [OF 1(2), of a t]
  show ?case
  proof (cases "first_frame a ?key (buffered r)")
    case Refused
    with cases obtain r' where r': "decode_buffered_frame a t r = Inr (None, r')" "same_link r r'" "\<not> ri_connected r'"
      "ri_stream r' \<in> {ri_stream r, tcp_shutdown t (ri_stream r)}" by auto
    then have "received (ri_stream r') = received (ri_stream r)" using assms(1) by (auto simp: stream_ok_def)
    then have "stream_messages a ?key (received (ri_stream r')) = ms"
      using all [of "[]"] stream_messages_Refused [OF Refused, of "[]"] by simp
    then have "recv_post a received ms r None r'" by (intro recv_post_end [OF r'(2) 1(2)]) (use r'(3) in simp_all)
    with r' show ?thesis by (subst recv_frames.simps) simp
  next
    case (Message m n)
    with cases obtain r' where r': "decode_buffered_frame a t r = Inr (Some m, r')" "same_link r r'"
      "ri_connected r' = ri_connected r" "ri_stream r' = ri_stream r" "buffered r' = drop n (buffered r)" by auto
    then have "recv_post a received ms r (Some m) r'"
      using all stream_messages_Message [OF Message] 1(3)
      by (simp add: recv_post_def delivered_so_far_def same_link_def opt_list_def)
    with r'(1) show ?thesis by (subst recv_frames.simps) simp
  next
    case Incomplete
    obtain res w where rd: "tcp_read t (READ_BUFFER_SIZE - ri_frame_pos r) (ri_stream r) = (res, w)" by fastforce
    obtain go r1 where r1: "absorb (res, w) r = (go, r1)"
      "if go then same_link r r1 \<and> ri_connected r1 \<and> delivered_so_far a received ms r1 \<and> progress interrupts r r1
       else recv_post a received ms r None r1"
      using read_step [OF assms(1) 1(2-4) Incomplete rd] by (cases "absorb (res, w) r") auto
    have "ri_frame_pos r < 16432" using first_frame_incomplete [OF Incomplete] length_buffered [OF 1(2)] by simp
    moreover have "length (ri_frame_buf r) = READ_BUFFER_SIZE" using 1(2) by (simp add: link_wf_def)
    ultimately have step: "recv_frames a t r = (if go then recv_frames a t r1 else Some (Inr (None, r1)))"
      using cases Incomplete 1(3) rd r1(1) by (subst recv_frames.simps) (simp add: READ_BUFFER_SIZE_def)
    show ?thesis
    proof (cases go)
      case True
      with r1(2) have r1': "same_link r r1" "ri_connected r1" "delivered_so_far a received ms r1" "progress interrupts r r1"
        by simp_all
      have "\<exists>m r'. recv_frames a t r1 = Some (Inr (m, r')) \<and> recv_post a received ms r1 m r'"
        by (rule 1(1)) (use r1' in \<open>auto simp: progress_def same_link_def\<close>)
      with step True recv_post_trans [OF r1'(1)] show ?thesis by auto
    qed (use step r1(2) in simp)
  qed
qed

section \<open>Runs of the link\<close>

datatype link_op = SendOp worker_message | RecvOp

primrec link_step :: "aead \<Rightarrow> 'w tcp \<Rightarrow> link_op \<Rightarrow> 'w real_io \<Rightarrow> (control_message option \<times> 'w real_io) res option" where
  "link_step a t (SendOp m) r = Some (and_then (real_send a t m r) (\<lambda>r'. Inr (None, r')))"
| "link_step a t RecvOp r = real_recv a t r"

primrec link_run :: "aead \<Rightarrow> 'w tcp \<Rightarrow> link_op list \<Rightarrow> 'w real_io \<Rightarrow> (control_message list \<times> 'w real_io) res option" where
  "link_run a t [] r = Some (Inr ([], r))"
| "link_run a t (op # ops) r =
     bind_run (link_step a t op r) (\<lambda>(m, r1).
     bind_run (link_run a t ops r1) (\<lambda>(ms, r2). Some (Inr (opt_list m @ ms, r2))))"

primrec sends_ok :: "link_op \<Rightarrow> bool" where
  "sends_ok (SendOp m) = worker_message_ok m"
| "sends_ok RecvOp = True"

text \<open>The cipher works, and the nonces have its length.\<close>

definition cipher_ok :: "aead \<Rightarrow> 'w tcp \<Rightarrow> u8 list option \<Rightarrow> bool" where
  "cipher_ok a t key = (aead_ok a \<and> key_ok key \<and> (\<forall>w. length (fst (tcp_nonce t w)) = NONCE_LEN))"

lemma write_parts_received:
  "stream_ok t received interrupts \<Longrightarrow> received (snd (write_parts (tcp_writer t) ps w)) = received w"
proof (induction ps arbitrary: w)
  case (Cons p ps)
  obtain x w' where w': "wr_write_all (tcp_writer t) p w = (x, w')" by fastforce
  have "received (snd (wr_write_all (tcp_writer t) p w)) = received w" using Cons.prems by (simp add: stream_ok_def)
  with w' Cons.IH [OF Cons.prems, of w'] show ?case by (simp split: sum.splits)
qed (simp add: stream_ok_def)

lemma write_frame_any:
  assumes "aead_ok a" "key_ok key" "key = None \<or> length nonce = NONCE_LEN" "length payload \<le> MAX_FRAME_PAYLOAD"
  shows "\<exists>parts. write_frame_encrypted a nonce wr w ty payload key = Inr (write_parts wr parts w)"
proof (cases key)
  case None
  then show ?thesis
    using assms(4) by (auto simp: write_frame_encrypted_def usize_checked_add_def u32_try_from_def frame_consts simp del: write_parts.simps)
next
  case (Some k)
  let ?inner = "u16_to_le PROTOCOL_VERSION @ [ty] @ payload"
  have len: "length ?inner \<le> FRAME_INNER_MIN + MAX_FRAME_PAYLOAD" using assms(4) by (simp add: frame_consts)
  have k: "length k = KEY_LEN" "length nonce = NONCE_LEN" using assms(2,3) Some by (simp_all add: key_ok_def)
  have "\<exists>c. aead_seal a k nonce d ?inner = Some c" for d
    using aead_okD(1) [OF assms(1) k len, of d] by blast
  then show ?thesis
    using assms(4) Some
    by (auto simp: write_frame_encrypted_def encrypt_frame_def usize_checked_add_def u32_try_from_def frame_consts Let_def
          and_then_Inr expect_Inr simp del: write_parts.simps) (metis expect_simps(2) and_then_simps(2))
qed

lemma real_send_ok:
  assumes "stream_ok t received interrupts" "cipher_ok a t (ri_encryption_key r)" "link_wf r" "worker_message_ok m"
    "delivered_so_far a received ms r"
  shows "\<exists>r'. real_send a t m r = Inr r' \<and> same_link r r' \<and> delivered_so_far a received ms r'"
proof (cases "ri_connected r")
  case True
  let ?key = "ri_encryption_key r" and ?p = "wire_worker_message m"
  have len: "length ?p \<le> MAX_FRAME_PAYLOAD" by (rule wire_worker_message_length)
  have buf: "MAX_FRAME_PAYLOAD \<le> length (ri_write_buf r)" "length (ri_write_buf r) = MAX_FRAME_PAYLOAD"
    using assms(3) by (simp_all add: link_wf_def)
  obtain nonce w1 where n: "(if ?key = None then ([], ri_stream r) else tcp_nonce t (ri_stream r)) = (nonce, w1)" by fastforce
  then have w1: "received w1 = received (ri_stream r)" "?key = None \<or> length nonce = NONCE_LEN"
    using assms(1,2) by (auto simp: stream_ok_def cipher_ok_def split: if_splits) (metis fst_conv snd_conv)+
  have "aead_ok a" "key_ok ?key" using assms(2) by (simp_all add: cipher_ok_def)
  from write_frame_any [OF this w1(2) len, of "tcp_writer t" w1 "message_tag m"] obtain parts where
    parts: "write_frame_encrypted a nonce (tcp_writer t) w1 (message_tag m) ?p ?key = Inr (write_parts (tcp_writer t) parts w1)"
    by blast
  obtain res w2 where w2: "write_parts (tcp_writer t) parts w1 = (res, w2)" by fastforce
  then have "received w2 = received (ri_stream r)"
    using write_parts_received [OF assms(1), of parts w1] w1(1) by simp
  then have "delivered_so_far a received ms (r\<lparr>ri_write_buf := wb, ri_stream := w2, ri_connected := c\<rparr>)" for wb c
    using assms(5) True by (cases c) (auto simp: delivered_so_far_def buffered_def dest: spec [where x = "[]"])
  then show ?thesis
    using True n parts w2 len buf assms(3) encode_agent_message_eq [OF assms(4) buf(1)]
    by (auto simp: real_send_def same_link_def link_wf_def Let_def)
qed (use assms in \<open>simp add: real_send_def same_link_def\<close>)

lemma link_step_ok:
  assumes "stream_ok t received interrupts" "cipher_ok a t (ri_encryption_key r)" "link_wf r" "sends_ok op"
    "delivered_so_far a received ms r"
  shows "\<exists>m r'. link_step a t op r = Some (Inr (m, r')) \<and> same_link r r' \<and> delivered_so_far a received (ms @ opt_list m) r'"
proof (cases op)
  case (SendOp m)
  then show ?thesis using real_send_ok [OF assms(1-3) _ assms(5), of m] assms(4) by auto
next
  case RecvOp
  show ?thesis
  proof (cases "ri_connected r")
    case True
    then show ?thesis
      using RecvOp recv_frames_ok [OF assms(1,3) True assms(5)] by (auto simp: real_recv_def recv_post_def)
  qed (use RecvOp assms in \<open>simp add: real_recv_def same_link_def\<close>)
qed

lemma link_run_ok:
  assumes "stream_ok t received interrupts" "cipher_ok a t (ri_encryption_key r)" "link_wf r" "list_all sends_ok ops"
    "delivered_so_far a received ms r"
  shows "\<exists>ms' r'. link_run a t ops r = Some (Inr (ms', r')) \<and> same_link r r' \<and> delivered_so_far a received (ms @ ms') r'"
  using assms(2-)
proof (induction ops arbitrary: r ms)
  case (Cons op ops)
  from link_step_ok [OF assms(1) Cons.prems(1,2) _ Cons.prems(4), of op] Cons.prems(3) obtain m r1 where
    1: "link_step a t op r = Some (Inr (m, r1))" "same_link r r1" "delivered_so_far a received (ms @ opt_list m) r1" by auto
  then have "cipher_ok a t (ri_encryption_key r1)" "link_wf r1" using Cons.prems(1) by (simp_all add: same_link_def)
  from Cons.IH [OF this _ 1(3)] Cons.prems(3) obtain ms' r' where
    "link_run a t ops r1 = Some (Inr (ms', r'))" "same_link r1 r'" "delivered_so_far a received ((ms @ opt_list m) @ ms') r'"
    by auto
  with 1 same_link_trans show ?case by (fastforce simp: bind_run_def)
qed (simp add: same_link_def)

lemma real_io_open_ok:
  "received w = [] \<Longrightarrow> link_wf (real_io_open t key w) \<and> delivered_so_far a received [] (real_io_open t key w)"
  by (simp add: real_io_open_def link_wf_def delivered_so_far_def buffered_def)

section \<open>Properties\<close>

text \<open>
  C15. The socket link delivers the frames of the stream, however the bytes were cut into reads. For
  every sequence of sends and receives on a fresh link, over a stream that is not interrupted for
  ever, no operation panics or hangs; the messages handed over are a prefix of the messages the
  frame codec finds in the bytes received; and as soon as a receive reports that there is nothing
  more, they are all of them, in order, each once. A frame that is refused ends the session.
\<close>

theorem link_stream:
  assumes "stream_ok t received interrupts" and "cipher_ok a t key" and "received w = []" and "list_all sends_ok ops"
  shows "\<exists>ms r. link_run a t ops (real_io_open t key w) = Some (Inr (ms, r))
    \<and> prefix ms (stream_messages a key (received (ri_stream r)))
    \<and> (ri_connected r \<longrightarrow> (\<exists>m r'. real_recv a t r = Some (Inr (m, r'))
         \<and> (m = None \<longrightarrow> ms = stream_messages a key (received (ri_stream r')))))"
proof -
  let ?r = "real_io_open t key w"
  have k: "ri_encryption_key ?r = key" by (simp add: real_io_open_def)
  from link_run_ok [OF assms(1), of a ?r ops "[]"] real_io_open_ok [where received = received and w = w] assms k
  obtain ms r where r: "link_run a t ops ?r = Some (Inr (ms, r))" "same_link ?r r" "delivered_so_far a received ms r"
    by auto
  then have key: "ri_encryption_key r = key" "link_wf r" using k by (simp_all add: same_link_def)
  have "prefix ms (stream_messages a key (received (ri_stream r)))"
    using r(3) key(1) by (auto simp: delivered_so_far_def split: if_splits dest: spec [where x = "[]"])
  moreover have "\<exists>m r'. real_recv a t r = Some (Inr (m, r')) \<and> (m = None \<longrightarrow> ms = stream_messages a key (received (ri_stream r')))"
    if "ri_connected r"
    using recv_frames_ok [OF assms(1) key(2) that r(3)] that key(1) by (auto simp: real_recv_def recv_post_def)
  ultimately show ?thesis using r(1) by blast
qed

text \<open>A stream that follows a script: chunks of data, interruptions, and nothing for now.\<close>

datatype read_event = Chunk "u8 list" | Interruption | Nothing

fun script_read :: "nat \<Rightarrow> read_event list \<times> u8 list \<Rightarrow> (io_error + u8 list) \<times> (read_event list \<times> u8 list)" where
  "script_read n ([], got) = (Inl (WouldBlock, []), ([], got))"
| "script_read n (Chunk bs # evs, got) =
     (if length bs \<le> n then (Inr bs, (evs, got @ bs)) else (Inr (take n bs), (Chunk (drop n bs) # evs, got @ take n bs)))"
| "script_read n (Interruption # evs, got) = (Inl (Interrupted, []), (evs, got))"
| "script_read n (Nothing # evs, got) = (Inl (WouldBlock, []), (evs, got))"

definition script_tcp :: "(read_event list \<times> u8 list) tcp" where
  "script_tcp =
     \<lparr>tcp_connect_timeout = (\<lambda>_ _ w. (Inr (), w)), tcp_set_nonblocking = (\<lambda>w. (Inr (), w)),
      tcp_set_nodelay = (\<lambda>w. (Inr (), w)), tcp_read = script_read,
      tcp_writer = \<lparr>wr_write_all = (\<lambda>_ w. (Inr (), w)), wr_flush = (\<lambda>w. (Inr (), w))\<rparr>,
      tcp_shutdown = (\<lambda>w. w), tcp_epoch_nanos = (\<lambda>_. 0), tcp_nonce = (\<lambda>w. (replicate NONCE_LEN 0, w))\<rparr>"

lemma script_tcp_ok: "stream_ok script_tcp snd (length \<circ> fst)"
proof -
  have "length bs \<le> n \<and> snd w' = snd w @ bs" if "script_read n w = (Inr bs, w')" for n w bs w'
    using that by (induction n w rule: script_read.induct) (auto split: if_splits)
  moreover have "snd w' = snd w \<and> (k = Interrupted \<longrightarrow> length (fst w') < length (fst w))"
    if "script_read n w = (Inl (k, e), w')" for n w k e w'
    using that by (induction n w rule: script_read.induct) (auto split: if_splits)
  ultimately show ?thesis by (simp add: stream_ok_def script_tcp_def)
qed

definition probe_script :: "read_event list" where
  "probe_script = (let f = frame_bytes plain_seal [] None MSG_PROBE_POD (u64_to_le 7) in
     [Chunk (take 3 f), Interruption, Nothing, Chunk (drop 3 f)])"

theorem link_stream_witness:
  "\<exists>ms r. link_run plain_seal script_tcp
        [RecvOp, SendOp (NodeHeartbeat \<lparr>hb_tick = 1, hb_active_pods = 0, hb_gpu_free = 8\<rparr>), RecvOp] (real_io_open script_tcp None (probe_script, [])) = Some (Inr (ms, r))
    \<and> prefix ms (stream_messages plain_seal None (snd (ri_stream r)))"
  using link_stream [OF script_tcp_ok, where a = plain_seal and key = None and w = "(probe_script, [])"
      and ops = "[RecvOp, SendOp (NodeHeartbeat \<lparr>hb_tick = 1, hb_active_pods = 0, hb_gpu_free = 8\<rparr>), RecvOp]"]
  by (auto simp: cipher_ok_def plain_seal_ok key_ok_def script_tcp_def worker_message_ok_def)

text \<open>
  The frame buffer is never full: whenever decoding asks for more bytes on a link that stays
  connected, less than one maximal frame (16432 bytes) is buffered, so the read that follows has
  at least 16336 bytes of room and the session is never dropped for lack of space.
\<close>

theorem frame_buffer_never_full:
  assumes "link_wf r" and "decode_buffered_frame a t r = Inr (None, r')" and "ri_connected r'"
  shows "ri_frame_pos r' < 16432 \<and> 16336 < length (ri_frame_buf r') - ri_frame_pos r'"
proof -
  have "first_frame a (ri_encryption_key r) (buffered r) = Incomplete \<and> r' = r"
    using decode_buffered_frame_cases [OF assms(1), of a t] assms(2,3)
    by (cases "first_frame a (ri_encryption_key r) (buffered r)") auto
  then show ?thesis
    using first_frame_incomplete [of a "ri_encryption_key r" "buffered r"] length_buffered [OF assms(1)] assms(1)
    by (simp add: link_wf_def READ_BUFFER_SIZE_def)
qed

theorem frame_buffer_never_full_witness:
  "ri_frame_pos (real_io_open script_tcp None ([], [])) < 16432"
proof -
  let ?r = "real_io_open script_tcp None ([], [])"
  have "decode_buffered_frame plain_seal script_tcp ?r = Inr (None, ?r)"
    by (simp add: decode_buffered_frame_def real_io_open_def try_decode_frame_def)
  then show ?thesis
    using frame_buffer_never_full [of ?r plain_seal script_tcp ?r] real_io_open_ok [of snd "([], [])" script_tcp None]
    by (simp add: real_io_open_def)
qed

end
