(* ===== verification/Worker_Frame.thy ===== *)
theory Worker_Frame
  imports Worker_Tick
begin

text \<open>
  What a worker step leaves alone. The handlers and the scan change the pods, the pending failures,
  the three allocations and the secret cache of a worker, the environment, and the link through
  its two operations; nothing else. The locale \<open>framed\<close> takes a property of system states that
  such changes keep and shows that every step of a tick keeps it.
\<close>

section \<open>The fixed part of a worker\<close>

record node_part =
  np_node_name :: string
  np_gpu_type :: gpu_type
  np_gpu_total :: u8
  np_cpu_millicores :: u32
  np_memory_megabytes :: u32
  np_last_heartbeat_tick :: u64
  np_registered :: bool
  np_lifecycle_concurrency :: nat

definition node_part :: "worker \<Rightarrow> node_part" where
  "node_part w =
     \<lparr>np_node_name = wk_node_name w, np_gpu_type = wk_gpu_type w, np_gpu_total = wk_gpu_total w,
      np_cpu_millicores = wk_cpu_millicores w, np_memory_megabytes = wk_memory_megabytes w,
      np_last_heartbeat_tick = wk_last_heartbeat_tick w, np_registered = wk_registered w,
      np_lifecycle_concurrency = wk_lifecycle_concurrency w\<rparr>"

lemma node_part_updates [simp]:
  "node_part (w\<lparr>wk_pods := ps\<rparr>) = node_part w"
  "node_part (w\<lparr>wk_pending_failure_reasons := rs\<rparr>) = node_part w"
  "node_part (w\<lparr>wk_gpu_allocated := g\<rparr>) = node_part w"
  "node_part (w\<lparr>wk_cpu_allocated_millicores := c\<rparr>) = node_part w"
  "node_part (w\<lparr>wk_memory_allocated_megabytes := m\<rparr>) = node_part w"
  "node_part (w\<lparr>wk_secret_resolver := r\<rparr>) = node_part w"
  by (simp_all add: node_part_def)

lemma node_part_update_pod [simp]: "node_part (update_pod k f w) = node_part w"
  by (simp add: update_pod_def)

lemma node_part_release [simp]: "node_part (release_pod_resources k w) = node_part w"
  by (simp add: release_pod_resources_def split: option.split)

lemma node_part_stop [simp]: "node_part (handle_stop_pod cmd now w) = node_part w"
  by (simp add: handle_stop_pod_def split: option.split)

lemma node_part_allocate [simp]: "node_part (allocate cmd w) = node_part w"
  by (simp add: allocate_def)

lemma node_part_retry [simp]: "node_part (snd (retry_lifecycle_pod k now w)) = node_part w"
  by (simp add: retry_lifecycle_pod_def Let_def split: option.split)

lemma node_part_remove_tombstone: "remove_tombstone e w = Inr w' \<Longrightarrow> node_part w' = node_part w"
  by (auto simp: remove_tombstone_def and_then_Inr Let_def)

lemma node_part_prune: "prune_terminal_pods_to n w = Inr w' \<Longrightarrow> node_part w' = node_part w"
  by (auto simp: prune_terminal_pods_to_def and_then_Inr Let_def node_part_remove_tombstone
        elim!: fold_res_inv [where I = "\<lambda>v. node_part v = node_part w"])

lemma node_part_retire: "retire_pod k w = Inr w' \<Longrightarrow> node_part w' = node_part w"
  by (auto simp: retire_pod_def scrub_terminal_pod_data_def and_then_Inr dest!: node_part_prune)

lemma node_part_schedule: "schedule_stop_retry k now w = Inr w' \<Longrightarrow> node_part w' = node_part w"
  by (auto simp: schedule_stop_retry_def and_then_Inr)

lemma node_part_cleanup: "begin_failure_cleanup k reason now w = Inr w' \<Longrightarrow> node_part w' = node_part w"
  by (auto simp: begin_failure_cleanup_def and_then_Inr Let_def)

lemmas node_part_dests = node_part_prune node_part_retire node_part_schedule node_part_cleanup

section \<open>The messages a worker sends\<close>

lemma sent_ok [simp]:
  "worker_message_ok (status_event k st)" "worker_message_ok (run_response r 0 b)"
  "worker_message_ok (run_response r (forward_status e) b)"
  "worker_message_ok (run_response r RUN_STATUS_NO_RUNNING_POD b)"
  "worker_message_ok (register_msg w)" "worker_message_ok (heartbeat_msg now w)"
  by (simp_all add: worker_message_ok_def status_event_def run_response_def register_msg_def heartbeat_msg_def
        forward_status_def RUN_STATUS_NO_RUNNING_POD_def RUN_STATUS_RESPONSE_TOO_LARGE_def
        RUN_STATUS_FORWARDING_FAILED_def split: runtime_error.split)

section \<open>Framed properties\<close>

locale framed =
  fixes cx :: "('e, 'i) ctx" and P :: "('e, 'i) sys \<Rightarrow> bool"
  assumes env: "P s \<Longrightarrow> P (s\<lparr>sy_env := e\<rparr>)"
    and worker: "P s \<Longrightarrow> node_part w = node_part (sy_worker s) \<Longrightarrow> P (s\<lparr>sy_worker := w\<rparr>)"
    and sent: "P s \<Longrightarrow> worker_message_ok m \<Longrightarrow> send cx m s = Inr s' \<Longrightarrow> P s'"
    and received: "P s \<Longrightarrow> io_recv (cx_io cx) (sy_io s) = Inr (r, i) \<Longrightarrow> P (s\<lparr>sy_io := i\<rparr>)"
begin

definition good :: "('e, 'i) sys res \<Rightarrow> bool" where
  "good r = (\<forall>s. r = Inr s \<longrightarrow> P s)"

lemma goodD: "good r \<Longrightarrow> r = Inr s \<Longrightarrow> P s"
  by (simp add: good_def)

lemma good_simps [simp]: "good (Inr s) \<longleftrightarrow> P s" "good (Inl e)"
  by (simp_all add: good_def)

lemma good_and_then: "good r \<Longrightarrow> (\<And>s. P s \<Longrightarrow> good (g s)) \<Longrightarrow> good (and_then r g)"
  by (cases r) simp_all

lemma good_result: "(\<And>x. r = Inr x \<Longrightarrow> good (g x)) \<Longrightarrow> good (and_then r g)"
  by (cases r) simp_all

lemma good_call: "P s \<Longrightarrow> (\<And>r e. P (s\<lparr>sy_env := e\<rparr>) \<Longrightarrow> good (f r (s\<lparr>sy_env := e\<rparr>))) \<Longrightarrow> good (call c f s)"
  unfolding call_def by (rule good_result) (auto intro: env)

lemma good_send: "P s \<Longrightarrow> worker_message_ok m \<Longrightarrow> good (send cx m s)"
  using sent by (simp add: good_def)

lemma good_on_worker:
  "P s \<Longrightarrow> (\<And>w. f (sy_worker s) = Inr w \<Longrightarrow> node_part w = node_part (sy_worker s)) \<Longrightarrow> good (on_worker f s)"
  unfolding on_worker_def by (rule good_result) (auto intro: worker)

lemma good_modify: "P s \<Longrightarrow> node_part (f (sy_worker s)) = node_part (sy_worker s) \<Longrightarrow> good (modify_worker f s)"
  unfolding modify_worker_def by (auto intro: worker)

lemmas good_rules = good_call good_send good_on_worker good_modify

lemma run_request_kept: "P s \<Longrightarrow> good (handle_run_request cx cmd s)"
  unfolding handle_run_request_def
  by (auto split: option.split sum.split intro!: good_result [of "expect _ _"] good_rules)

lemma admit_pod_kept: "P s \<Longrightarrow> good (admit_pod cx cmd now s)"
  unfolding admit_pod_def Let_def by (auto split: prod.split intro!: good_rules worker)

lemma start_pod_kept: "P s \<Longrightarrow> good (handle_start_pod cx cmd now s)"
  unfolding handle_start_pod_def reject_start_def
  by (auto split: option.split intro!: good_and_then good_rules admit_pod_kept dest: node_part_prune)

lemma handle_message_kept: "P s \<Longrightarrow> good (handle_message cx m now s)"
  by (cases m)
     (auto simp: handle_probe_pod_def split: option.split intro!: start_pod_kept run_request_kept good_rules)

lemma fail_pod_kept: "P s \<Longrightarrow> good (fail_pod cx pod_id reason now s)"
  unfolding fail_pod_def Let_def
  by (auto intro!: good_result [of "expect _ _"] good_call good_and_then [of "on_worker _ _"] good_on_worker
        good_send dest!: node_part_dests)

lemma finish_pod_stop_kept: "P s \<Longrightarrow> good (finish_pod_stop cx pod_id exit_code now s)"
  unfolding finish_pod_stop_def Let_def
  by (auto intro!: good_result good_send worker dest!: node_part_retire)

lemma unmount_and_finish_kept: "P s \<Longrightarrow> good (unmount_and_finish cx pod_id exit_code now s)"
  unfolding unmount_and_finish_def
  by (auto split: sum.split intro!: good_rules finish_pod_stop_kept dest!: node_part_schedule)

lemma complete_pod_stop_kept: "P s \<Longrightarrow> good (complete_pod_stop cx pod_id exit_code now s)"
  unfolding complete_pod_stop_def
  by (auto split: sum.split option.split dest!: node_part_schedule
        intro!: good_result good_rules unmount_and_finish_kept worker)

lemma probe_running_kept: "P s \<Longrightarrow> good (probe_running cx now k s)"
  unfolding probe_running_def Let_def
  by (auto intro!: good_result good_rules fail_pod_kept worker env)

lemma scan_running_kept: "P s \<Longrightarrow> good (scan_running cx now k pod s)"
  unfolding scan_running_def
  by (auto split: sum.split pod_status.split
        intro!: good_result good_call fail_pod_kept probe_running_kept complete_pod_stop_kept worker)

lemma start_failed_kept:
  assumes "P s"
  shows "good (start_failed cx now k h e s)"
proof -
  obtain b w where bw: "retry_lifecycle_pod k now (sy_worker s) = (b, w)" by fastforce
  have "node_part w = node_part (sy_worker s)" using node_part_retry [of k now "sy_worker s"] bw by simp
  then have "P (s\<lparr>sy_worker := w\<rparr>)" using assms worker by simp
  then show ?thesis
    unfolding start_failed_def bw
    by (auto simp: Let_def split: sum.split intro!: good_call good_modify fail_pod_kept)
qed

lemma complete_op_kept:
  assumes "P s"
  shows "good (complete_op cx now t s)"
proof -
  have "good (complete_op cx now (Done op r) s)" for op r
    using assms
    by (cases op)
       (auto simp: complete_pull_def complete_create_def complete_start_def complete_stop_def
          split: lifecycle_result.split sum.split dest!: node_part_schedule
          intro!: good_send good_on_worker fail_pod_kept complete_pod_stop_kept start_failed_kept worker)
  then show ?thesis by (cases t) simp_all
qed

definition good_scan :: "('e, 'i) scan res \<Rightarrow> bool" where
  "good_scan r = (\<forall>st. r = Inr st \<longrightarrow> P (snd st))"

lemma good_scan_simps [simp]: "good_scan (Inr (ops, s)) \<longleftrightarrow> P s" "good_scan (Inl e)"
  by (simp_all add: good_scan_def)

lemma good_scan_result: "(\<And>x. r = Inr x \<Longrightarrow> good_scan (g x)) \<Longrightarrow> good_scan (and_then r g)"
  by (cases r) simp_all

lemma good_scan_action: "good r \<Longrightarrow> good_scan (and_then r (\<lambda>s. Inr (ops, s)))"
  by (cases r) simp_all

lemma scan_creating_kept: "P s \<Longrightarrow> good_scan (scan_creating cx now k pod (ops, s))"
  unfolding scan_creating_def Let_def prod.case
  by (auto intro!: good_scan_result good_scan_action fail_pod_kept env split: sum.split)

lemma scan_pod_kept: "P s \<Longrightarrow> good_scan (scan_pod cx now k (ops, s))"
  unfolding scan_pod_def Let_def prod.case
  by (rule good_scan_result)
     (auto intro!: good_scan_action scan_running_kept scan_creating_kept split: tracked_pod_state.split option.split)

lemma scan_pods_kept: "P s \<Longrightarrow> scan_pods cx now s = Inr (ops, s') \<Longrightarrow> P s'"
  unfolding scan_pods_def
  by (drule fold_res_inv [where I = "\<lambda>st. P (snd st)"]) (use scan_pod_kept in \<open>auto simp: good_scan_def\<close>)

lemma complete_ops_kept: "P s \<Longrightarrow> good (fold_res (complete_op cx now) ts s)"
  unfolding good_def by (blast intro: fold_res_inv [where I = P] goodD [OF complete_op_kept])

lemma drive_pods_kept: "P s \<Longrightarrow> good (drive_pods cx sched now s)"
  unfolding drive_pods_def
  by (rule good_result) (auto intro!: good_call complete_ops_kept dest: scan_pods_kept)

end

text \<open>The receive loop, whose induction is over the loop and not over the locale's context.\<close>

lemma recv_loop_kept:
  assumes "recv_loop cx now s = Some r" "framed cx P" "P s" "r = Inr s'"
  shows "P s'"
  using assms
proof (induction rule: recv_loop.raw_induct [rotated, consumes 1, case_names step])
  case (step recv_loop cx now s r)
  show ?case
  proof (cases "io_recv (cx_io cx) (sy_io s)")
    case (Inr mi)
    obtain m i where mi: "mi = (m, i)" by (cases mi)
    have i: "P (s\<lparr>sy_io := i\<rparr>)" using framed.received [OF step(3,4)] Inr mi by simp
    show ?thesis
    proof (cases m)
      case None
      with step(2,5) Inr mi i show ?thesis by auto
    next
      case (Some msg)
      with step(2,5) Inr mi obtain t where t: "handle_message cx msg now (s\<lparr>sy_io := i\<rparr>) = Inr t"
          "recv_loop cx now t = Some r"
        by (auto split: sum.splits)
      have "P t" by (rule framed.goodD [OF step(3) framed.handle_message_kept [OF step(3) i] t(1)])
      with step(1) [OF t(2) step(3)] step(5) show ?thesis by simp
    qed
  qed (use step(2,5) in auto)
qed

text \<open>
  A tick is a registration, steps that keep every framed property, and a heartbeat.
\<close>

lemma tick_steps:
  assumes "tick cx sched s = Some (Inr s')"
  obtains s1 s2 s3 where "register_step cx (io_now (cx_io cx) (sy_io s)) s = Inr s1"
    "recv_loop cx (io_now (cx_io cx) (sy_io s)) s1 = Some (Inr s2)"
    "drive_pods cx sched (io_now (cx_io cx) (sy_io s)) s2 = Inr s3"
    "heartbeat_step cx (io_now (cx_io cx) (sy_io s)) s3 = Inr s'"
  using assms by (auto simp: tick_def Let_def and_then_Inr split: sum.splits)

lemma drive_framed: "drive_pods cx sched now s = Inr s' \<Longrightarrow> framed cx P \<Longrightarrow> P s \<Longrightarrow> P s'"
  by (metis framed.goodD framed.drive_pods_kept)

lemma tick_phases:
  assumes "tick cx sched s = Some (Inr s')"
  obtains s1 s3 where "register_step cx (io_now (cx_io cx) (sy_io s)) s = Inr s1"
    "\<And>P. framed cx P \<Longrightarrow> P s1 \<Longrightarrow> P s3" "heartbeat_step cx (io_now (cx_io cx) (sy_io s)) s3 = Inr s'"
  using tick_steps [OF assms] drive_framed recv_loop_kept by metis

section \<open>Properties of the link\<close>

text \<open>
  A property of the link and the messages sent through it, which its two operations keep, is kept
  by a whole tick.
\<close>

locale link_inv =
  fixes cx :: "('e, 'i) ctx" and R :: "'i \<Rightarrow> worker_message list \<Rightarrow> bool"
  assumes send_kept: "R i out \<Longrightarrow> worker_message_ok m \<Longrightarrow> io_send (cx_io cx) m i = Inr i' \<Longrightarrow> R i' (out @ [m])"
    and recv_kept: "R i out \<Longrightarrow> io_recv (cx_io cx) i = Inr (r, i') \<Longrightarrow> R i' out"

sublocale link_inv \<subseteq> framed cx "\<lambda>s. R (sy_io s) (sy_out s)"
  by unfold_locales (auto simp: send_def and_then_Inr intro: send_kept recv_kept)

context link_inv
begin

lemma register_link: "R (sy_io s) (sy_out s) \<Longrightarrow> register_step cx now s = Inr s' \<Longrightarrow> R (sy_io s') (sy_out s')"
  using sent [of s "register_msg (sy_worker s)"]
  by (auto simp: register_step_def modify_worker_def and_then_Inr split: if_splits)

lemma heartbeat_link: "R (sy_io s) (sy_out s) \<Longrightarrow> heartbeat_step cx now s = Inr s' \<Longrightarrow> R (sy_io s') (sy_out s')"
  using sent [of s "heartbeat_msg now (sy_worker s)"]
  by (auto simp: heartbeat_step_def modify_worker_def and_then_Inr split: if_splits)

lemma tick_link:
  assumes "tick cx sched s = Some (Inr s')" "R (sy_io s) (sy_out s)"
  shows "R (sy_io s') (sy_out s')"
  using tick_phases [OF assms(1)] register_link [OF assms(2)] heartbeat_link framed_axioms by metis

end

section \<open>The node part over a tick\<close>

interpretation np: framed cx "\<lambda>s. node_part (sy_worker s) = n"
  for cx :: "('e, 'i) ctx" and n
  by unfold_locales (auto simp: send_def and_then_Inr)

end
