(* ===== verification/Worker_Live.thy ===== *)
theory Worker_Live
  imports Worker_Frame Worker_Props "HOL-Library.Sublist"
begin

text \<open>
  What a tick does for the control plane's view of the node: the first tick registers it before
  anything else is sent, every tick leaves a heartbeat less than one interval old, and the size of
  the node never changes.
\<close>

section \<open>Framed facts about a tick\<close>

interpretation sf: framed cx "\<lambda>s. prefix out (sy_out s)"
  for cx :: "('e, 'i) ctx" and out
  by unfold_locales (auto simp: send_def and_then_Inr)

lemma heartbeat_step_out: "heartbeat_step cx now s = Inr s' \<Longrightarrow> prefix (sy_out s) (sy_out s')"
  by (auto simp: heartbeat_step_def send_def modify_worker_def and_then_Inr split: if_splits)

definition static_part :: "worker \<Rightarrow> node_part" where
  "static_part w = node_part (w\<lparr>wk_last_heartbeat_tick := 0, wk_registered := False\<rparr>)"

lemma static_part_eq:
  "static_part w = (node_part w)\<lparr>np_last_heartbeat_tick := 0, np_registered := False\<rparr>"
  by (simp add: static_part_def node_part_def)

lemma static_part_register: "register_step cx now s = Inr s' \<Longrightarrow> static_part (sy_worker s') = static_part (sy_worker s)"
  by (auto simp: register_step_def static_part_def node_part_def send_def modify_worker_def and_then_Inr split: if_splits)

lemma static_part_heartbeat: "heartbeat_step cx now s = Inr s' \<Longrightarrow> static_part (sy_worker s') = static_part (sy_worker s)"
  by (auto simp: heartbeat_step_def static_part_def node_part_def send_def modify_worker_def and_then_Inr split: if_splits)

lemma tick_static:
  assumes "tick cx sched s = Some (Inr s')"
  shows "static_part (sy_worker s') = static_part (sy_worker s)"
proof -
  obtain s1 s3 where s: "register_step cx (io_now (cx_io cx) (sy_io s)) s = Inr s1"
    "\<And>P. framed cx P \<Longrightarrow> P s1 \<Longrightarrow> P s3" "heartbeat_step cx (io_now (cx_io cx) (sy_io s)) s3 = Inr s'"
    using tick_phases [OF assms] by blast
  have "node_part (sy_worker s3) = node_part (sy_worker s1)" by (rule s(2) [OF np.framed_axioms refl])
  then show ?thesis
    using static_part_register [OF s(1)] static_part_heartbeat [OF s(3)] by (simp add: static_part_eq)
qed

section \<open>Heartbeats\<close>

lemma heartbeat_step_fresh:
  assumes "heartbeat_step cx now s = Inr s'" "unat now + 100 < 2 ^ 64"
    "wk_last_heartbeat_tick (sy_worker s) \<le> now"
  shows "wk_last_heartbeat_tick (sy_worker s') \<le> now
    \<and> unat now - unat (wk_last_heartbeat_tick (sy_worker s')) < 100
    \<and> wk_registered (sy_worker s') = wk_registered (sy_worker s)"
proof -
  let ?l = "wk_last_heartbeat_tick (sy_worker s)"
  have "unat ?l \<le> unat now" using assms(3) by (simp add: word_le_nat_alt)
  then have "unat (?l + HEARTBEAT_INTERVAL_TICKS) = unat ?l + 100"
    using assms(2) by (subst unat_add_no_overflow) (simp_all add: worker_consts)
  then show ?thesis
    using assms(1,3)
    by (auto simp: heartbeat_step_def modify_worker_def send_def and_then_Inr word_le_nat_alt split: if_splits)
qed

lemma tick_fresh:
  assumes "tick cx sched s = Some (Inr s')"
    and "now = io_now (cx_io cx) (sy_io s)" and "unat now + 100 < 2 ^ 64"
    and "wk_registered (sy_worker s) \<Longrightarrow> wk_last_heartbeat_tick (sy_worker s) \<le> now"
  shows "wk_registered (sy_worker s') \<and> wk_last_heartbeat_tick (sy_worker s') \<le> now
    \<and> unat now - unat (wk_last_heartbeat_tick (sy_worker s')) < unat HEARTBEAT_INTERVAL_TICKS"
proof -
  obtain s1 s3 where s: "register_step cx now s = Inr s1"
    "\<And>P. framed cx P \<Longrightarrow> P s1 \<Longrightarrow> P s3" "heartbeat_step cx now s3 = Inr s'"
    using tick_phases [OF assms(1)] assms(2) by blast
  have "node_part (sy_worker s3) = node_part (sy_worker s1)" by (rule s(2) [OF np.framed_axioms refl])
  then have "wk_registered (sy_worker s3) = wk_registered (sy_worker s1)"
    "wk_last_heartbeat_tick (sy_worker s3) = wk_last_heartbeat_tick (sy_worker s1)"
    by (simp_all add: node_part_def)
  moreover have "wk_registered (sy_worker s1) \<and> wk_last_heartbeat_tick (sy_worker s1) \<le> now"
    using s(1) assms(4) by (auto simp: register_step_def modify_worker_def and_then_Inr split: if_splits)
  ultimately show ?thesis
    using heartbeat_step_fresh [OF s(3) assms(3)] by (simp add: worker_consts)
qed

text \<open>
  C13. Heartbeats are on time: after every tick that returns, the worker is registered and its last
  heartbeat or registration is less than one interval (100 ticks) old, whatever messages arrive and
  whatever the runtime does, as long as the clock does not run backwards and stays 100 ticks below
  its largest value.
\<close>

theorem heartbeat_fresh:
  assumes "tick cx sched s = Some (Inr s')"
    and "now = io_now (cx_io cx) (sy_io s)" and "unat now + 100 < 2 ^ 64"
    and "wk_registered (sy_worker s) \<Longrightarrow> wk_last_heartbeat_tick (sy_worker s) \<le> now"
  shows "wk_registered (sy_worker s') \<and> wk_last_heartbeat_tick (sy_worker s') \<le> now
    \<and> unat now - unat (wk_last_heartbeat_tick (sy_worker s')) < unat HEARTBEAT_INTERVAL_TICKS"
  using tick_fresh [OF assms] .

theorem heartbeat_fresh_witness:
  "wk_registered small_worker1 \<and> wk_last_heartbeat_tick small_worker1 \<le> 7
   \<and> unat (7 :: u64) - unat (wk_last_heartbeat_tick small_worker1) < 100"
  using heartbeat_fresh [OF small_tick refl]
  by (simp add: small_sys_def small_worker_def small_sys1_def good_cx_def script_io_def worker_consts
        new_with_lifecycle_concurrency_def worker_new_def)

section \<open>Registration\<close>

text \<open>
  A worker that is not registered sends its registration, with the size of its node, before
  every other message of the tick; a registered worker sends none at the start. Nothing that was
  sent is taken back, and the node's name, GPU type, sizes and lifecycle concurrency never change.
\<close>

theorem registers_first:
  assumes "tick cx sched s = Some (Inr s')"
  shows "prefix (sy_out s @ (if wk_registered (sy_worker s) then [] else [register_msg (sy_worker s)])) (sy_out s')
    \<and> static_part (sy_worker s') = static_part (sy_worker s)"
proof -
  obtain s1 s3 where s: "register_step cx (io_now (cx_io cx) (sy_io s)) s = Inr s1"
    "\<And>P. framed cx P \<Longrightarrow> P s1 \<Longrightarrow> P s3" "heartbeat_step cx (io_now (cx_io cx) (sy_io s)) s3 = Inr s'"
    using tick_phases [OF assms] by blast
  have "sy_out s1 = sy_out s @ (if wk_registered (sy_worker s) then [] else [register_msg (sy_worker s)])"
    using s(1) by (auto simp: register_step_def modify_worker_def send_def and_then_Inr split: if_splits)
  moreover have "prefix (sy_out s1) (sy_out s3)" by (rule s(2) [OF sf.framed_axioms]) simp
  ultimately show ?thesis
    using heartbeat_step_out [OF s(3)] tick_static [OF assms] by (metis prefix_order.trans)
qed

theorem registers_first_witness:
  "prefix [register_msg small_worker] (sy_out (small_sys1 [status_event 7 ReportCreating]))
   \<and> static_part small_worker1 = static_part small_worker"
  using registers_first [OF small_tick]
  by (simp add: small_sys_def small_sys1_def small_worker_def new_with_lifecycle_concurrency_def worker_new_def)

end
