(* ===== verification/Sim_Io.thy ===== *)
theory Sim_Io
  imports Worker_Live Hive_Prng
begin

text \<open>
  The staged link of \<^verbatim>\<open>worker/src/sim/io.rs\<close>: the simulator fills the inbound queue before a worker
  tick and drains the outbound list after it. It is an instance of the link interface, it is a
  finite link, and its outbound list is what the worker sent.
\<close>

section \<open>Model\<close>

definition STAGING_CAPACITY :: nat where "STAGING_CAPACITY = 256"

record sim_io =
  si_current_tick :: u64
  si_inbound :: "control_message list"
  si_outbound :: "worker_message list"
  si_prng :: prng

definition sim_io_new :: "u64 \<Rightarrow> sim_io" where
  "sim_io_new seed = \<lparr>si_current_tick = 0, si_inbound = [], si_outbound = [], si_prng = prng_init seed\<rparr>"

definition INBOUND_EXCEEDED :: string where
  "INBOUND_EXCEEDED = ''simulated I/O inbound staging capacity exceeded''"

definition OUTBOUND_EXCEEDED :: string where
  "OUTBOUND_EXCEEDED = ''simulated I/O outbound staging capacity exceeded''"

definition push_inbound :: "control_message \<Rightarrow> sim_io \<Rightarrow> sim_io res" where
  "push_inbound msg i =
     and_then (ensure (length (si_inbound i) < STAGING_CAPACITY) INBOUND_EXCEEDED)
       (\<lambda>_. Inr (i\<lparr>si_inbound := si_inbound i @ [msg]\<rparr>))"

definition drain_outbound :: "sim_io \<Rightarrow> (worker_message list \<times> sim_io) res" where
  "drain_outbound i =
     and_then (ensure (length (si_outbound i) \<le> STAGING_CAPACITY) OUTBOUND_EXCEEDED)
       (\<lambda>_. Inr (si_outbound i, i\<lparr>si_outbound := []\<rparr>))"

definition sim_send :: "worker_message \<Rightarrow> sim_io \<Rightarrow> sim_io res" where
  "sim_send msg i =
     and_then (ensure (length (si_outbound i) < STAGING_CAPACITY) OUTBOUND_EXCEEDED)
       (\<lambda>_. Inr (i\<lparr>si_outbound := si_outbound i @ [msg]\<rparr>))"

definition sim_recv :: "(control_message option, sim_io) call" where
  "sim_recv i =
     (case si_inbound i of
        [] \<Rightarrow> Inr (None, i)
      | m # ms \<Rightarrow> Inr (Some m, i\<lparr>si_inbound := ms\<rparr>))"

definition sim_random_u64 :: "(u64, sim_io) call" where
  "sim_random_u64 i = (let (x, p) = prng_next (si_prng i) in Inr (x, i\<lparr>si_prng := p\<rparr>))"

definition simulated_io :: "sim_io io" where
  "simulated_io =
     \<lparr>io_now = si_current_tick, io_send = sim_send, io_recv = sim_recv, io_random_u64 = sim_random_u64\<rparr>"

section \<open>The contracts it meets\<close>

interpretation sio: finite_link simulated_io "\<lambda>i. length (si_inbound i)"
proof
  fix i m i' assume "io_recv simulated_io i = Inr (Some m, i')"
  then show "length (si_inbound i') < length (si_inbound i)"
    by (auto simp: simulated_io_def sim_recv_def split: list.splits)
next
  fix w i i' assume "io_send simulated_io w i = Inr i'"
  then show "length (si_inbound i') \<le> length (si_inbound i)"
    by (auto simp: simulated_io_def sim_send_def and_then_Inr)
qed

definition sim_ctx :: "'e os \<Rightarrow> 'e runtime \<Rightarrow> ('e, sim_io) ctx" where
  "sim_ctx os rt = \<lparr>cx_os = os, cx_rt = rt, cx_io = simulated_io\<rparr>"

lemma sim_ctx_simps [simp]:
  "cx_os (sim_ctx os rt) = os" "cx_rt (sim_ctx os rt) = rt" "cx_io (sim_ctx os rt) = simulated_io"
  by (simp_all add: sim_ctx_def)

text \<open>
  What the outbound list is: the messages sent since it was last empty, at most its capacity. The
  clock does not move during a tick and the inbound queue only shrinks.
\<close>

definition staged :: "sim_io \<Rightarrow> worker_message list \<Rightarrow> sim_io \<Rightarrow> worker_message list \<Rightarrow> bool" where
  "staged i0 before i out =
     (out = before @ si_outbound i \<and> length (si_outbound i) \<le> STAGING_CAPACITY
      \<and> si_current_tick i = si_current_tick i0 \<and> suffix (si_inbound i) (si_inbound i0)
      \<and> si_prng i = si_prng i0 \<and> list_all worker_message_ok (si_outbound i))"

interpretation stg: link_inv "sim_ctx os rt" "staged i0 before"
  for os :: "'e os" and rt :: "'e runtime" and i0 before
  by unfold_locales
     (auto simp: staged_def simulated_io_def sim_send_def sim_recv_def and_then_Inr
        split: list.splits dest: suffix_ConsD)

text \<open>
  The receive loop of a tick ends only at an empty queue.
\<close>

lemma recv_loop_empties:
  assumes "recv_loop cx now s = Some r" "cx_io cx = simulated_io" "r = Inr s'"
  shows "si_inbound (sy_io s') = []"
  using assms
proof (induction rule: recv_loop.raw_induct [rotated, consumes 1, case_names step])
  case (step recv_loop cx now s r)
  from step(2-) show ?case
    by (auto simp: simulated_io_def sim_recv_def split: list.splits sum.splits dest!: step(1))
qed

section \<open>A worker tick over the staged link\<close>

text \<open>
  A worker tick over the simulated link always returns: the loop that handles the staged control
  messages ends, for every runtime, host and thread schedule.
\<close>

theorem sim_tick_returns: "\<exists>r. tick (sim_ctx os rt) sched s = Some r"
  by (rule sio.tick_returns) simp

interpretation emp: link_inv "sim_ctx os rt" "\<lambda>i out. si_inbound i = []"
  for os :: "'e os" and rt :: "'e runtime"
  by unfold_locales (auto simp: simulated_io_def sim_send_def sim_recv_def and_then_Inr)

lemma sim_tick_empties:
  assumes "tick (sim_ctx os rt) sched s = Some (Inr s')"
  shows "si_inbound (sy_io s') = []"
proof -
  obtain s1 s2 s3 where "recv_loop (sim_ctx os rt) (io_now simulated_io (sy_io s)) s1 = Some (Inr s2)"
    "drive_pods (sim_ctx os rt) sched (io_now simulated_io (sy_io s)) s2 = Inr s3"
    "heartbeat_step (sim_ctx os rt) (io_now simulated_io (sy_io s)) s3 = Inr s'"
    using tick_steps [OF assms, simplified sim_ctx_simps] by blast
  moreover from this(1) have "si_inbound (sy_io s2) = []" by (rule recv_loop_empties) simp_all
  ultimately show ?thesis using drive_framed [OF _ emp.framed_axioms] emp.heartbeat_link by metis
qed

text \<open>
  The staged link hands over exactly what the worker sent. After a tick that started with an
  empty outbound list, draining gives the messages of that tick, in order, and leaves the link as it
  was before with all staged control messages consumed.
\<close>

theorem sim_tick_drains:
  assumes "tick (sim_ctx os rt) sched s = Some (Inr s')" and "si_outbound (sy_io s) = []"
  shows "\<exists>sent. sy_out s' = sy_out s @ sent
    \<and> drain_outbound (sy_io s') = Inr (sent, (sy_io s)\<lparr>si_inbound := []\<rparr>)"
proof -
  have "staged (sy_io s) (sy_out s) (sy_io s') (sy_out s')"
    by (rule stg.tick_link [OF assms(1)]) (simp add: staged_def assms(2))
  with sim_tick_empties [OF assms(1)] assms(2) show ?thesis
    by (auto simp: staged_def drain_outbound_def)
qed

definition idle_sys :: "(nat, sim_io) sys" where
  "idle_sys = \<lparr>sy_worker = small_worker, sy_env = 5, sy_io = sim_io_new 1, sy_out = []\<rparr>"

definition idle_sys1 :: "(nat, sim_io) sys" where
  "idle_sys1 = \<lparr>sy_worker = small_worker\<lparr>wk_registered := True, wk_last_heartbeat_tick := 0\<rparr>, sy_env = 5,
     sy_io = (sim_io_new 1)\<lparr>si_outbound := [register_msg small_worker]\<rparr>, sy_out = [register_msg small_worker]\<rparr>"

lemma idle_tick: "tick (sim_ctx sample_os (good_rt st)) sched idle_sys = Some (Inr idle_sys1)"
proof -
  have "recv_loop (sim_ctx sample_os (good_rt st)) now idle_sys1 = Some (Inr idle_sys1)" for now
    by (subst recv_loop.simps) (simp add: simulated_io_def sim_recv_def idle_sys1_def sim_io_new_def)
  moreover have "register_step (sim_ctx sample_os (good_rt st)) 0 idle_sys = Inr idle_sys1"
    by (simp add: register_step_def idle_sys_def idle_sys1_def send_def simulated_io_def sim_send_def
          sim_io_new_def STAGING_CAPACITY_def modify_worker_def small_defs)
  moreover have "drive_pods (sim_ctx sample_os (good_rt st)) sched now idle_sys1 = Inr idle_sys1" for now
    by (simp add: drive_pods_def scan_pods_def idle_sys1_def small_defs hm_eval call_def run_chunks.simps ret_def)
  moreover have "heartbeat_step (sim_ctx sample_os (good_rt st)) 0 idle_sys1 = Inr idle_sys1"
    by (simp add: heartbeat_step_def idle_sys1_def worker_consts)
  moreover have "io_now simulated_io (sy_io idle_sys) = 0"
    by (simp add: simulated_io_def idle_sys_def sim_io_new_def)
  ultimately show ?thesis by (simp add: tick_def Let_def)
qed

theorem sim_tick_drains_witness:
  "\<exists>sent. sy_out idle_sys1 = sy_out idle_sys @ sent
    \<and> drain_outbound (sy_io idle_sys1) = Inr (sent, (sy_io idle_sys)\<lparr>si_inbound := []\<rparr>)"
  by (rule sim_tick_drains [OF idle_tick]) (simp add: idle_sys_def sim_io_new_def)

end
