(* ===== verification/Sim_Runtime.thy ===== *)
theory Sim_Runtime
  imports Worker_Props Hive_Prng "HOL-Library.List_Lexorder" "HOL-Library.Char_ord"
begin

text \<open>
  The container runtime of the simulation, \<^verbatim>\<open>worker/src/sim/runtime.rs\<close>: pods are entries of a map,
  faults are drawn from the seed and a key on the first attempt of each operation, and probes and
  runs may follow a script. The mutex around the state is held within one operation only, so the
  state is passed explicitly.
\<close>

unbundle bit_operations_syntax

section \<open>Model\<close>

definition PROBE_SCRIPT_MAX :: nat where "PROBE_SCRIPT_MAX = 64"
definition RUN_SCRIPT_MAX :: nat where "RUN_SCRIPT_MAX = 64"

datatype probe_outcome = ProbeHealthy | ProbeUnhealthy | ProbeError

datatype run_outcome =
  RunEcho | RunExactResponseBoundary | RunResponseBoundaryOverflow | RunForwardingFailure | RunTimeout

record operation_counts =
  oc_stop :: u64
  oc_status :: u64
  oc_remove :: u64

record fault_config =
  fc_image_pull_failure_rate :: ratio
  fc_container_crash_rate :: ratio
  fc_gpu_failure_rate :: ratio
  fc_create_failure_rate :: ratio
  fc_stop_failure_rate :: ratio

definition fault_config_default :: fault_config where
  "fault_config_default =
     \<lparr>fc_image_pull_failure_rate = ratio_zero, fc_container_crash_rate = ratio_zero,
      fc_gpu_failure_rate = ratio_zero, fc_create_failure_rate = ratio_zero,
      fc_stop_failure_rate = ratio_zero\<rparr>"

record sim_runtime =
  sr_fault_config :: fault_config
  sr_seed :: u64
  sr_pods :: "(string, pod_status) hashmap"
  sr_pull_attempts :: "(string, u64) hashmap"
  sr_create_attempts :: "(u64, u64) hashmap"
  sr_start_attempts :: "(u64, u64) hashmap"
  sr_stop_attempts :: "(u64, u64) hashmap"
  sr_status_attempts :: "(u64, u64) hashmap"
  sr_remove_attempts :: "(u64, u64) hashmap"
  sr_probe_outcomes :: "(u64, probe_outcome list) hashmap"
  sr_run_outcomes :: "(u64, run_outcome list) hashmap"
  sr_run_attempts :: "(u64, u64) hashmap"
  sr_crash_round :: u64

definition sim_runtime_new :: "u64 \<Rightarrow> fault_config \<Rightarrow> sim_runtime" where
  "sim_runtime_new seed fault_config =
     \<lparr>sr_fault_config = fault_config, sr_seed = seed, sr_pods = [], sr_pull_attempts = [],
      sr_create_attempts = [], sr_start_attempts = [], sr_stop_attempts = [], sr_status_attempts = [],
      sr_remove_attempts = [], sr_probe_outcomes = [], sr_run_outcomes = [], sr_run_attempts = [],
      sr_crash_round = 0\<rparr>"

definition sim_container_id :: "u64 \<Rightarrow> string" where
  "sim_container_id pod_id = ''sim-pod-'' @ dec (unat pod_id)"

subsection \<open>Scripting\<close>

definition script_probe_outcomes :: "u64 \<Rightarrow> probe_outcome list \<Rightarrow> sim_runtime \<Rightarrow> sim_runtime res" where
  "script_probe_outcomes pod_id outcomes r =
     and_then (ensure (outcomes \<noteq> []) ''probe script must not be empty'') (\<lambda>_.
     and_then (ensure (length outcomes \<le> PROBE_SCRIPT_MAX) ''probe script exceeds bounded capacity'') (\<lambda>_.
     and_then (ensure (hm_get (sr_probe_outcomes r) pod_id = None)
                ''probe script may only be set once per pod'') (\<lambda>_.
       Inr (r\<lparr>sr_probe_outcomes := hm_insert pod_id outcomes (sr_probe_outcomes r)\<rparr>))))"

definition script_run_outcomes :: "u64 \<Rightarrow> run_outcome list \<Rightarrow> sim_runtime \<Rightarrow> sim_runtime res" where
  "script_run_outcomes pod_id outcomes r =
     and_then (ensure (outcomes \<noteq> []) ''run script must not be empty'') (\<lambda>_.
     and_then (ensure (length outcomes \<le> RUN_SCRIPT_MAX) ''run script exceeds bounded capacity'') (\<lambda>_.
     and_then (ensure (hm_get (sr_run_outcomes r) pod_id = None)
                ''run script may only be set once per pod'') (\<lambda>_.
       Inr (r\<lparr>sr_run_outcomes := hm_insert pod_id outcomes (sr_run_outcomes r)\<rparr>))))"

definition run_attempt_count :: "u64 \<Rightarrow> sim_runtime \<Rightarrow> u64" where
  "run_attempt_count pod_id r = unwrap_or (hm_get (sr_run_attempts r) pod_id) 0"

definition crash_pod :: "u64 \<Rightarrow> i32 \<Rightarrow> sim_runtime \<Rightarrow> sim_runtime res" where
  "crash_pod pod_id exit_code r =
     and_then (expect (hm_get (sr_pods r) (sim_container_id pod_id))
                ''scripted crash requires an existing pod'') (\<lambda>status.
     and_then (ensure (status = StatusRunning) ''assertion failed: status == Running'') (\<lambda>_.
       Inr (r\<lparr>sr_pods := hm_insert (sim_container_id pod_id) (StatusStopped exit_code) (sr_pods r)\<rparr>)))"

definition lose_pod :: "u64 \<Rightarrow> sim_runtime \<Rightarrow> sim_runtime res" where
  "lose_pod pod_id r =
     and_then (ensure (hm_get (sr_pods r) (sim_container_id pod_id) \<noteq> None)
                ''scripted loss requires an existing pod'') (\<lambda>_.
       Inr (r\<lparr>sr_pods := hm_remove (sim_container_id pod_id) (sr_pods r)\<rparr>))"

definition make_pod_status_unknown :: "u64 \<Rightarrow> sim_runtime \<Rightarrow> sim_runtime res" where
  "make_pod_status_unknown pod_id r =
     and_then (expect (hm_get (sr_pods r) (sim_container_id pod_id))
                ''scripted unknown status requires an existing pod'') (\<lambda>_.
       Inr (r\<lparr>sr_pods := hm_insert (sim_container_id pod_id) StatusUnknown (sr_pods r)\<rparr>))"

definition operation_counts :: "u64 \<Rightarrow> sim_runtime \<Rightarrow> operation_counts" where
  "operation_counts pod_id r =
     \<lparr>oc_stop = unwrap_or (hm_get (sr_stop_attempts r) pod_id) 0,
      oc_status = unwrap_or (hm_get (sr_status_attempts r) pod_id) 0,
      oc_remove = unwrap_or (hm_get (sr_remove_attempts r) pod_id) 0\<rparr>"

subsection \<open>Faults\<close>

definition next_attempt :: "('k, u64) hashmap \<Rightarrow> 'k \<Rightarrow> u64 \<times> ('k, u64) hashmap" where
  "next_attempt attempts key =
     (let attempt = unwrap_or (hm_get attempts key) 0 in (attempt, hm_insert key (attempt + 1) attempts))"

definition stable_hash :: "u8 list \<Rightarrow> u64" where
  "stable_hash bytes =
     fold (\<lambda>byte hash. (hash XOR ucast byte) * 0x100000001b3) bytes 0xcbf29ce484222325"

definition mix64 :: "u64 \<Rightarrow> u64" where
  "mix64 value =
     (let value = value XOR drop_bit 30 value;
          value = value * 0xbf58476d1ce4e5b9;
          value = value XOR drop_bit 27 value;
          value = value * 0x94d049bb133111eb;
          value = value XOR drop_bit 31 value
      in value)"

definition deterministic_chance :: "u64 \<Rightarrow> u64 \<Rightarrow> u64 \<Rightarrow> ratio \<Rightarrow> bool res" where
  "deterministic_chance seed domain key ratio =
     (if is_zero ratio then Inr False
      else and_then (chance_ratio (prng_init (mix64 (seed XOR domain XOR key))) ratio) (\<lambda>(c, _). Inr c))"

text \<open>Faults of an operation are drawn on its first attempt only.\<close>

definition attempt_fault :: "u64 \<Rightarrow> u64 \<Rightarrow> u64 \<Rightarrow> u64 \<Rightarrow> ratio \<Rightarrow> bool res" where
  "attempt_fault attempt seed domain key ratio =
     (if attempt = 0 then deterministic_chance seed domain key ratio else Inr False)"

definition crash_one :: "u64 \<Rightarrow> string \<Rightarrow> sim_runtime \<Rightarrow> sim_runtime res" where
  "crash_one crash_round container_id r =
     (if hm_get (sr_pods r) container_id = Some StatusRunning then
        and_then (deterministic_chance (sr_seed r) 0x4352415348000000
                    (stable_hash (as_bytes container_id) + crash_round) (fc_container_crash_rate (sr_fault_config r)))
          (\<lambda>crash. Inr (if crash then r\<lparr>sr_pods := hm_insert container_id (StatusStopped 137) (sr_pods r)\<rparr> else r))
      else Inr r)"

definition maybe_crash_pods :: "sim_runtime \<Rightarrow> sim_runtime res" where
  "maybe_crash_pods r =
     (if is_zero (fc_container_crash_rate (sr_fault_config r)) then Inr r
      else fold_res (crash_one (sr_crash_round r)) (sort (hm_keys (sr_pods r)))
             (r\<lparr>sr_crash_round := sr_crash_round r + 1\<rparr>))"

subsection \<open>The runtime operations\<close>

definition sim_pull_image :: "string \<Rightarrow> image_pull_auth option \<Rightarrow> (runtime_error + unit, sim_runtime) call" where
  "sim_pull_image img auth r =
     (let (attempt, attempts) = next_attempt (sr_pull_attempts r) img;
          r1 = r\<lparr>sr_pull_attempts := attempts\<rparr>
      in and_then (attempt_fault attempt (sr_seed r) 0x50554c4c00000000 (stable_hash (as_bytes img))
                     (fc_image_pull_failure_rate (sr_fault_config r))) (\<lambda>fault.
           if fault then Inr (Inl (ImagePull ''simulated pull failure''), r1) else Inr (Inr (), r1)))"

definition sim_create_pod :: "pod_spec \<Rightarrow> (runtime_error + pod_handle, sim_runtime) call" where
  "sim_create_pod spec r =
     (let (attempt, attempts) = next_attempt (sr_create_attempts r) (ps_pod_id spec);
          r1 = r\<lparr>sr_create_attempts := attempts\<rparr>;
          container_id = sim_container_id (ps_pod_id spec)
      in and_then (attempt_fault attempt (sr_seed r) 0x4352454154450000 (ps_pod_id spec)
                     (fc_create_failure_rate (sr_fault_config r))) (\<lambda>fault.
           if fault then Inr (Inl (ContainerCreate ''simulated create failure''), r1)
           else
             let r2 = (if hm_get (sr_pods r1) container_id \<in> {Some StatusRunning, Some StatusCreated} then r1
                       else r1\<lparr>sr_pods := hm_insert container_id StatusCreated (sr_pods r1)\<rparr>)
             in Inr (Inr \<lparr>ph_pod_id = ps_pod_id spec, ph_container_id = container_id\<rparr>, r2)))"

definition sim_start_pod :: "pod_handle \<Rightarrow> (runtime_error + unit, sim_runtime) call" where
  "sim_start_pod handle r =
     (let (attempt, attempts) = next_attempt (sr_start_attempts r) (ph_pod_id handle);
          r1 = r\<lparr>sr_start_attempts := attempts\<rparr>
      in and_then (attempt_fault attempt (sr_seed r) 0x5354415254000000 (ph_pod_id handle)
                     (fc_gpu_failure_rate (sr_fault_config r))) (\<lambda>fault.
           if fault then Inr (Inl (ContainerStart ''simulated GPU failure''), r1)
           else if hm_get (sr_pods r1) (ph_container_id handle) = Some StatusRunning then Inr (Inr (), r1)
           else Inr (Inr (), r1\<lparr>sr_pods := hm_insert (ph_container_id handle) StatusRunning (sr_pods r1)\<rparr>)))"

primrec run_outcome_result :: "run_outcome \<Rightarrow> u8 list \<Rightarrow> runtime_error + u8 list" where
  "run_outcome_result RunEcho payload = Inr payload"
| "run_outcome_result RunExactResponseBoundary payload = Inr (replicate MAX_RUN_RESPONSE_BODY 0x5a)"
| "run_outcome_result RunResponseBoundaryOverflow payload = Inr (replicate (MAX_RUN_RESPONSE_BODY + 1) 0x6b)"
| "run_outcome_result RunForwardingFailure payload = Inl (Internal ''simulated forwarding failure'')"
| "run_outcome_result RunTimeout payload = Inl (Internal ''simulated forwarding timeout'')"

definition sim_forward_run ::
    "pod_handle \<Rightarrow> u16 \<Rightarrow> u8 list \<Rightarrow> (runtime_error + u8 list, sim_runtime) call" where
  "sim_forward_run handle port payload r =
     (case hm_get (sr_pods r) (ph_container_id handle) of
        None \<Rightarrow> Inr (Inl (ContainerNotFound (ph_container_id handle)), r)
      | Some status \<Rightarrow>
          if status \<noteq> StatusRunning then Inr (Inl (ContainerStart ''simulated pod not running''), r)
          else
            let attempts = unwrap_or (hm_get (sr_run_attempts r) (ph_pod_id handle)) 0;
                r1 = r\<lparr>sr_run_attempts := hm_insert (ph_pod_id handle) (saturating_add attempts 1) (sr_run_attempts r)\<rparr>
            in case hm_get (sr_run_outcomes r1) (ph_pod_id handle) of
                 None \<Rightarrow> Inr (run_outcome_result RunEcho payload, r1)
               | Some [] \<Rightarrow> Inr (Inl (Internal ''scripted run outcomes exhausted''), r1)
               | Some (next_outcome # script) \<Rightarrow>
                   Inr (run_outcome_result next_outcome payload,
                        r1\<lparr>sr_run_outcomes := hm_insert (ph_pod_id handle) script (sr_run_outcomes r1)\<rparr>))"

primrec probe_outcome_result :: "probe_outcome \<Rightarrow> runtime_error + bool" where
  "probe_outcome_result ProbeHealthy = Inr True"
| "probe_outcome_result ProbeUnhealthy = Inr False"
| "probe_outcome_result ProbeError = Inl (Internal ''scripted probe error'')"

definition sim_probe_pod :: "pod_handle \<Rightarrow> u16 \<Rightarrow> string \<Rightarrow> (runtime_error + bool, sim_runtime) call" where
  "sim_probe_pod handle port path r =
     (if hm_get (sr_pods r) (ph_container_id handle) \<noteq> Some StatusRunning
      then Inr (Inl (ContainerNotFound (ph_container_id handle)), r)
      else case hm_get (sr_probe_outcomes r) (ph_pod_id handle) of
             None \<Rightarrow> Inr (probe_outcome_result ProbeHealthy, r)
           | Some [] \<Rightarrow> Inr (Inl (Internal ''scripted probe outcomes exhausted''), r)
           | Some (next_outcome # script) \<Rightarrow>
               Inr (probe_outcome_result next_outcome,
                    r\<lparr>sr_probe_outcomes := hm_insert (ph_pod_id handle) script (sr_probe_outcomes r)\<rparr>))"

definition sim_stop_pod :: "pod_handle \<Rightarrow> u64 \<Rightarrow> (runtime_error + unit, sim_runtime) call" where
  "sim_stop_pod handle grace_period_ms r =
     (let (attempt, attempts) = next_attempt (sr_stop_attempts r) (ph_pod_id handle);
          r1 = r\<lparr>sr_stop_attempts := attempts\<rparr>
      in and_then (attempt_fault attempt (sr_seed r) 0x53544f5000000000 (ph_pod_id handle)
                     (fc_stop_failure_rate (sr_fault_config r))) (\<lambda>fault.
           if fault then Inr (Inl (ContainerStop ''simulated stop failure''), r1)
           else if hm_get (sr_pods r1) (ph_container_id handle) = None
           then Inr (Inl (ContainerNotFound (ph_container_id handle)), r1)
           else Inr (Inr (), r1\<lparr>sr_pods := hm_insert (ph_container_id handle) (StatusStopped 0) (sr_pods r1)\<rparr>)))"

definition sim_pod_status :: "pod_handle \<Rightarrow> (runtime_error + pod_status, sim_runtime) call" where
  "sim_pod_status handle r =
     (let (attempt, attempts) = next_attempt (sr_status_attempts r) (ph_pod_id handle);
          r1 = r\<lparr>sr_status_attempts := attempts\<rparr>
      in Inr (case hm_get (sr_pods r1) (ph_container_id handle) of
                None \<Rightarrow> Inl (ContainerNotFound (ph_container_id handle))
              | Some status \<Rightarrow> Inr status, r1))"

definition sim_remove_pod :: "pod_handle \<Rightarrow> (runtime_error + unit, sim_runtime) call" where
  "sim_remove_pod handle r =
     (let (attempt, attempts) = next_attempt (sr_remove_attempts r) (ph_pod_id handle)
      in Inr (Inr (), r\<lparr>sr_remove_attempts := attempts,
                        sr_pods := hm_remove (ph_container_id handle) (sr_pods r)\<rparr>))"

subsection \<open>The runtime as an instance of the interface\<close>

text \<open>
  A simulated worker runs against its simulated runtime and the real host; its environment is
  the pair of the two.
\<close>

definition on_runtime :: "('a, 's) call \<Rightarrow> ('a, 's \<times> 'h) call" where
  "on_runtime c e = and_then (c (fst e)) (\<lambda>(x, r). Inr (x, (r, snd e)))"

definition on_host :: "('a, 'h) call \<Rightarrow> ('a, 's \<times> 'h) call" where
  "on_host c e = and_then (c (snd e)) (\<lambda>(x, h). Inr (x, (fst e, h)))"

definition simulated_runtime :: "(instant, 'h) call \<Rightarrow> (sim_runtime \<times> 'h) runtime" where
  "simulated_runtime now =
     \<lparr>rt_pull_image = (\<lambda>img auth. on_runtime (sim_pull_image img auth)),
      rt_create_pod = (\<lambda>spec. on_runtime (sim_create_pod spec)),
      rt_start_pod = (\<lambda>handle. on_runtime (sim_start_pod handle)),
      rt_forward_run = (\<lambda>handle port payload. on_runtime (sim_forward_run handle port payload)),
      rt_probe_pod = (\<lambda>handle port path. on_runtime (sim_probe_pod handle port path)),
      rt_stop_pod = (\<lambda>handle grace. on_runtime (sim_stop_pod handle grace)),
      rt_pod_status = (\<lambda>handle. on_runtime (sim_pod_status handle)),
      rt_remove_pod = (\<lambda>handle. on_runtime (sim_remove_pod handle)),
      rt_stop_pod_until = default_stop_pod_until (on_host now) (\<lambda>handle grace. on_runtime (sim_stop_pod handle grace)),
      rt_pod_status_until = default_pod_status_until (on_host now) (\<lambda>handle. on_runtime (sim_pod_status handle)),
      rt_remove_pod_until = default_remove_pod_until (on_host now) (\<lambda>handle. on_runtime (sim_remove_pod handle))\<rparr>"

definition host_os :: "'h os \<Rightarrow> (sim_runtime \<times> 'h) os" where
  "host_os os =
     \<lparr>os_instant_now = on_host (os_instant_now os),
      os_env_var = (\<lambda>name e. os_env_var os name (snd e)),
      os_create_dir_all = (\<lambda>path. on_host (os_create_dir_all os path)),
      os_command = (\<lambda>args. on_host (os_command os args)),
      os_read_to_string = (\<lambda>path. on_host (os_read_to_string os path)),
      os_remove_dir_all = (\<lambda>path. on_host (os_remove_dir_all os path)),
      os_path_exists = (\<lambda>path e. os_path_exists os path (snd e)),
      os_http_secret = (\<lambda>url token. on_host (os_http_secret os url token))\<rparr>"

section \<open>No panics\<close>

lemma deterministic_chance_total: "\<exists>c. deterministic_chance seed domain key ratio = Inr c"
  using chance_ratio_total [of "prng_init (mix64 (seed XOR domain XOR key))" ratio]
  by (auto simp: deterministic_chance_def)

lemma attempt_fault_total: "\<exists>f. attempt_fault attempt seed domain key ratio = Inr f"
  using deterministic_chance_total [of seed domain key ratio] by (auto simp: attempt_fault_def)

lemma on_runtime_yields: "calls_ok X c \<Longrightarrow> calls_ok X (on_runtime c)"
  by (auto simp: yields_def on_runtime_def intro!: outcome_and_then)

lemma on_host_yields: "calls_ok X c \<Longrightarrow> calls_ok X (on_host c)"
  by (auto simp: yields_def on_host_def intro!: outcome_and_then)

lemma fault_yields:
  assumes "\<And>f. outcome X Q (g f)"
  shows "outcome X Q (and_then (attempt_fault attempt seed domain key ratio) g)"
  using attempt_fault_total [of attempt seed domain key ratio] assms by auto

lemma sim_ops_ok:
  "calls_ok X (sim_pull_image img auth)" "calls_ok X (sim_create_pod spec)"
  "calls_ok X (sim_start_pod handle)" "calls_ok X (sim_forward_run handle port payload)"
  "calls_ok X (sim_probe_pod handle port path)" "calls_ok X (sim_stop_pod handle grace)"
  "calls_ok X (sim_pod_status handle)" "calls_ok X (sim_remove_pod handle)"
  by (auto simp: yields_def sim_pull_image_def sim_create_pod_def sim_start_pod_def sim_forward_run_def
        sim_probe_pod_def sim_stop_pod_def sim_pod_status_def sim_remove_pod_def next_attempt_def Let_def
        intro!: fault_yields split: option.split list.split)

lemma simulated_runtime_ok: "calls_ok X now \<Longrightarrow> rt_ok X (simulated_runtime now)"
  by (auto simp: rt_ok_def simulated_runtime_def default_stop_pod_until_def default_pod_status_until_def
        default_remove_pod_until_def on_runtime_yields sim_ops_ok
        intro!: yields_bind [OF on_host_yields])

lemma host_os_ok: "os_ok X os \<Longrightarrow> os_ok X (host_os os)"
  by (auto simp: os_ok_def host_os_def on_host_yields)

section \<open>The contract of a container runtime\<close>

text \<open>
  What the worker relies on, over the containers an environment shows (\<open>view\<close>): an operation
  that succeeds has its effect on the container of its handle and no other, one that fails has
  none, and the status call reports what there is. Calls to the host leave the containers alone.
\<close>

definition keeps :: "('e \<Rightarrow> 'v) \<Rightarrow> ('a, 'e) call \<Rightarrow> bool" where
  "keeps view c = (\<forall>e x e'. c e = Inr (x, e') \<longrightarrow> view e' = view e)"

lemma keepsD: "keeps view c \<Longrightarrow> c e = Inr (x, e') \<Longrightarrow> view e' = view e"
  by (simp add: keeps_def)

lemma keeps_bind: "keeps view c \<Longrightarrow> (\<And>x. keeps view (f x)) \<Longrightarrow> keeps view (bind_call c f)"
  unfolding keeps_def bind_call_Inr by metis

lemma keeps_ret [simp]: "keeps view (ret x)"
  by (simp add: keeps_def)

locale container_runtime =
  fixes cx :: "('e, 'i) ctx" and view :: "'e \<Rightarrow> string \<Rightarrow> pod_status option"
  assumes pull: "keeps view (rt_pull_image (cx_rt cx) img auth)"
    and forward: "keeps view (rt_forward_run (cx_rt cx) h port payload)"
    and probe: "keeps view (rt_probe_pod (cx_rt cx) h port path)"
    and create: "rt_create_pod (cx_rt cx) spec e = Inr (rh, e') \<Longrightarrow>
      (case rh of Inl _ \<Rightarrow> view e' = view e
       | Inr h \<Rightarrow> ph_pod_id h = ps_pod_id spec
           \<and> (\<exists>st. st \<in> {StatusCreated, StatusRunning} \<and> view e' = (view e)(ph_container_id h \<mapsto> st)))"
    and start: "rt_start_pod (cx_rt cx) h e = Inr (r, e') \<Longrightarrow>
      view e' = (if isl r then view e else (view e)(ph_container_id h \<mapsto> StatusRunning))"
    and stop: "rt_stop_pod (cx_rt cx) h grace e = Inr (r, e') \<Longrightarrow>
      (if isl r then view e' = view e
       else \<exists>c. view e' = (view e)(ph_container_id h \<mapsto> StatusStopped c) \<and> view e (ph_container_id h) \<noteq> None)"
    and status: "rt_pod_status (cx_rt cx) h e = Inr (rst, e') \<Longrightarrow>
      view e' = view e \<and> (\<forall>st. rst = Inr st \<longleftrightarrow> view e (ph_container_id h) = Some st)"
    and remove: "rt_remove_pod (cx_rt cx) h e = Inr (r, e') \<Longrightarrow>
      view e' = (if isl r then view e else (view e)(ph_container_id h := None))"
    and host: "keeps view (os_instant_now (cx_os cx))" "keeps view (os_create_dir_all (cx_os cx) p)"
      "keeps view (os_command (cx_os cx) args)" "keeps view (os_read_to_string (cx_os cx) p)"
      "keeps view (os_remove_dir_all (cx_os cx) p)" "keeps view (os_http_secret (cx_os cx) url tok)"
begin

lemma status_Inr:
  "rt_pod_status (cx_rt cx) h e = Inr (Inr st, e') \<Longrightarrow> view e' = view e \<and> view e (ph_container_id h) = Some st"
  using status [of h e "Inr st" e'] by auto

text \<open>A stop thread that reports an exit code has seen the container stopped with it.\<close>

lemma stop_thread_verified:
  assumes "bind_call (thread_step (cx_rt cx) (Spawned (OpStop k (Some h) grace attempt))) (thread_step (cx_rt cx)) e
      = Inr (Done op (ResStop (Inr c)), e')"
  shows "view e' (ph_container_id h) = Some (StatusStopped c)"
  using assms
  by (auto elim!: bind_call_InrE split: if_splits sum.splits pod_status.splits simp: stop_verdict_def dest!: status_Inr)

end

section \<open>The simulated runtime meets it\<close>

lemma keeps_on_host: "keeps (\<lambda>e. g (fst e)) (on_host c)"
  unfolding keeps_def on_host_def and_then_Inr by auto

lemma on_runtime_Inr: "on_runtime c e = Inr (x, e') \<longleftrightarrow> (\<exists>r. c (fst e) = Inr (x, r) \<and> e' = (r, snd e))"
  by (auto simp: on_runtime_def and_then_Inr)

abbreviation sim_view :: "sim_runtime \<times> 'h \<Rightarrow> string \<Rightarrow> pod_status option" where
  "sim_view \<equiv> (\<lambda>e. hm_get (sr_pods (fst e)))"

definition sim_worker_ctx :: "'h os \<Rightarrow> 'i io \<Rightarrow> (sim_runtime \<times> 'h, 'i) ctx" where
  "sim_worker_ctx os io = \<lparr>cx_os = host_os os, cx_rt = simulated_runtime (os_instant_now os), cx_io = io\<rparr>"

interpretation simrt: container_runtime "sim_worker_ctx os io" sim_view
  for os :: "'h os" and io :: "'i io"
proof
  fix h :: pod_handle and e e' :: "sim_runtime \<times> 'h"
  fix img auth spec grace port payload path args p url tok
  show "keeps sim_view (rt_pull_image (cx_rt (sim_worker_ctx os io)) img auth)"
    by (auto simp: sim_worker_ctx_def simulated_runtime_def keeps_def on_runtime_Inr sim_pull_image_def
          next_attempt_def and_then_Inr Let_def split: if_splits)
  show "keeps sim_view (rt_forward_run (cx_rt (sim_worker_ctx os io)) h port payload)"
    by (auto simp: sim_worker_ctx_def simulated_runtime_def keeps_def on_runtime_Inr sim_forward_run_def
          Let_def split: if_splits option.splits list.splits)
  show "keeps sim_view (rt_probe_pod (cx_rt (sim_worker_ctx os io)) h port path)"
    by (auto simp: sim_worker_ctx_def simulated_runtime_def keeps_def on_runtime_Inr sim_probe_pod_def
          split: if_splits option.splits list.splits)
  show "rt_create_pod (cx_rt (sim_worker_ctx os io)) spec e = Inr (r, e') \<Longrightarrow>
      (case r of Inl _ \<Rightarrow> sim_view e' = sim_view e
       | Inr h \<Rightarrow> ph_pod_id h = ps_pod_id spec
           \<and> (\<exists>st. st \<in> {StatusCreated, StatusRunning} \<and> sim_view e' = (sim_view e)(ph_container_id h \<mapsto> st)))" for r
    by (auto simp: sim_worker_ctx_def simulated_runtime_def on_runtime_Inr sim_create_pod_def next_attempt_def
          and_then_Inr Let_def split: if_splits) (metis map_upd_triv)+
  show "rt_start_pod (cx_rt (sim_worker_ctx os io)) h e = Inr (r, e') \<Longrightarrow>
      sim_view e' = (if isl r then sim_view e else (sim_view e)(ph_container_id h \<mapsto> StatusRunning))" for r
    by (auto simp: sim_worker_ctx_def simulated_runtime_def on_runtime_Inr sim_start_pod_def next_attempt_def
          and_then_Inr Let_def fun_eq_iff split: if_splits)
  show "rt_stop_pod (cx_rt (sim_worker_ctx os io)) h grace e = Inr (r, e') \<Longrightarrow>
      (if isl r then sim_view e' = sim_view e
       else \<exists>c. sim_view e' = (sim_view e)(ph_container_id h \<mapsto> StatusStopped c)
         \<and> sim_view e (ph_container_id h) \<noteq> None)" for r
    by (auto simp: sim_worker_ctx_def simulated_runtime_def on_runtime_Inr sim_stop_pod_def next_attempt_def
          and_then_Inr Let_def split: if_splits)
  show "rt_pod_status (cx_rt (sim_worker_ctx os io)) h e = Inr (r, e') \<Longrightarrow>
      sim_view e' = sim_view e \<and> (\<forall>st. r = Inr st \<longleftrightarrow> sim_view e (ph_container_id h) = Some st)" for r
    by (auto simp: sim_worker_ctx_def simulated_runtime_def on_runtime_Inr sim_pod_status_def next_attempt_def
          Let_def split: option.splits)
  show "rt_remove_pod (cx_rt (sim_worker_ctx os io)) h e = Inr (r, e') \<Longrightarrow>
      sim_view e' = (if isl r then sim_view e else (sim_view e)(ph_container_id h := None))" for r
    by (auto simp: sim_worker_ctx_def simulated_runtime_def on_runtime_Inr sim_remove_pod_def next_attempt_def
          Let_def)
qed (simp_all add: sim_worker_ctx_def host_os_def keeps_on_host [of "\<lambda>r. hm_get (sr_pods r)"])

section \<open>Spontaneous crashes\<close>

text \<open>What a crash round may do to a container.\<close>

definition may_crash :: "pod_status option \<Rightarrow> pod_status option \<Rightarrow> bool" where
  "may_crash old new = (new = old \<or> old = Some StatusRunning \<and> new = Some (StatusStopped 137))"

lemma crash_one_effect:
  assumes "crash_one k c r = Inr r'"
  shows "may_crash (hm_get (sr_pods r) x) (hm_get (sr_pods r') x)
    \<and> sr_fault_config r' = sr_fault_config r \<and> (x \<noteq> c \<longrightarrow> hm_get (sr_pods r') x = hm_get (sr_pods r) x)"
  using assms by (auto simp: crash_one_def may_crash_def and_then_Inr split: if_splits)

lemma crash_fold_effect:
  assumes "fold_res (crash_one k) cs r = Inr r'"
  shows "may_crash (hm_get (sr_pods r) x) (hm_get (sr_pods r') x)"
proof (rule fold_res_inv [OF assms, where I = "\<lambda>t. may_crash (hm_get (sr_pods r) x) (hm_get (sr_pods t) x)"])
  show "may_crash (hm_get (sr_pods r) x) (hm_get (sr_pods t) x)"
    if "may_crash (hm_get (sr_pods r) x) (hm_get (sr_pods s) x)" "crash_one k c s = Inr t" for c s t
    using that(1) crash_one_effect [OF that(2), of x] by (auto simp: may_crash_def)
qed (simp add: may_crash_def)

lemma maybe_crash_effect:
  "maybe_crash_pods r = Inr r' \<Longrightarrow> may_crash (hm_get (sr_pods r) x) (hm_get (sr_pods r') x)"
  using crash_fold_effect [of "sr_crash_round r" _ "r\<lparr>sr_crash_round := sr_crash_round r + 1\<rparr>" r' x]
  by (auto simp: maybe_crash_pods_def may_crash_def split: if_splits)

lemma maybe_crash_total: "\<exists>r'. maybe_crash_pods r = Inr r'"
proof -
  have "\<exists>t. crash_one k c s = Inr t" for k c s
    using deterministic_chance_total [of "sr_seed s" "0x4352415348000000" "stable_hash (as_bytes c) + k"
        "fc_container_crash_rate (sr_fault_config s)"]
    by (auto simp: crash_one_def)
  then show ?thesis
    using fold_res_total [of "\<lambda>_. True" "r\<lparr>sr_crash_round := sr_crash_round r + 1\<rparr>"
        "sort (hm_keys (sr_pods r))" "crash_one (sr_crash_round r)"]
    by (auto simp: maybe_crash_pods_def)
qed

section \<open>Properties\<close>

lemma attempt_fault_later: "attempt \<noteq> 0 \<Longrightarrow> attempt_fault attempt seed domain key ratio = Inr False"
  by (simp add: attempt_fault_def)

lemma attempt_fault_first: "attempt_fault attempt seed domain key ratio = Inr True \<Longrightarrow> attempt = 0"
  by (simp add: attempt_fault_def split: if_splits)

lemma unwrap_or_simps [simp]: "unwrap_or None d = d" "unwrap_or (Some x) d = x"
  by (simp_all add: unwrap_or_def)

lemma pull_transient:
  assumes "sim_pull_image img auth r = Inr (Inl e, r')"
  shows "\<exists>r''. sim_pull_image img auth r' = Inr (Inr (), r'')"
proof -
  let ?a = "unwrap_or (hm_get (sr_pull_attempts r) img) 0"
  have "?a = 0" "r' = r\<lparr>sr_pull_attempts := hm_insert img (?a + 1) (sr_pull_attempts r)\<rparr>"
    using assms attempt_fault_first by (auto simp: sim_pull_image_def next_attempt_def Let_def and_then_Inr split: if_splits)
  then show ?thesis by (simp add: sim_pull_image_def next_attempt_def attempt_fault_later)
qed

lemma create_transient:
  assumes "sim_create_pod spec r = Inr (Inl e, r')"
  shows "\<exists>h r''. sim_create_pod spec r' = Inr (Inr h, r'')"
proof -
  let ?a = "unwrap_or (hm_get (sr_create_attempts r) (ps_pod_id spec)) 0"
  have "?a = 0" "r' = r\<lparr>sr_create_attempts := hm_insert (ps_pod_id spec) (?a + 1) (sr_create_attempts r)\<rparr>"
    using assms attempt_fault_first by (auto simp: sim_create_pod_def next_attempt_def Let_def and_then_Inr split: if_splits)
  then show ?thesis by (simp add: sim_create_pod_def next_attempt_def attempt_fault_later Let_def)
qed

lemma start_transient:
  assumes "sim_start_pod handle r = Inr (Inl e, r')"
  shows "\<exists>r''. sim_start_pod handle r' = Inr (Inr (), r'')"
proof -
  let ?a = "unwrap_or (hm_get (sr_start_attempts r) (ph_pod_id handle)) 0"
  have "?a = 0" "r' = r\<lparr>sr_start_attempts := hm_insert (ph_pod_id handle) (?a + 1) (sr_start_attempts r)\<rparr>"
    using assms attempt_fault_first by (auto simp: sim_start_pod_def next_attempt_def Let_def and_then_Inr split: if_splits)
  then show ?thesis by (simp add: sim_start_pod_def next_attempt_def attempt_fault_later Let_def)
qed

lemma stop_transient:
  assumes "sim_stop_pod handle grace r = Inr (Inl e, r')" "hm_get (sr_pods r) (ph_container_id handle) \<noteq> None"
  shows "\<exists>r''. sim_stop_pod handle grace r' = Inr (Inr (), r'')"
proof -
  let ?a = "unwrap_or (hm_get (sr_stop_attempts r) (ph_pod_id handle)) 0"
  have "?a = 0" "r' = r\<lparr>sr_stop_attempts := hm_insert (ph_pod_id handle) (?a + 1) (sr_stop_attempts r)\<rparr>"
    using assms attempt_fault_first by (auto simp: sim_stop_pod_def next_attempt_def Let_def and_then_Inr split: if_splits)
  then show ?thesis using assms(2) by (auto simp: sim_stop_pod_def next_attempt_def attempt_fault_later Let_def)
qed


definition faulty :: fault_config where
  "faulty = fault_config_default\<lparr>fc_image_pull_failure_rate := \<lparr>numerator = 1, denominator = 1\<rparr>\<rparr>"


text \<open>
  A crash round returns, and all it does to the containers is to turn some running ones into
  ones that exited with code 137.
\<close>

theorem crash_round_effect:
  "\<exists>r'. maybe_crash_pods r = Inr r' \<and> (\<forall>x. may_crash (hm_get (sr_pods r) x) (hm_get (sr_pods r') x))"
  using maybe_crash_total [of r] maybe_crash_effect by blast

text \<open>Forwarding a sequence of requests.\<close>

fun forward_all :: "pod_handle \<Rightarrow> u16 \<Rightarrow> u8 list list \<Rightarrow> (( runtime_error + u8 list) list, sim_runtime) call" where
  "forward_all h port [] r = Inr ([], r)"
| "forward_all h port (p # ps) r =
     and_then (sim_forward_run h port p r) (\<lambda>(x, r1).
     and_then (forward_all h port ps r1) (\<lambda>(xs, r2). Inr (x # xs, r2)))"

text \<open>
  Scripted runs follow their script: requests to a running pod get the outcomes of the script
  one by one and in order, and what is not used yet stays.
\<close>

theorem run_script_followed:
  assumes "hm_get (sr_pods r) (ph_container_id h) = Some StatusRunning"
    and "hm_get (sr_run_outcomes r) (ph_pod_id h) = Some script" and "length ps \<le> length script"
  shows "\<exists>r'. forward_all h port ps r = Inr (map2 run_outcome_result script ps, r')
    \<and> hm_get (sr_run_outcomes r') (ph_pod_id h) = Some (drop (length ps) script)"
  using assms
proof (induction ps arbitrary: r script)
  case (Cons p ps)
  then obtain oc rest where script: "script = oc # rest" by (cases script) auto
  let ?r = "r\<lparr>sr_run_attempts := hm_insert (ph_pod_id h)
      (saturating_add (unwrap_or (hm_get (sr_run_attempts r) (ph_pod_id h)) 0) 1) (sr_run_attempts r),
      sr_run_outcomes := hm_insert (ph_pod_id h) rest (sr_run_outcomes r)\<rparr>"
  have "sim_forward_run h port p r = Inr (run_outcome_result oc p, ?r)"
    using Cons.prems script by (simp add: sim_forward_run_def Let_def)
  with Cons.IH [of ?r rest] Cons.prems script show ?case by auto
qed simp

theorem run_script_followed_witness:
  "\<exists>r'. forward_all \<lparr>ph_pod_id = 1, ph_container_id = ''c''\<rparr> 80 [[1], [2]]
       ((sim_runtime_new 7 faulty)\<lparr>sr_pods := [(''c'', StatusRunning)], sr_run_outcomes := [(1, [RunTimeout, RunEcho])]\<rparr>)
     = Inr ([Inl (Internal ''simulated forwarding timeout''), Inr [2]], r')"
  using run_script_followed [of "(sim_runtime_new 7 faulty)\<lparr>sr_pods := [(''c'', StatusRunning)],
      sr_run_outcomes := [(1, [RunTimeout, RunEcho])]\<rparr>" "\<lparr>ph_pod_id = 1, ph_container_id = ''c''\<rparr>"
      "[RunTimeout, RunEcho]" "[[1], [2]]" 80]
  by (auto simp: hm_eval)

lemma odd_mult_inj:
  fixes c d :: "'a::len word"
  assumes "d * c = 1"
  shows "inj (\<lambda>x. x * c)"
proof (rule inj_on_inverseI [where g = "\<lambda>x. x * d"])
  show "x * c * d = x" for x using assms by (simp add: mult.assoc mult.commute [of c d])
qed

text \<open>
  The key mixer is a permutation of the 64-bit words, so that different keys of one seed and one
  kind of fault never share the state their fault is drawn from.
\<close>

theorem mix64_bij: "bij mix64"
proof -
  let ?s = "\<lambda>k (x :: u64). x XOR drop_bit k x"
  have m1: "inj (\<lambda>x :: u64. x * 0xbf58476d1ce4e5b9)"
    by (rule odd_mult_inj [where d = "0x96de1b173f119089"]) simp
  have m2: "inj (\<lambda>x :: u64. x * 0x94d049bb133111eb)"
    by (rule odd_mult_inj [where d = "0x319642b2d24d8ec3"]) simp
  have eq: "mix64 = ?s 31 \<circ> (\<lambda>x. x * 0x94d049bb133111eb) \<circ> ?s 27 \<circ> (\<lambda>x. x * 0xbf58476d1ce4e5b9) \<circ> ?s 30"
    by (rule ext) (simp add: mix64_def Let_def)
  have "inj mix64"
    unfolding eq by (intro inj_compose m1 m2 inj_shift_right) simp_all
  then show ?thesis by (simp add: bij_def finite_UNIV_inj_surj)
qed

end
