(* ===== verification/Sim_Network.thy ===== *)
theory Sim_Network
  imports Hive_Prng Hive_Wire "HOL-Library.Sublist"
begin

text \<open>
  The simulated network of \<^verbatim>\<open>worker/src/sim/network.rs\<close>: per agent a bounded queue in each
  direction, with delays, drops, replays, partitions and session epochs. The lemmas are about one
  queue; the properties about whole runs of the network.
\<close>

section \<open>Model\<close>

definition QUEUE_CAPACITY :: nat where "QUEUE_CAPACITY = 256"

text \<open>\<open>PendingControl\<close> and \<open>PendingAgent\<close> have the same fields over their message types.\<close>

record 'm pending =
  pd_msg :: 'm
  pd_deliver_at_tick :: u64
  pd_epoch :: u64
  pd_replayed :: bool

record message_stats =
  ms_control_sent :: u64
  ms_control_bytes :: u64
  ms_worker_sent :: u64
  ms_worker_bytes :: u64
  ms_worker_failed_partition :: u64
  ms_worker_dropped :: u64

definition message_stats_new :: message_stats where
  "message_stats_new =
     \<lparr>ms_control_sent = 0, ms_control_bytes = 0, ms_worker_sent = 0, ms_worker_bytes = 0,
      ms_worker_failed_partition = 0, ms_worker_dropped = 0\<rparr>"

record network =
  nw_inbound :: "control_message pending list list"
  nw_outbound :: "worker_message pending list list"
  nw_partitioned :: "bool list"
  nw_session_epochs :: "u64 list"
  nw_prng :: prng
  nw_min_delay :: u64
  nw_max_delay :: u64
  nw_drop_rate :: ratio
  nw_replay_rate :: ratio
  nw_path_max_capacity :: nat
  nw_partition_stable_until :: "u64 list"
  nw_heal_stable_until :: u64
  nw_partition_stability :: u64
  nw_heal_stability :: u64
  nw_stats :: message_stats

definition network_new :: "nat \<Rightarrow> u64 \<Rightarrow> network" where
  "network_new agent_count seed =
     \<lparr>nw_inbound = replicate agent_count [], nw_outbound = replicate agent_count [],
      nw_partitioned = replicate agent_count False, nw_session_epochs = replicate agent_count 0,
      nw_prng = prng_init (seed + 0xBEEF), nw_min_delay = 1, nw_max_delay = 5,
      nw_drop_rate = ratio_zero, nw_replay_rate = ratio_zero, nw_path_max_capacity = 0,
      nw_partition_stable_until = replicate agent_count 0, nw_heal_stable_until = 0,
      nw_partition_stability = 0, nw_heal_stability = 0, nw_stats = message_stats_new\<rparr>"

definition queue_capacity :: "nat \<Rightarrow> nat" where
  "queue_capacity path_max_capacity =
     (if path_max_capacity = 0 then QUEUE_CAPACITY else min path_max_capacity QUEUE_CAPACITY)"

definition draw_delay :: "network \<Rightarrow> (u64 \<times> prng) res" where
  "draw_delay nw =
     and_then (bounded (nw_prng nw) (nw_max_delay nw - nw_min_delay nw + 1))
       (\<lambda>(d, p). Inr (nw_min_delay nw + d, p))"

definition send_to_agent :: "nat \<Rightarrow> control_message \<Rightarrow> u64 \<Rightarrow> network \<Rightarrow> network res" where
  "send_to_agent agent_id msg current_tick nw =
     and_then (ensure (agent_id < length (nw_inbound nw))
                ''assertion failed: agent_id < self.inbound.len()'') (\<lambda>_.
     and_then (ensure (nw_min_delay nw \<le> nw_max_delay nw)
                ''assertion failed: self.min_delay <= self.max_delay'') (\<lambda>_.
     and_then (chance_ratio (nw_prng nw) (nw_drop_rate nw)) (\<lambda>(drop, p).
       let nw1 = nw\<lparr>nw_prng := p\<rparr>; queue = nw_inbound nw1 ! agent_id in
       if drop then Inr nw1
       else if length queue \<ge> queue_capacity (nw_path_max_capacity nw1) then Inr nw1
       else
         and_then (draw_delay nw1) (\<lambda>(delay, p2).
         and_then (index_at (nw_session_epochs nw1) agent_id) (\<lambda>epoch.
           Inr (nw1\<lparr>nw_inbound := (nw_inbound nw1)[agent_id := queue @
                      [\<lparr>pd_msg = msg, pd_deliver_at_tick = current_tick + delay, pd_epoch = epoch,
                        pd_replayed = False\<rparr>]],
                    nw_prng := p2,
                    nw_stats := (nw_stats nw1)\<lparr>ms_control_sent := ms_control_sent (nw_stats nw1) + 1\<rparr>\<rparr>))))))"

text \<open>A response too large for one frame becomes the error response of the wire format.\<close>

definition network_msg :: "worker_message \<Rightarrow> worker_message" where
  "network_msg msg =
     (case msg of
        RunResponse r \<Rightarrow>
          if length (rsp_payload r) > MAX_RUN_RESPONSE_BODY
          then RunResponse (r\<lparr>rsp_status := RUN_STATUS_RESPONSE_TOO_LARGE, rsp_payload := []\<rparr>)
          else msg
      | _ \<Rightarrow> msg)"

definition encoded_len :: "worker_message \<Rightarrow> nat res" where
  "encoded_len msg =
     (case fst (encode_agent_message msg (replicate MAX_FRAME_PAYLOAD 0)) of
        Inl _ \<Rightarrow> Inl ''worker simulation must emit encodable messages''
      | Inr (_, payload_len) \<Rightarrow> Inr payload_len)"

definition count_dropped :: "network \<Rightarrow> network" where
  "count_dropped nw =
     nw\<lparr>nw_stats := (nw_stats nw)\<lparr>ms_worker_dropped := ms_worker_dropped (nw_stats nw) + 1\<rparr>\<rparr>"

definition send_from_agent :: "nat \<Rightarrow> worker_message \<Rightarrow> u64 \<Rightarrow> network \<Rightarrow> network res" where
  "send_from_agent agent_id msg current_tick nw =
     and_then (ensure (agent_id < length (nw_outbound nw))
                ''assertion failed: agent_id < self.outbound.len()'') (\<lambda>_.
     and_then (ensure (nw_min_delay nw \<le> nw_max_delay nw)
                ''assertion failed: self.min_delay <= self.max_delay'') (\<lambda>_.
     and_then (index_at (nw_partitioned nw) agent_id) (\<lambda>partitioned.
       if partitioned then
         Inr (nw\<lparr>nw_stats := (nw_stats nw)\<lparr>ms_worker_failed_partition :=
                   ms_worker_failed_partition (nw_stats nw) + 1\<rparr>\<rparr>)
       else
         and_then (chance_ratio (nw_prng nw) (nw_drop_rate nw)) (\<lambda>(drop, p).
           let nw1 = nw\<lparr>nw_prng := p\<rparr>; queue = nw_outbound nw1 ! agent_id in
           if drop then Inr (count_dropped nw1)
           else if length queue \<ge> queue_capacity (nw_path_max_capacity nw1) then Inr (count_dropped nw1)
           else
             and_then (encoded_len msg) (\<lambda>payload_len.
             and_then (draw_delay nw1) (\<lambda>(delay, p2).
             and_then (index_at (nw_session_epochs nw1) agent_id) (\<lambda>epoch.
               Inr (nw1\<lparr>nw_outbound := (nw_outbound nw1)[agent_id := queue @
                          [\<lparr>pd_msg = network_msg msg, pd_deliver_at_tick = current_tick + delay,
                            pd_epoch = epoch, pd_replayed = False\<rparr>]],
                        nw_prng := p2,
                        nw_stats := (nw_stats nw1)\<lparr>ms_worker_sent := ms_worker_sent (nw_stats nw1) + 1,
                          ms_worker_bytes := ms_worker_bytes (nw_stats nw1) + word_of_nat payload_len\<rparr>\<rparr>))))))))"

text \<open>
  The common part of the two pops: drop the messages of earlier sessions, take the first if its
  tick has come, and maybe queue it once more.
\<close>

definition pop_queue ::
    "network \<Rightarrow> u64 \<Rightarrow> u64 \<Rightarrow> 'm pending list \<Rightarrow> ('m option \<times> 'm pending list \<times> prng) res" where
  "pop_queue nw epoch now queue =
     (case dropWhile (\<lambda>p. pd_epoch p \<noteq> epoch) queue of
        [] \<Rightarrow> Inr (None, [], nw_prng nw)
      | p # rest \<Rightarrow>
          if pd_deliver_at_tick p > now then Inr (None, p # rest, nw_prng nw)
          else if pd_replayed p then Inr (Some (pd_msg p), rest, nw_prng nw)
          else
            and_then (chance_ratio (nw_prng nw) (nw_replay_rate nw)) (\<lambda>(replay, prng).
              if replay \<and> length rest < queue_capacity (nw_path_max_capacity nw) then
                Inr (Some (pd_msg p),
                     rest @ [p\<lparr>pd_deliver_at_tick := now + max (nw_min_delay nw) 1, pd_replayed := True\<rparr>],
                     prng)
              else Inr (Some (pd_msg p), rest, prng)))"

definition pop_inbound :: "nat \<Rightarrow> u64 \<Rightarrow> network \<Rightarrow> (control_message option \<times> network) res" where
  "pop_inbound agent_id now nw =
     and_then (ensure (agent_id < length (nw_inbound nw))
                ''assertion failed: agent_id < self.inbound.len()'') (\<lambda>_.
     and_then (index_at (nw_partitioned nw) agent_id) (\<lambda>partitioned.
       if partitioned then Inr (None, nw)
       else
         and_then (index_at (nw_session_epochs nw) agent_id) (\<lambda>epoch.
         and_then (pop_queue nw epoch now (nw_inbound nw ! agent_id)) (\<lambda>(m, queue, p).
           Inr (m, nw\<lparr>nw_inbound := (nw_inbound nw)[agent_id := queue], nw_prng := p\<rparr>)))))"

definition pop_outbound :: "nat \<Rightarrow> u64 \<Rightarrow> network \<Rightarrow> (worker_message option \<times> network) res" where
  "pop_outbound agent_id now nw =
     and_then (ensure (agent_id < length (nw_outbound nw))
                ''assertion failed: agent_id < self.outbound.len()'') (\<lambda>_.
     and_then (index_at (nw_partitioned nw) agent_id) (\<lambda>partitioned.
       if partitioned then Inr (None, nw)
       else
         and_then (index_at (nw_session_epochs nw) agent_id) (\<lambda>epoch.
         and_then (pop_queue nw epoch now (nw_outbound nw ! agent_id)) (\<lambda>(m, queue, p).
           Inr (m, nw\<lparr>nw_outbound := (nw_outbound nw)[agent_id := queue], nw_prng := p\<rparr>)))))"

definition partition_agent :: "nat \<Rightarrow> u64 \<Rightarrow> network \<Rightarrow> network res" where
  "partition_agent agent_id current_tick nw =
     (if current_tick < nw_heal_stable_until nw then Inr nw
      else
        and_then (index_at (nw_partitioned nw) agent_id) (\<lambda>_.
        and_then (index_at (nw_partition_stable_until nw) agent_id) (\<lambda>_.
          Inr (nw\<lparr>nw_partitioned := (nw_partitioned nw)[agent_id := True],
                  nw_partition_stable_until := (nw_partition_stable_until nw)
                    [agent_id := current_tick + nw_partition_stability nw]\<rparr>))))"

definition is_partitioned :: "nat \<Rightarrow> network \<Rightarrow> bool res" where
  "is_partitioned agent_id nw =
     and_then (ensure (agent_id < length (nw_partitioned nw))
                ''assertion failed: agent_id < self.partitioned.len()'')
       (\<lambda>_. Inr (nw_partitioned nw ! agent_id))"

definition discard_session_queues :: "nat \<Rightarrow> network \<Rightarrow> network res" where
  "discard_session_queues agent_id nw =
     and_then (ensure (agent_id < length (nw_inbound nw))
                ''assertion failed: agent_id < self.inbound.len()'') (\<lambda>_.
     and_then (ensure (agent_id < length (nw_outbound nw))
                ''assertion failed: agent_id < self.outbound.len()'') (\<lambda>_.
     and_then (index_at (nw_session_epochs nw) agent_id) (\<lambda>epoch.
     and_then (expect (checked_add epoch 1) ''simulation session epoch must not overflow'') (\<lambda>epoch'.
       Inr (nw\<lparr>nw_session_epochs := (nw_session_epochs nw)[agent_id := epoch'],
               nw_inbound := (nw_inbound nw)[agent_id := []],
               nw_outbound := (nw_outbound nw)[agent_id := []]\<rparr>)))))"

definition force_heal_all :: "u64 \<Rightarrow> network \<Rightarrow> network" where
  "force_heal_all current_tick nw =
     nw\<lparr>nw_partitioned := map (\<lambda>_. False) (nw_partitioned nw),
        nw_heal_stable_until := current_tick + nw_heal_stability nw\<rparr>"

definition heal_all :: "u64 \<Rightarrow> network \<Rightarrow> network" where
  "heal_all current_tick nw =
     (if list_ex (\<lambda>stable_until. current_tick < stable_until) (nw_partition_stable_until nw) then nw
      else force_heal_all current_tick nw)"

definition heal_one :: "nat \<Rightarrow> u64 \<Rightarrow> network \<Rightarrow> network res" where
  "heal_one agent_id current_tick nw =
     and_then (index_at (nw_partition_stable_until nw) agent_id) (\<lambda>stable_until.
       if current_tick < stable_until then Inr nw
       else
         and_then (index_at (nw_partitioned nw) agent_id) (\<lambda>_.
           Inr (nw\<lparr>nw_partitioned := (nw_partitioned nw)[agent_id := False]\<rparr>)))"

definition total_messages :: "network \<Rightarrow> u64" where
  "total_messages nw = ms_control_sent (nw_stats nw) + ms_worker_sent (nw_stats nw)"

section \<open>Runs\<close>

text \<open>
  A run is a sequence of operations. Its record holds what was delivered in each direction, with
  the agent.
\<close>

datatype net_op =
    SendTo nat control_message u64
  | SendFrom nat worker_message u64
  | PopIn nat u64
  | PopOut nat u64
  | PartitionOp nat u64
  | HealAllOp u64
  | ForceHealOp u64
  | HealOneOp nat u64
  | DiscardOp nat

record net_run =
  run_in :: "(nat \<times> control_message) list"
  run_out :: "(nat \<times> worker_message) list"
  run_net :: network

definition with_net :: "net_run \<Rightarrow> network res \<Rightarrow> net_run res" where
  "with_net r x = and_then x (\<lambda>nw. Inr (r\<lparr>run_net := nw\<rparr>))"

definition delivered :: "nat \<Rightarrow> 'm option \<Rightarrow> (nat \<times> 'm) list" where
  "delivered a m = (case m of None \<Rightarrow> [] | Some x \<Rightarrow> [(a, x)])"

primrec net_step :: "net_op \<Rightarrow> net_run \<Rightarrow> net_run res" where
  "net_step (SendTo a m t) r = with_net r (send_to_agent a m t (run_net r))"
| "net_step (SendFrom a m t) r = with_net r (send_from_agent a m t (run_net r))"
| "net_step (PopIn a t) r =
     and_then (pop_inbound a t (run_net r)) (\<lambda>(m, nw).
       Inr (r\<lparr>run_in := run_in r @ delivered a m, run_net := nw\<rparr>))"
| "net_step (PopOut a t) r =
     and_then (pop_outbound a t (run_net r)) (\<lambda>(m, nw).
       Inr (r\<lparr>run_out := run_out r @ delivered a m, run_net := nw\<rparr>))"
| "net_step (PartitionOp a t) r = with_net r (partition_agent a t (run_net r))"
| "net_step (HealAllOp t) r = Inr (r\<lparr>run_net := heal_all t (run_net r)\<rparr>)"
| "net_step (ForceHealOp t) r = Inr (r\<lparr>run_net := force_heal_all t (run_net r)\<rparr>)"
| "net_step (HealOneOp a t) r = with_net r (heal_one a t (run_net r))"
| "net_step (DiscardOp a) r = with_net r (discard_session_queues a (run_net r))"

definition net_start :: "network \<Rightarrow> net_run" where
  "net_start nw = \<lparr>run_in = [], run_out = [], run_net = nw\<rparr>"

text \<open>What was handed to the network for an agent and from it, and what came out.\<close>

fun sent_to :: "nat \<Rightarrow> net_op list \<Rightarrow> control_message list" where
  "sent_to a [] = []"
| "sent_to a (SendTo b m t # ops) = (if a = b then [m] else []) @ sent_to a ops"
| "sent_to a (_ # ops) = sent_to a ops"

fun sent_from :: "nat \<Rightarrow> net_op list \<Rightarrow> worker_message list" where
  "sent_from a [] = []"
| "sent_from a (SendFrom b m t # ops) = (if a = b then [network_msg m] else []) @ sent_from a ops"
| "sent_from a (_ # ops) = sent_from a ops"

definition for_agent :: "nat \<Rightarrow> (nat \<times> 'm) list \<Rightarrow> 'm list" where
  "for_agent a ds = map snd (filter (\<lambda>d. fst d = a) ds)"

lemma for_agent_simps [simp]:
  "for_agent a [] = []" "for_agent a (xs @ ys) = for_agent a xs @ for_agent a ys"
  "for_agent a (delivered b m) = (if a = b then (case m of None \<Rightarrow> [] | Some x \<Rightarrow> [x]) else [])"
  by (auto simp: for_agent_def delivered_def split: option.split)

section \<open>One queue\<close>

lemma queue_capacity_le: "queue_capacity n \<le> QUEUE_CAPACITY"
  by (simp add: queue_capacity_def)

text \<open>How a pop changes a queue.\<close>

inductive popped :: "'m option \<Rightarrow> 'm pending list \<Rightarrow> 'm pending list \<Rightarrow> bool" where
  nothing: "suffix q' q \<Longrightarrow> popped None q q'"
| plain: "suffix (p # rest) q \<Longrightarrow> popped (Some (pd_msg p)) q rest"
| again: "\<lbrakk>suffix (p # rest) q; \<not> pd_replayed p\<rbrakk> \<Longrightarrow>
    popped (Some (pd_msg p)) q (rest @ [p\<lparr>pd_deliver_at_tick := t, pd_replayed := True\<rparr>])"

inductive_cases poppedE: "popped m q q'"

lemma pop_queue_popped:
  assumes "pop_queue nw epoch now q = Inr (m, q', prng)"
  shows "popped m q q'"
proof -
  have suf: "suffix (dropWhile (\<lambda>p. pd_epoch p \<noteq> epoch) q) q" by (rule suffix_dropWhile)
  show ?thesis
  proof (cases "dropWhile (\<lambda>p. pd_epoch p \<noteq> epoch) q")
    case Nil
    with assms show ?thesis by (auto simp: pop_queue_def intro: popped.intros)
  next
    case (Cons p rest)
    with suf have "suffix (p # rest) q" by simp
    with assms Cons show ?thesis
      by (auto simp: pop_queue_def and_then_Inr split: if_splits intro: popped.intros)
  qed
qed

lemma pop_queue_once:
  assumes "pop_queue nw epoch now q = Inr (m, q', prng)" "nw_replay_rate nw = ratio_zero"
  shows "subseq (case m of None \<Rightarrow> map pd_msg q' | Some x \<Rightarrow> x # map pd_msg q') (map pd_msg q)"
proof -
  define d where "d = dropWhile (\<lambda>p. pd_epoch p \<noteq> epoch) q"
  have "subseq d q" unfolding d_def by (rule suffix_imp_subseq [OF suffix_dropWhile])
  then have "subseq (map pd_msg d) (map pd_msg q)" by (rule subseq_map)
  with assms show ?thesis
    unfolding pop_queue_def d_def [symmetric]
    by (cases d) (auto simp: and_then_Inr chance_ratio_def ratio_zero_def split: if_splits)
qed

text \<open>The deliveries a queue still owes: one for a replayed entry, two for another.\<close>

definition owed :: "'m \<Rightarrow> 'm pending list \<Rightarrow> nat" where
  "owed m q = sum_list (map (\<lambda>p. if pd_msg p = m then (if pd_replayed p then 1 else 2) else 0) q)"

lemma owed_simps [simp]:
  "owed m [] = 0" "owed m (xs @ ys) = owed m xs + owed m ys"
  "owed m (p # q) = (if pd_msg p = m then (if pd_replayed p then 1 else 2) else 0) + owed m q"
  by (simp_all add: owed_def)

lemma owed_suffix: "suffix q' q \<Longrightarrow> owed m q' \<le> owed m q"
  by (auto simp: suffix_def)

lemma popped_owed:
  "popped r q q' \<Longrightarrow> count_list (case r of None \<Rightarrow> [] | Some x \<Rightarrow> [x]) m + owed m q' \<le> owed m q"
  by (erule poppedE) (auto simp: suffix_def)

section \<open>Effects of the operations on the queues\<close>

definition other_fields :: "network \<Rightarrow> network \<Rightarrow> bool" where
  "other_fields nw nw' =
     (nw_min_delay nw' = nw_min_delay nw \<and> nw_max_delay nw' = nw_max_delay nw
      \<and> nw_replay_rate nw' = nw_replay_rate nw \<and> nw_drop_rate nw' = nw_drop_rate nw
      \<and> length (nw_inbound nw') = length (nw_inbound nw)
      \<and> length (nw_outbound nw') = length (nw_outbound nw)
      \<and> length (nw_partitioned nw') = length (nw_partitioned nw)
      \<and> length (nw_session_epochs nw') = length (nw_session_epochs nw)
      \<and> length (nw_partition_stable_until nw') = length (nw_partition_stable_until nw))"

lemma other_fields_refl [simp]: "other_fields nw nw"
  by (simp add: other_fields_def)

lemma send_to_effect:
  assumes "send_to_agent a m t nw = Inr nw'"
  shows "other_fields nw nw' \<and> nw_outbound nw' = nw_outbound nw
    \<and> nw_session_epochs nw' = nw_session_epochs nw \<and> nw_partitioned nw' = nw_partitioned nw
    \<and> (nw_inbound nw' = nw_inbound nw
       \<or> a < length (nw_inbound nw) \<and> length (nw_inbound nw ! a) < QUEUE_CAPACITY
         \<and> (\<exists>p. nw_inbound nw' = (nw_inbound nw)[a := nw_inbound nw ! a @ [p]] \<and> pd_msg p = m
             \<and> \<not> pd_replayed p \<and> pd_epoch p = nw_session_epochs nw ! a))"
  using assms queue_capacity_le [of "nw_path_max_capacity nw"]
  by (auto simp: send_to_agent_def other_fields_def and_then_Inr Let_def index_at_Inr split: if_splits)

lemma send_from_effect:
  assumes "send_from_agent a m t nw = Inr nw'"
  shows "other_fields nw nw' \<and> nw_inbound nw' = nw_inbound nw
    \<and> nw_session_epochs nw' = nw_session_epochs nw \<and> nw_partitioned nw' = nw_partitioned nw
    \<and> (nw_outbound nw' = nw_outbound nw
       \<or> a < length (nw_outbound nw) \<and> length (nw_outbound nw ! a) < QUEUE_CAPACITY
         \<and> \<not> nw_partitioned nw ! a
         \<and> (\<exists>p. nw_outbound nw' = (nw_outbound nw)[a := nw_outbound nw ! a @ [p]] \<and> pd_msg p = network_msg m
             \<and> \<not> pd_replayed p \<and> pd_epoch p = nw_session_epochs nw ! a))"
  using assms queue_capacity_le [of "nw_path_max_capacity nw"]
  by (auto simp: send_from_agent_def other_fields_def count_dropped_def and_then_Inr Let_def index_at_Inr
        split: if_splits)

lemma pop_inbound_effect:
  assumes "pop_inbound a t nw = Inr (m, nw')"
  shows "other_fields nw nw' \<and> nw_outbound nw' = nw_outbound nw
    \<and> nw_session_epochs nw' = nw_session_epochs nw \<and> nw_partitioned nw' = nw_partitioned nw
    \<and> a < length (nw_inbound nw)
    \<and> (if nw_partitioned nw ! a then m = None \<and> nw' = nw
        else \<exists>q p. pop_queue nw (nw_session_epochs nw ! a) t (nw_inbound nw ! a) = Inr (m, q, p)
               \<and> nw_inbound nw' = (nw_inbound nw)[a := q])"
  using assms by (auto simp: pop_inbound_def other_fields_def and_then_Inr index_at_Inr split: if_splits)

lemma pop_outbound_effect:
  assumes "pop_outbound a t nw = Inr (m, nw')"
  shows "other_fields nw nw' \<and> nw_inbound nw' = nw_inbound nw
    \<and> nw_session_epochs nw' = nw_session_epochs nw \<and> nw_partitioned nw' = nw_partitioned nw
    \<and> a < length (nw_outbound nw)
    \<and> (if nw_partitioned nw ! a then m = None \<and> nw' = nw
        else \<exists>q p. pop_queue nw (nw_session_epochs nw ! a) t (nw_outbound nw ! a) = Inr (m, q, p)
               \<and> nw_outbound nw' = (nw_outbound nw)[a := q])"
  using assms by (auto simp: pop_outbound_def other_fields_def and_then_Inr index_at_Inr split: if_splits)

lemma partition_effect:
  "partition_agent a t nw = Inr nw' \<Longrightarrow> other_fields nw nw' \<and> nw_inbound nw' = nw_inbound nw
     \<and> nw_outbound nw' = nw_outbound nw \<and> nw_session_epochs nw' = nw_session_epochs nw"
  by (auto simp: partition_agent_def other_fields_def and_then_Inr split: if_splits)

lemma heal_one_effect:
  "heal_one a t nw = Inr nw' \<Longrightarrow> other_fields nw nw' \<and> nw_inbound nw' = nw_inbound nw
     \<and> nw_outbound nw' = nw_outbound nw \<and> nw_session_epochs nw' = nw_session_epochs nw"
  by (auto simp: heal_one_def other_fields_def and_then_Inr split: if_splits)

lemma force_heal_effect:
  "other_fields nw (force_heal_all t nw)" "nw_inbound (force_heal_all t nw) = nw_inbound nw"
  "nw_outbound (force_heal_all t nw) = nw_outbound nw"
  "nw_session_epochs (force_heal_all t nw) = nw_session_epochs nw"
  by (simp_all add: force_heal_all_def other_fields_def)

lemma heal_all_effect:
  "other_fields nw (heal_all t nw)" "nw_inbound (heal_all t nw) = nw_inbound nw"
  "nw_outbound (heal_all t nw) = nw_outbound nw"
  "nw_session_epochs (heal_all t nw) = nw_session_epochs nw"
  by (simp_all add: heal_all_def force_heal_effect)

lemma discard_effect:
  "discard_session_queues a nw = Inr nw' \<Longrightarrow> other_fields nw nw'
     \<and> nw_inbound nw' = (nw_inbound nw)[a := []] \<and> nw_outbound nw' = (nw_outbound nw)[a := []]
     \<and> a < length (nw_session_epochs nw) \<and> a < length (nw_inbound nw) \<and> a < length (nw_outbound nw)
     \<and> (\<exists>e. checked_add (nw_session_epochs nw ! a) 1 = Some e
           \<and> nw_session_epochs nw' = (nw_session_epochs nw)[a := e])"
  by (auto simp: discard_session_queues_def other_fields_def and_then_Inr index_at_Inr expect_Inr)

lemmas heal_effects = force_heal_effect heal_all_effect

lemma other_fields_trans: "other_fields x y \<Longrightarrow> other_fields y z \<Longrightarrow> other_fields x z"
  by (simp add: other_fields_def)

lemma net_step_other_fields: "net_step op r = Inr r' \<Longrightarrow> other_fields (run_net r) (run_net r')"
  by (cases op)
     (auto simp: with_net_def and_then_Inr heal_effects
        dest!: send_to_effect send_from_effect pop_inbound_effect pop_outbound_effect partition_effect
          heal_one_effect discard_effect)

section \<open>The two directions\<close>

text \<open>
  What one step of a run does to the queue of one agent in one direction: nothing, an accepted
  message, a pop, or the loss of the session. Both directions obey it, which is all the statements
  about deliveries need.
\<close>

inductive queue_effect ::
    "network \<Rightarrow> 'm list \<Rightarrow> 'm pending list \<Rightarrow> 'm list \<Rightarrow> 'm pending list \<Rightarrow> bool" for nw where
  idle: "queue_effect nw ms q [] q"
| accepted: "\<lbrakk>pd_msg p = m; \<not> pd_replayed p; length q < QUEUE_CAPACITY\<rbrakk> \<Longrightarrow> queue_effect nw [m] q [] (q @ [p])"
| popped: "pop_queue nw epoch t q = Inr (m, q', prng) \<Longrightarrow> queue_effect nw [] q (opt_list m) q'"
| cleared: "queue_effect nw ms q [] []"

lemma queue_effect_simps [simp]: "queue_effect nw ms q [] q" "queue_effect nw ms q [] []"
  by (rule queue_effect.intros)+

inductive_cases queue_effectE: "queue_effect nw ms q ds q'"

locale direction =
  fixes queues :: "network \<Rightarrow> 'm pending list list"
    and log :: "net_run \<Rightarrow> (nat \<times> 'm) list"
    and sent :: "nat \<Rightarrow> net_op list \<Rightarrow> 'm list"
  assumes sent_Nil: "sent a [] = []"
    and sent_Cons: "sent a (op # ops) = sent a [op] @ sent a ops"
    and step: "net_step op r = Inr r' \<Longrightarrow> a < length (queues (run_net r)) \<Longrightarrow>
      length (queues (run_net r')) = length (queues (run_net r))
      \<and> (\<exists>d. log r' = log r @ d
          \<and> queue_effect (run_net r) (sent a [op]) (queues (run_net r) ! a) (for_agent a d) (queues (run_net r') ! a))"
begin

lemma run_subseq:
  assumes "fold_res net_step ops r = Inr r'" "nw_replay_rate (run_net r) = ratio_zero" "a < length (queues (run_net r))"
  shows "\<exists>d. log r' = log r @ d
    \<and> subseq (for_agent a d @ map pd_msg (queues (run_net r') ! a)) (map pd_msg (queues (run_net r) ! a) @ sent a ops)"
  using assms
proof (induction ops arbitrary: r)
  case Nil
  then show ?case by (auto simp: sent_Nil)
next
  case (Cons op ops)
  then obtain r1 where r1: "net_step op r = Inr r1" "fold_res net_step ops r1 = Inr r'" by (auto simp: and_then_Inr)
  from step [OF r1(1) Cons.prems(3)] obtain d1 where d1: "log r1 = log r @ d1"
      "queue_effect (run_net r) (sent a [op]) (queues (run_net r) ! a) (for_agent a d1) (queues (run_net r1) ! a)"
      "length (queues (run_net r1)) = length (queues (run_net r))"
    by blast
  have "nw_replay_rate (run_net r1) = ratio_zero"
    using net_step_other_fields [OF r1(1)] Cons.prems(2) by (simp add: other_fields_def)
  with Cons.IH [OF r1(2)] Cons.prems(3) d1(3) obtain d2 where d2: "log r' = log r1 @ d2"
      "subseq (for_agent a d2 @ map pd_msg (queues (run_net r') ! a))
         (map pd_msg (queues (run_net r1) ! a) @ sent a ops)"
    by auto
  have "subseq (for_agent a d1 @ map pd_msg (queues (run_net r1) ! a)) (map pd_msg (queues (run_net r) ! a) @ sent a [op])"
    using d1(2) by (rule queue_effectE) (auto simp: opt_list_def split: option.splits
        dest!: pop_queue_once [OF _ Cons.prems(2)])
  then have "subseq ((for_agent a d1 @ map pd_msg (queues (run_net r1) ! a)) @ sent a ops)
      ((map pd_msg (queues (run_net r) ! a) @ sent a [op]) @ sent a ops)"
    by (rule list_emb_append_mono) simp
  moreover have "subseq (for_agent a d1 @ for_agent a d2 @ map pd_msg (queues (run_net r') ! a))
      (for_agent a d1 @ map pd_msg (queues (run_net r1) ! a) @ sent a ops)"
    by (rule list_emb_append_mono [OF _ d2(2)]) simp
  ultimately show ?case
    using d1(1) d2(1) sent_Cons [of a op ops] by (auto intro: subseq_order.trans)
qed

lemma run_owed:
  assumes "fold_res net_step ops r = Inr r'" "a < length (queues (run_net r))"
  shows "\<exists>d. log r' = log r @ d
    \<and> count_list (for_agent a d) m + owed m (queues (run_net r') ! a)
        \<le> owed m (queues (run_net r) ! a) + 2 * count_list (sent a ops) m"
  using assms
proof (induction ops arbitrary: r)
  case Nil
  then show ?case by (auto simp: sent_Nil)
next
  case (Cons op ops)
  then obtain r1 where r1: "net_step op r = Inr r1" "fold_res net_step ops r1 = Inr r'" by (auto simp: and_then_Inr)
  from step [OF r1(1) Cons.prems(2)] obtain d1 where d1: "log r1 = log r @ d1"
      "queue_effect (run_net r) (sent a [op]) (queues (run_net r) ! a) (for_agent a d1) (queues (run_net r1) ! a)"
      "length (queues (run_net r1)) = length (queues (run_net r))"
    by blast
  from Cons.IH [OF r1(2)] Cons.prems(2) d1(3) obtain d2 where d2: "log r' = log r1 @ d2"
      "count_list (for_agent a d2) m + owed m (queues (run_net r') ! a)
        \<le> owed m (queues (run_net r1) ! a) + 2 * count_list (sent a ops) m"
    by auto
  have "count_list (for_agent a d1) m + owed m (queues (run_net r1) ! a)
      \<le> owed m (queues (run_net r) ! a) + 2 * count_list (sent a [op]) m"
    using d1(2) by (rule queue_effectE)
      (auto simp: opt_list_def dest!: pop_queue_popped popped_owed [of _ _ _ m] split: option.splits)
  with d1(1) d2 sent_Cons [of a op ops] show ?case by auto
qed

end

lemma list_update_id_nth: "(xs[b := y]) ! a = (if a = b \<and> b < length xs then y else xs ! a)"
  by (auto simp: nth_list_update list_update_beyond)

interpretation inward: direction nw_inbound run_in sent_to
proof
  fix op :: net_op and r r' a
  assume *: "net_step op r = Inr r'" "a < length (nw_inbound (run_net r))"
  have len: "length (nw_inbound (run_net r')) = length (nw_inbound (run_net r))"
    using net_step_other_fields [OF *(1)] by (simp add: other_fields_def)
  have "\<exists>d. run_in r' = run_in r @ d
    \<and> queue_effect (run_net r) (sent_to a [op]) (nw_inbound (run_net r) ! a) (for_agent a d) (nw_inbound (run_net r') ! a)"
    using *
    by (cases op)
       (auto simp: with_net_def and_then_Inr heal_effects list_update_id_nth opt_list_def [symmetric]
          dest!: send_to_effect send_from_effect pop_inbound_effect pop_outbound_effect partition_effect
            heal_one_effect discard_effect
          split: if_splits intro: accepted, erule queue_effect.popped)
  with len show "length (nw_inbound (run_net r')) = length (nw_inbound (run_net r))
      \<and> (\<exists>d. run_in r' = run_in r @ d
    \<and> queue_effect (run_net r) (sent_to a [op]) (nw_inbound (run_net r) ! a) (for_agent a d) (nw_inbound (run_net r') ! a))"
    by simp
next
  show "sent_to a (op # ops) = sent_to a [op] @ sent_to a ops" for a op ops
    by (cases op) simp_all
qed simp

interpretation outward: direction nw_outbound run_out sent_from
proof
  fix op :: net_op and r r' a
  assume *: "net_step op r = Inr r'" "a < length (nw_outbound (run_net r))"
  have len: "length (nw_outbound (run_net r')) = length (nw_outbound (run_net r))"
    using net_step_other_fields [OF *(1)] by (simp add: other_fields_def)
  have "\<exists>d. run_out r' = run_out r @ d
    \<and> queue_effect (run_net r) (sent_from a [op]) (nw_outbound (run_net r) ! a) (for_agent a d) (nw_outbound (run_net r') ! a)"
    using *
    by (cases op)
       (auto simp: with_net_def and_then_Inr heal_effects list_update_id_nth opt_list_def [symmetric]
          dest!: send_to_effect send_from_effect pop_inbound_effect pop_outbound_effect partition_effect
            heal_one_effect discard_effect
          split: if_splits intro: accepted, erule queue_effect.popped)
  with len show "length (nw_outbound (run_net r')) = length (nw_outbound (run_net r))
      \<and> (\<exists>d. run_out r' = run_out r @ d
    \<and> queue_effect (run_net r) (sent_from a [op]) (nw_outbound (run_net r) ! a) (for_agent a d) (nw_outbound (run_net r') ! a))"
    by simp
next
  show "sent_from a (op # ops) = sent_from a [op] @ sent_from a ops" for a op ops
    by (cases op) simp_all
qed simp

section \<open>The invariant of the network\<close>

definition queue_ok :: "u64 \<Rightarrow> 'm pending list \<Rightarrow> bool" where
  "queue_ok epoch q = (length q \<le> QUEUE_CAPACITY \<and> list_all (\<lambda>p. pd_epoch p = epoch) q)"

definition net_wf :: "nat \<Rightarrow> network \<Rightarrow> bool" where
  "net_wf n nw =
     (length (nw_inbound nw) = n \<and> length (nw_outbound nw) = n \<and> length (nw_partitioned nw) = n
      \<and> length (nw_session_epochs nw) = n \<and> length (nw_partition_stable_until nw) = n
      \<and> nw_min_delay nw \<le> nw_max_delay nw \<and> nw_max_delay nw - nw_min_delay nw \<noteq> - 1
      \<and> list_all2 queue_ok (nw_session_epochs nw) (nw_inbound nw)
      \<and> list_all2 queue_ok (nw_session_epochs nw) (nw_outbound nw))"

primrec op_ok :: "nat \<Rightarrow> network \<Rightarrow> net_op \<Rightarrow> bool" where
  "op_ok n nw (SendTo a m t) = (a < n)"
| "op_ok n nw (SendFrom a m t) = (a < n \<and> worker_message_ok m)"
| "op_ok n nw (PopIn a t) = (a < n)"
| "op_ok n nw (PopOut a t) = (a < n)"
| "op_ok n nw (PartitionOp a t) = (a < n)"
| "op_ok n nw (HealAllOp t) = True"
| "op_ok n nw (ForceHealOp t) = True"
| "op_ok n nw (HealOneOp a t) = (a < n)"
| "op_ok n nw (DiscardOp a) = (a < n \<and> nw_session_epochs nw ! a \<noteq> - 1)"

lemma queue_ok_Nil [simp]: "queue_ok e []"
  by (simp add: queue_ok_def QUEUE_CAPACITY_def)

lemma queue_ok_pop:
  assumes "queue_ok e q"
  shows "\<exists>m q' p. pop_queue nw e t q = Inr (m, q', p) \<and> queue_ok e q'"
proof (cases q)
  case (Cons p rest)
  obtain c g where c: "chance_ratio (nw_prng nw) (nw_replay_rate nw) = Inr (c, g)"
    using chance_ratio_total by blast
  show ?thesis
    using assms queue_capacity_le [of "nw_path_max_capacity nw"]
    by (auto simp: pop_queue_def Cons queue_ok_def c)
qed (simp add: pop_queue_def)

lemma list_all2_update:
  "list_all2 P xs ys \<Longrightarrow> P (xs ! a) y \<Longrightarrow> list_all2 P xs (ys[a := y])"
  by (cases "a < length xs") (auto simp: list_all2_conv_all_nth nth_list_update)

lemma draw_delay_total:
  assumes "nw_max_delay nw - nw_min_delay nw \<noteq> - 1"
  shows "\<exists>d p. draw_delay nw = Inr (d, p)"
proof -
  have "nw_max_delay nw - nw_min_delay nw + 1 \<noteq> 0"
    using assms by (metis add_eq_0_iff2)
  then show ?thesis
    using bounded_total [of "nw_max_delay nw - nw_min_delay nw + 1" "nw_prng nw"]
    by (auto simp: draw_delay_def word_gt_0)
qed

lemma encoded_len_eq: "worker_message_ok m \<Longrightarrow> encoded_len m = Inr (length (wire_worker_message m))"
  by (simp add: encoded_len_def encode_agent_message_eq)

lemma send_to_total:
  assumes "net_wf n nw" "a < n"
  shows "\<exists>nw'. send_to_agent a m t nw = Inr nw'"
proof -
  obtain c g where c: "chance_ratio (nw_prng nw) (nw_drop_rate nw) = Inr (c, g)"
    using chance_ratio_total by blast
  obtain d p where "draw_delay (nw\<lparr>nw_prng := g\<rparr>) = Inr (d, p)"
    using draw_delay_total [of "nw\<lparr>nw_prng := g\<rparr>"] assms(1) by (auto simp: net_wf_def)
  with c assms show ?thesis by (simp add: send_to_agent_def net_wf_def Let_def)
qed

lemma send_from_total:
  assumes "net_wf n nw" "a < n" "worker_message_ok m"
  shows "\<exists>nw'. send_from_agent a m t nw = Inr nw'"
proof -
  obtain c g where c: "chance_ratio (nw_prng nw) (nw_drop_rate nw) = Inr (c, g)"
    using chance_ratio_total by blast
  obtain d p where "draw_delay (nw\<lparr>nw_prng := g\<rparr>) = Inr (d, p)"
    using draw_delay_total [of "nw\<lparr>nw_prng := g\<rparr>"] assms(1) by (auto simp: net_wf_def)
  with c assms encoded_len_eq show ?thesis by (simp add: send_from_agent_def net_wf_def Let_def)
qed

lemma pop_inbound_total:
  assumes "net_wf n nw" "a < n"
  shows "\<exists>m nw'. pop_inbound a t nw = Inr (m, nw')"
proof -
  have "queue_ok (nw_session_epochs nw ! a) (nw_inbound nw ! a)"
    using assms by (simp add: net_wf_def list_all2_conv_all_nth)
  from queue_ok_pop [OF this, of nw t] assms show ?thesis
    by (auto simp: pop_inbound_def net_wf_def)
qed

lemma pop_outbound_total:
  assumes "net_wf n nw" "a < n"
  shows "\<exists>m nw'. pop_outbound a t nw = Inr (m, nw')"
proof -
  have "queue_ok (nw_session_epochs nw ! a) (nw_outbound nw ! a)"
    using assms by (simp add: net_wf_def list_all2_conv_all_nth)
  from queue_ok_pop [OF this, of nw t] assms show ?thesis
    by (auto simp: pop_outbound_def net_wf_def)
qed

text \<open>Every operation that returns keeps the invariant.\<close>

lemma net_wf_same_queues:
  "net_wf n nw \<Longrightarrow> other_fields nw nw' \<Longrightarrow> nw_session_epochs nw' = nw_session_epochs nw \<Longrightarrow>
     list_all2 queue_ok (nw_session_epochs nw) (nw_inbound nw') \<Longrightarrow>
     list_all2 queue_ok (nw_session_epochs nw) (nw_outbound nw') \<Longrightarrow> net_wf n nw'"
  by (simp add: net_wf_def other_fields_def)

lemma net_wf_queues:
  "net_wf n nw \<Longrightarrow> list_all2 queue_ok (nw_session_epochs nw) (nw_inbound nw)"
  "net_wf n nw \<Longrightarrow> list_all2 queue_ok (nw_session_epochs nw) (nw_outbound nw)"
  by (simp_all add: net_wf_def)

lemma net_wf_lengths:
  "net_wf n nw \<Longrightarrow> length (nw_inbound nw) = n" "net_wf n nw \<Longrightarrow> length (nw_outbound nw) = n"
  "net_wf n nw \<Longrightarrow> length (nw_partitioned nw) = n" "net_wf n nw \<Longrightarrow> length (nw_session_epochs nw) = n"
  "net_wf n nw \<Longrightarrow> length (nw_partition_stable_until nw) = n"
  by (simp_all add: net_wf_def)

lemma queue_ok_push:
  "queue_ok e q \<Longrightarrow> length q < QUEUE_CAPACITY \<Longrightarrow> pd_epoch p = e \<Longrightarrow> queue_ok e (q @ [p])"
  by (simp add: queue_ok_def)

lemma queues_push:
  assumes "list_all2 queue_ok es qs" "a < length qs" "length (qs ! a) < QUEUE_CAPACITY" "pd_epoch p = es ! a"
  shows "list_all2 queue_ok es (qs[a := qs ! a @ [p]])"
  using assms
  by (intro list_all2_update queue_ok_push) (auto simp: list_all2_conv_all_nth)

lemma queues_pop:
  assumes "list_all2 queue_ok es qs" "a < length qs" "pop_queue nw (es ! a) t (qs ! a) = Inr (m, q, p)"
  shows "list_all2 queue_ok es (qs[a := q])"
proof (rule list_all2_update [OF assms(1)])
  have "queue_ok (es ! a) (qs ! a)" using assms(1,2) by (simp add: list_all2_conv_all_nth)
  from queue_ok_pop [OF this, of nw t] assms(3) show "queue_ok (es ! a) q" by simp
qed

lemma queues_discard:
  "list_all2 queue_ok es qs \<Longrightarrow> list_all2 queue_ok (es[a := e]) (qs[a := []])"
  by (cases "a < length es") (auto simp: list_all2_conv_all_nth nth_list_update)

lemma send_to_wf: "send_to_agent a m t nw = Inr nw' \<Longrightarrow> net_wf n nw \<Longrightarrow> net_wf n nw'"
  by (drule send_to_effect, rule net_wf_same_queues) (auto intro!: queues_push intro: net_wf_queues)

lemma send_from_wf: "send_from_agent a m t nw = Inr nw' \<Longrightarrow> net_wf n nw \<Longrightarrow> net_wf n nw'"
  by (drule send_from_effect, rule net_wf_same_queues) (auto intro!: queues_push intro: net_wf_queues)

lemma pop_inbound_wf: "pop_inbound a t nw = Inr (m, nw') \<Longrightarrow> net_wf n nw \<Longrightarrow> net_wf n nw'"
  by (drule pop_inbound_effect, rule net_wf_same_queues)
     (auto intro: queues_pop [OF net_wf_queues(1)] queues_pop [OF net_wf_queues(2)] net_wf_queues split: if_splits)

lemma pop_outbound_wf: "pop_outbound a t nw = Inr (m, nw') \<Longrightarrow> net_wf n nw \<Longrightarrow> net_wf n nw'"
  by (drule pop_outbound_effect, rule net_wf_same_queues)
     (auto intro: queues_pop [OF net_wf_queues(1)] queues_pop [OF net_wf_queues(2)] net_wf_queues split: if_splits)

lemma partition_wf: "partition_agent a t nw = Inr nw' \<Longrightarrow> net_wf n nw \<Longrightarrow> net_wf n nw'"
  by (drule partition_effect, rule net_wf_same_queues) (auto dest: net_wf_queues)

lemma heal_one_wf: "heal_one a t nw = Inr nw' \<Longrightarrow> net_wf n nw \<Longrightarrow> net_wf n nw'"
  by (drule heal_one_effect, rule net_wf_same_queues) (auto dest: net_wf_queues)

lemma heal_all_wf: "net_wf n nw \<Longrightarrow> net_wf n (heal_all t nw)"
  by (rule net_wf_same_queues) (auto simp: heal_effects dest: net_wf_queues)

lemma force_heal_wf: "net_wf n nw \<Longrightarrow> net_wf n (force_heal_all t nw)"
  by (rule net_wf_same_queues) (auto simp: heal_effects dest: net_wf_queues)

lemma discard_wf:
  assumes "discard_session_queues a nw = Inr nw'" "net_wf n nw"
  shows "net_wf n nw'"
  using discard_effect [OF assms(1)] net_wf_queues [OF assms(2)] assms(2)
  by (auto simp: net_wf_def other_fields_def queues_discard)

lemmas network_keeps = send_to_wf send_from_wf pop_inbound_wf pop_outbound_wf partition_wf heal_one_wf
  heal_all_wf force_heal_wf discard_wf

lemma net_step_wf: "net_step op r = Inr r' \<Longrightarrow> net_wf n (run_net r) \<Longrightarrow> net_wf n (run_net r')"
  by (cases op) (auto simp: with_net_def and_then_Inr intro: network_keeps)

lemma checked_add_one:
  fixes x :: "'a::len word"
  assumes "x \<noteq> - 1"
  shows "checked_add x 1 = Some (x + 1)"
proof -
  have "unat x \<noteq> 2 ^ LENGTH('a) - 1"
    using assms unat_minus_one [where 'a = 'a] by (metis word_unat_eq_iff)
  then have "unat x + 1 < 2 ^ LENGTH('a)" using unat_less_pow [of x] by linarith
  then show ?thesis by (simp add: checked_add_def)
qed

lemma net_step_total:
  assumes "net_wf n (run_net r)" "op_ok n (run_net r) op"
  shows "\<exists>r'. net_step op r = Inr r'"
proof (cases op)
  case (SendTo a m t)
  then show ?thesis using send_to_total [OF assms(1), of a m t] assms(2) by (auto simp: with_net_def)
next
  case (SendFrom a m t)
  then show ?thesis using send_from_total [OF assms(1), of a m t] assms(2) by (auto simp: with_net_def)
next
  case (PopIn a t)
  then show ?thesis using pop_inbound_total [OF assms(1), of a t] assms(2) by auto
next
  case (PopOut a t)
  then show ?thesis using pop_outbound_total [OF assms(1), of a t] assms(2) by auto
next
  case (DiscardOp a)
  then show ?thesis using assms
    by (simp add: with_net_def discard_session_queues_def net_wf_lengths checked_add_one)
qed (use assms in \<open>auto simp: with_net_def partition_agent_def heal_one_def net_wf_lengths\<close>)

lemma network_new_wf: "net_wf n (network_new n seed)"
  by (simp add: net_wf_def network_new_def list_all2_conv_all_nth)

section \<open>Properties\<close>

text \<open>
  C14. Delivery is first in, first out and at most once: without replays, for every sequence of sends,
  pops, partitions, heals and lost sessions that starts with empty queues, what an agent receives
  is a subsequence of what was sent to it, and what is received from it a subsequence of what it
  sent.
\<close>

theorem network_fifo:
  assumes "fold_res net_step ops (net_start nw) = Inr r" and "nw_replay_rate nw = ratio_zero"
    and "a < length (nw_inbound nw)" and "nw_inbound nw ! a = []"
    and "a < length (nw_outbound nw)" and "nw_outbound nw ! a = []"
  shows "subseq (for_agent a (run_in r)) (sent_to a ops) \<and> subseq (for_agent a (run_out r)) (sent_from a ops)"
proof -
  have "subseq (for_agent a (run_in r) @ map pd_msg (nw_inbound (run_net r) ! a)) (sent_to a ops)"
    using inward.run_subseq [OF assms(1), of a] assms(2-4) by (simp add: net_start_def)
  moreover have "subseq (for_agent a (run_out r) @ map pd_msg (nw_outbound (run_net r) ! a)) (sent_from a ops)"
    using outward.run_subseq [OF assms(1), of a] assms(2,5,6) by (simp add: net_start_def)
  ultimately show ?thesis by (blast intro: subseq_order.trans list_emb_append2 subseq_order.refl list_emb_prefix)
qed

text \<open>
  C30. Replays are bounded: whatever the replay, drop and capacity settings, a message is delivered
  to an agent at most twice as often as it was sent to it, and nothing is delivered that was not
  sent; the same holds for the messages from the agent.
\<close>

theorem network_at_most_twice:
  assumes "fold_res net_step ops (net_start nw) = Inr r"
    and "a < length (nw_inbound nw)" and "nw_inbound nw ! a = []"
    and "a < length (nw_outbound nw)" and "nw_outbound nw ! a = []"
  shows "count_list (for_agent a (run_in r)) c \<le> 2 * count_list (sent_to a ops) c
    \<and> count_list (for_agent a (run_out r)) w \<le> 2 * count_list (sent_from a ops) w"
  using inward.run_owed [OF assms(1), of a c] outward.run_owed [OF assms(1), of a w] assms(2-)
  by (auto simp: net_start_def)

text \<open>
  C16. A lost session is final: from any state, once the queues of an agent are discarded nothing
  sent to it or by it before is delivered, however long the run goes on.
\<close>

theorem session_isolation:
  assumes "fold_res net_step (DiscardOp a # ops) r = Inr r'"
  shows "\<exists>din dout. run_in r' = run_in r @ din \<and> run_out r' = run_out r @ dout
    \<and> set (for_agent a din) \<subseteq> set (sent_to a ops) \<and> set (for_agent a dout) \<subseteq> set (sent_from a ops)"
proof -
  from assms obtain r1 where r1: "net_step (DiscardOp a) r = Inr r1" "fold_res net_step ops r1 = Inr r'"
    by (auto simp: and_then_Inr)
  then have q: "nw_inbound (run_net r1) ! a = []" "nw_outbound (run_net r1) ! a = []"
      "a < length (nw_inbound (run_net r1))" "a < length (nw_outbound (run_net r1))"
      "run_in r1 = run_in r" "run_out r1 = run_out r"
    by (auto simp: with_net_def and_then_Inr dest!: discard_effect)
  obtain din where din: "run_in r' = run_in r1 @ din"
    using inward.run_owed [OF r1(2) q(3)] by blast
  obtain dout where dout: "run_out r' = run_out r1 @ dout"
    using outward.run_owed [OF r1(2) q(4)] by blast
  have "count_list (for_agent a din) m \<le> 2 * count_list (sent_to a ops) m" for m
    using inward.run_owed [OF r1(2) q(3), of m] q din by auto
  moreover have "count_list (for_agent a dout) m \<le> 2 * count_list (sent_from a ops) m" for m
    using outward.run_owed [OF r1(2) q(4), of m] q dout by auto
  ultimately show ?thesis
    using q(5,6) din dout count_list_0_iff by (metis (no_types, lifting) le_zero_eq mult_0_right subsetI)
qed

text \<open>
  The network never panics on its own: with a sane delay range, every operation on an agent of
  the network succeeds, as long as the worker's responses carry a status the codec accepts and the
  session counter is not exhausted. It keeps every queue within its capacity and all its entries
  in the current session.
\<close>

theorem network_total:
  assumes "net_wf n (run_net r)" and "op_ok n (run_net r) op"
  shows "\<exists>r'. net_step op r = Inr r' \<and> net_wf n (run_net r')"
  using net_step_total [OF assms] net_step_wf [OF _ assms(1)] by blast

text \<open>
  The simulated network carries what the wire carries: it accepts every worker message, counts
  the number of bytes the frame codec writes, and hands over a message with the same wire image, an
  oversized response being replaced by the same error response.
\<close>

theorem network_msg_wire:
  assumes "worker_message_ok m"
  shows "encoded_len m = Inr (length (wire_worker_message m))
    \<and> wire_worker_message (network_msg m) = wire_worker_message m
    \<and> worker_message_ok (network_msg m) \<and> network_msg (network_msg m) = network_msg m"
  using assms
  by (cases m) (auto simp: encoded_len_eq network_msg_def wire_worker_message_def worker_message_ok_def
      wire_consts RUN_STATUS_RESPONSE_TOO_LARGE_def)

section \<open>Concrete runs\<close>

definition demo_net :: network where
  "demo_net = (network_new 1 0)\<lparr>nw_replay_rate := \<lparr>numerator = 1, denominator = 1\<rparr>, nw_max_delay := 1\<rparr>"

definition demo_probe :: control_message where
  "demo_probe = ProbePod \<lparr>prb_pod_id = 3\<rparr>"

definition demo_ops :: "net_op list" where
  "demo_ops = [SendTo 0 demo_probe 0, PopIn 0 0, PopIn 0 1, PopIn 0 1, PopIn 0 2, PopIn 0 9]"

lemmas net_eval = net_start_def network_new_def with_net_def send_to_agent_def
  chance_ratio_def ratio_zero_def prng_init_def draw_delay_def bounded_def prng_next_def Let_def
  queue_capacity_def QUEUE_CAPACITY_def pop_inbound_def pop_queue_def delivered_def

lemma demo_run:
  "\<exists>nw. fold_res net_step demo_ops (net_start demo_net)
     = Inr \<lparr>run_in = [(0, demo_probe), (0, demo_probe)], run_out = [], run_net = nw\<rparr>"
  by (simp add: demo_ops_def demo_net_def net_eval)

theorem network_at_most_twice_witness:
  "\<exists>r. fold_res net_step demo_ops (net_start demo_net) = Inr r
     \<and> count_list (for_agent 0 (run_in r)) demo_probe = 2
     \<and> count_list (for_agent 0 (run_in r)) demo_probe \<le> 2 * count_list (sent_to 0 demo_ops) demo_probe"
proof -
  obtain nw where r: "fold_res net_step demo_ops (net_start demo_net)
     = Inr \<lparr>run_in = [(0, demo_probe), (0, demo_probe)], run_out = [], run_net = nw\<rparr>"
    using demo_run by blast
  from network_at_most_twice [OF this, of 0 demo_probe] r show ?thesis
    by (simp add: demo_net_def network_new_def for_agent_def)
qed

definition demo_ops2 :: "net_op list" where
  "demo_ops2 = [SendTo 0 demo_probe 0, SendTo 0 (StopPod \<lparr>stp_pod_id = 3, stp_grace_period_ms = 0\<rparr>) 0, PopIn 0 9]"

lemma demo_run2:
  "\<exists>nw. fold_res net_step demo_ops2 (net_start (network_new 1 0))
     = Inr \<lparr>run_in = [(0, demo_probe)], run_out = [], run_net = nw\<rparr>"
  by (simp add: demo_ops2_def net_eval)

theorem network_fifo_witness:
  "\<exists>r. fold_res net_step demo_ops2 (net_start (network_new 1 0)) = Inr r
     \<and> for_agent 0 (run_in r) = [demo_probe] \<and> subseq (for_agent 0 (run_in r)) (sent_to 0 demo_ops2)"
proof -
  obtain nw where r: "fold_res net_step demo_ops2 (net_start (network_new 1 0))
     = Inr \<lparr>run_in = [(0, demo_probe)], run_out = [], run_net = nw\<rparr>"
    using demo_run2 by blast
  from network_fifo [OF this, of 0] r show ?thesis
    by (simp add: network_new_def for_agent_def)
qed

theorem session_isolation_witness:
  "\<exists>r'. fold_res net_step [DiscardOp 0, PopIn 0 9] (net_start (demo_net\<lparr>nw_inbound :=
          [[\<lparr>pd_msg = demo_probe, pd_deliver_at_tick = 1, pd_epoch = 0, pd_replayed = False\<rparr>]]\<rparr>)) = Inr r'
     \<and> for_agent 0 (run_in r') = []"
proof -
  let ?r = "net_start (demo_net\<lparr>nw_inbound :=
          [[\<lparr>pd_msg = demo_probe, pd_deliver_at_tick = 1, pd_epoch = 0, pd_replayed = False\<rparr>]]\<rparr>)"
  obtain r' where r': "fold_res net_step [DiscardOp 0, PopIn 0 9] ?r = Inr r'"
    by (simp add: demo_net_def net_eval discard_session_queues_def checked_add_def)
  from session_isolation [OF this] obtain din where "run_in r' = run_in ?r @ din" "set (for_agent 0 din) \<subseteq> {}"
    by auto
  then have "for_agent 0 (run_in r') = []" by (simp add: net_start_def)
  with r' show ?thesis by blast
qed

theorem network_total_witness:
  "\<exists>r'. net_step (SendTo 0 demo_probe 4) (net_start (network_new 1 0)) = Inr r' \<and> net_wf 1 (run_net r')"
  by (rule network_total) (simp_all add: net_start_def network_new_wf)

theorem network_msg_wire_witness:
  "encoded_len (RunResponse \<lparr>rsp_request_id = 1, rsp_status = 0, rsp_payload = replicate 16376 7\<rparr>) = Inr 9"
  using network_msg_wire [of "RunResponse \<lparr>rsp_request_id = 1, rsp_status = 0, rsp_payload = replicate 16376 7\<rparr>"]
  by (simp add: worker_message_ok_def wire_worker_message_def wire_consts)

end
