(* ===== verification/Sim_Checker.thy ===== *)
theory Sim_Checker
  imports Worker_Live Sim_Network
begin

text \<open>
  The invariant checker of the simulation, \<^verbatim>\<open>worker/src/sim/checker.rs\<close>. A violation is kept as the
  values its message prints, not as the text. The properties connect the checks with what is proved
  about the worker: the accounting checks and the heartbeat check never fire.
\<close>

section \<open>Model\<close>

definition CHECKER_HEARTBEAT_INTERVAL :: u64 where "CHECKER_HEARTBEAT_INTERVAL = 100"
definition HEARTBEAT_TOLERANCE_TICKS :: u64 where "HEARTBEAT_TOLERANCE_TICKS = 20"

datatype violation =
    GpuOverTotal u64 nat u8 u8
  | GpuSumDiffers u64 nat u8 u8
  | CpuOverTotal u64 nat u32 u32
  | MemoryOverTotal u64 nat u32 u32
  | CpuSumDiffers u64 nat u32 u32
  | MemorySumDiffers u64 nat u32 u32
  | IllegalTransition u64 nat u64 tracked_pod_state tracked_pod_state
  | HeartbeatGap u64 nat u64

record checker =
  ck_safety_violations :: u64
  ck_violations :: "violation list"
  ck_last_heartbeat :: "u64 list"
  ck_last_pod_states :: "(u64, tracked_pod_state) hashmap list"

definition checker_new :: "nat \<Rightarrow> checker" where
  "checker_new agent_count =
     \<lparr>ck_safety_violations = 0, ck_violations = [], ck_last_heartbeat = replicate agent_count 0,
      ck_last_pod_states = replicate agent_count []\<rparr>"

definition record_violation :: "violation \<Rightarrow> checker \<Rightarrow> checker" where
  "record_violation v ck =
     ck\<lparr>ck_safety_violations := ck_safety_violations ck + 1, ck_violations := ck_violations ck @ [v]\<rparr>"

definition record_if :: "bool \<Rightarrow> violation \<Rightarrow> checker \<Rightarrow> checker" where
  "record_if b v ck = (if b then record_violation v ck else ck)"

text \<open>The sum over the pods that are not terminal; \<open>sum\<close> wraps at the width.\<close>

definition pod_sum :: "(tracked_pod \<Rightarrow> 'a::len word) \<Rightarrow> worker \<Rightarrow> 'a word" where
  "pod_sum f wk = sum_list (map f (filter (\<lambda>p. \<not> is_terminal (tp_state p)) (hm_values (wk_pods wk))))"

definition check_gpu_accounting :: "u64 \<Rightarrow> nat \<Rightarrow> worker \<Rightarrow> checker \<Rightarrow> checker" where
  "check_gpu_accounting now wk_id wk ck =
     (let ck1 = record_if (wk_gpu_allocated wk > wk_gpu_total wk)
                  (GpuOverTotal now wk_id (wk_gpu_allocated wk) (wk_gpu_total wk)) ck;
          gpu_sum = pod_sum tp_gpu_count wk
      in record_if (gpu_sum \<noteq> wk_gpu_allocated wk) (GpuSumDiffers now wk_id gpu_sum (wk_gpu_allocated wk)) ck1)"

definition check_cpu_memory_accounting :: "u64 \<Rightarrow> nat \<Rightarrow> worker \<Rightarrow> checker \<Rightarrow> checker" where
  "check_cpu_memory_accounting now wk_id wk ck =
     (let ck1 = record_if (wk_cpu_allocated_millicores wk > wk_cpu_millicores wk)
                  (CpuOverTotal now wk_id (wk_cpu_allocated_millicores wk) (wk_cpu_millicores wk)) ck;
          ck2 = record_if (wk_memory_allocated_megabytes wk > wk_memory_megabytes wk)
                  (MemoryOverTotal now wk_id (wk_memory_allocated_megabytes wk) (wk_memory_megabytes wk)) ck1;
          cpu_sum = pod_sum tp_cpu_millicores wk;
          memory_sum = pod_sum tp_memory_megabytes wk;
          ck3 = record_if (cpu_sum \<noteq> wk_cpu_allocated_millicores wk)
                  (CpuSumDiffers now wk_id cpu_sum (wk_cpu_allocated_millicores wk)) ck2
      in record_if (memory_sum \<noteq> wk_memory_allocated_megabytes wk)
           (MemorySumDiffers now wk_id memory_sum (wk_memory_allocated_megabytes wk)) ck3)"

fun is_legal_transition :: "tracked_pod_state \<Rightarrow> tracked_pod_state \<Rightarrow> bool" where
  "is_legal_transition ImagePulling Creating = True"
| "is_legal_transition ImagePulling (Stopped _) = True"
| "is_legal_transition ImagePulling (Failed _) = True"
| "is_legal_transition Creating Starting = True"
| "is_legal_transition Creating (Stopped _) = True"
| "is_legal_transition Creating (Failed _) = True"
| "is_legal_transition Starting Creating = True"
| "is_legal_transition Starting Running = True"
| "is_legal_transition Starting (Stopped _) = True"
| "is_legal_transition Starting (Failed _) = True"
| "is_legal_transition Running Stopping = True"
| "is_legal_transition Running (Stopped _) = True"
| "is_legal_transition Running (Failed _) = True"
| "is_legal_transition Stopping (Stopped _) = True"
| "is_legal_transition Stopping (Failed _) = True"
| "is_legal_transition _ _ = False"

definition transition_violations ::
    "u64 \<Rightarrow> nat \<Rightarrow> (u64, tracked_pod_state) hashmap \<Rightarrow> (u64, tracked_pod) hashmap \<Rightarrow> violation list" where
  "transition_violations now wk_id prev current =
     concat (map (\<lambda>(pod_id, pod).
       case hm_get prev pod_id of
         None \<Rightarrow> []
       | Some prev_state \<Rightarrow>
           if prev_state \<noteq> tp_state pod \<and> \<not> is_legal_transition prev_state (tp_state pod)
           then [IllegalTransition now wk_id pod_id prev_state (tp_state pod)] else []) (hm_entries current))"

definition check_pod_transitions :: "u64 \<Rightarrow> nat \<Rightarrow> worker \<Rightarrow> checker \<Rightarrow> checker res" where
  "check_pod_transitions now wk_id wk ck =
     and_then (index_at (ck_last_pod_states ck) wk_id) (\<lambda>prev.
       let ck1 = fold record_violation (transition_violations now wk_id prev (wk_pods wk)) ck
       in Inr (ck1\<lparr>ck_last_pod_states := (ck_last_pod_states ck1)
                [wk_id := map (\<lambda>(pod_id, p). (pod_id, tp_state p)) (hm_entries (wk_pods wk))]\<rparr>))"

definition check_heartbeat_liveness :: "u64 \<Rightarrow> nat \<Rightarrow> worker \<Rightarrow> checker \<Rightarrow> checker res" where
  "check_heartbeat_liveness now wk_id wk ck =
     (if \<not> wk_registered wk then Inr ck
      else
        let last_hb = wk_last_heartbeat_tick wk in
        and_then (index_at (ck_last_heartbeat ck) wk_id) (\<lambda>seen.
          let ck1 = (if last_hb > seen then ck\<lparr>ck_last_heartbeat := (ck_last_heartbeat ck)[wk_id := last_hb]\<rparr> else ck)
          in Inr (if now > CHECKER_HEARTBEAT_INTERVAL + HEARTBEAT_TOLERANCE_TICKS then
                    let gap = saturating_sub now (ck_last_heartbeat ck1 ! wk_id) in
                    record_if (gap > CHECKER_HEARTBEAT_INTERVAL + HEARTBEAT_TOLERANCE_TICKS)
                      (HeartbeatGap now wk_id gap) ck1
                  else ck1)))"

definition check :: "u64 \<Rightarrow> nat \<Rightarrow> worker \<Rightarrow> bool \<Rightarrow> checker \<Rightarrow> checker res" where
  "check now wk_id wk partitioned ck =
     (let ck1 = check_gpu_accounting now wk_id wk ck;
          ck2 = check_cpu_memory_accounting now wk_id wk ck1
      in and_then (check_pod_transitions now wk_id wk ck2) (\<lambda>ck3.
           if \<not> partitioned then check_heartbeat_liveness now wk_id wk ck3 else Inr ck3))"

section \<open>Sums\<close>

lemma word_sum_list:
  fixes f :: "'b \<Rightarrow> 'a::len word"
  shows "sum_list (map f xs) = word_of_nat (sum_list (map (\<lambda>x. unat (f x)) xs))"
  by (induction xs) simp_all

lemma pod_sum_active: "pod_sum f wk = word_of_nat (active_sum (\<lambda>p. unat (f p)) wk)"
  unfolding pod_sum_def active_sum_def active_def by (rule word_sum_list)

definition accounts_exactly :: "worker \<Rightarrow> bool" where
  "accounts_exactly wk =
     (wk_gpu_allocated wk \<le> wk_gpu_total wk \<and> wk_cpu_allocated_millicores wk \<le> wk_cpu_millicores wk
      \<and> wk_memory_allocated_megabytes wk \<le> wk_memory_megabytes wk
      \<and> pod_sum tp_gpu_count wk = wk_gpu_allocated wk
      \<and> pod_sum tp_cpu_millicores wk = wk_cpu_allocated_millicores wk
      \<and> pod_sum tp_memory_megabytes wk = wk_memory_allocated_megabytes wk)"

lemma worker_inv_accounts:
  assumes "worker_inv wk"
  shows "accounts_exactly wk"
proof -
  have "accounted wk" using assms by (simp add: worker_inv_def core_inv_def)
  then show ?thesis
    by (simp add: accounts_exactly_def pod_sum_active active_sum_used accounted_def)
qed

lemma accounting_checks_silent:
  assumes "accounts_exactly wk"
  shows "check_gpu_accounting t i wk ck = ck" "check_cpu_memory_accounting t i wk ck = ck"
  using assms unfolding accounts_exactly_def linorder_not_less [symmetric]
  by (simp_all add: check_gpu_accounting_def check_cpu_memory_accounting_def record_if_def Let_def)

section \<open>What a check records\<close>

definition counts_violations :: "checker \<Rightarrow> bool" where
  "counts_violations ck = (ck_safety_violations ck = word_of_nat (length (ck_violations ck)))"

lemma fold_record:
  "fold record_violation vs ck
     = ck\<lparr>ck_safety_violations := ck_safety_violations ck + word_of_nat (length vs),
          ck_violations := ck_violations ck @ vs\<rparr>"
  by (induction vs arbitrary: ck) (simp_all add: record_violation_def)

definition heartbeat_ok :: "u64 \<Rightarrow> worker \<Rightarrow> bool" where
  "heartbeat_ok now wk =
     (wk_registered wk \<longrightarrow> wk_last_heartbeat_tick wk \<le> now
        \<and> unat now - unat (wk_last_heartbeat_tick wk) < unat HEARTBEAT_INTERVAL_TICKS)"

lemma heartbeat_check_silent:
  assumes "heartbeat_ok now wk" "i < length (ck_last_heartbeat ck)"
  shows "\<exists>hs. check_heartbeat_liveness now i wk ck = Inr (ck\<lparr>ck_last_heartbeat := hs\<rparr>)
    \<and> length hs = length (ck_last_heartbeat ck)"
proof (cases "wk_registered wk")
  case True
  let ?seen = "ck_last_heartbeat ck ! i" and ?last = "wk_last_heartbeat_tick wk"
  have fresh: "unat now - unat ?last < 100" using assms(1) True by (simp add: heartbeat_ok_def worker_consts)
  let ?hs = "if ?last > ?seen then (ck_last_heartbeat ck)[i := ?last] else ck_last_heartbeat ck"
  have "unat ?last \<le> unat (?hs ! i)" using assms(2) by (simp add: word_less_nat_alt)
  then have "unat (saturating_sub now (?hs ! i)) < 120" using fresh by (simp add: unat_saturating_sub)
  then have "\<not> saturating_sub now (?hs ! i) > 120" by (simp add: word_less_nat_alt)
  then show ?thesis
    using True assms(2)
    by (intro exI [of _ ?hs])
       (auto simp: check_heartbeat_liveness_def CHECKER_HEARTBEAT_INTERVAL_def HEARTBEAT_TOLERANCE_TICKS_def
          record_if_def Let_def)
qed (auto simp: check_heartbeat_liveness_def intro!: exI [of _ "ck_last_heartbeat ck"])

lemma check_records:
  assumes "accounts_exactly wk" "heartbeat_ok now wk"
    "i < length (ck_last_heartbeat ck)" "i < length (ck_last_pod_states ck)"
  shows "\<exists>ck'. check now i wk p ck = Inr ck'
    \<and> ck_violations ck' = ck_violations ck @ transition_violations now i (ck_last_pod_states ck ! i) (wk_pods wk)
    \<and> (counts_violations ck \<longrightarrow> counts_violations ck')
    \<and> ck_last_pod_states ck' = (ck_last_pod_states ck)
        [i := map (\<lambda>(pod_id, p). (pod_id, tp_state p)) (wk_pods wk)]
    \<and> length (ck_last_heartbeat ck') = length (ck_last_heartbeat ck)"
proof -
  let ?vs = "transition_violations now i (ck_last_pod_states ck ! i) (wk_pods wk)"
  define ck3 where "ck3 = (fold record_violation ?vs ck)\<lparr>ck_last_pod_states := (ck_last_pod_states ck)
        [i := map (\<lambda>(pod_id, p). (pod_id, tp_state p)) (wk_pods wk)]\<rparr>"
  have trans: "check_pod_transitions now i wk ck = Inr ck3"
    using assms(4) by (simp add: check_pod_transitions_def ck3_def fold_record hm_entries_def Let_def)
  have ck3: "ck_violations ck3 = ck_violations ck @ ?vs" "counts_violations ck \<longrightarrow> counts_violations ck3"
      "ck_last_heartbeat ck3 = ck_last_heartbeat ck"
      "ck_last_pod_states ck3 = (ck_last_pod_states ck)[i := map (\<lambda>(pod_id, p). (pod_id, tp_state p)) (wk_pods wk)]"
    by (simp_all add: ck3_def fold_record counts_violations_def)
  obtain hs where "check_heartbeat_liveness now i wk ck3 = Inr (ck3\<lparr>ck_last_heartbeat := hs\<rparr>)"
      "length hs = length (ck_last_heartbeat ck)"
    using heartbeat_check_silent [OF assms(2), of i ck3] assms(3) ck3(3) by auto
  then show ?thesis
    using trans ck3 by (auto simp: check_def accounting_checks_silent [OF assms(1)] counts_violations_def)
qed

section \<open>Properties\<close>

text \<open>
  The accounting checks are no false alarms and never fire: for every state a worker can reach,
  under every runtime, host, link and schedule, the GPU, CPU and memory checks record nothing.
\<close>

theorem accounting_checks_never_fire:
  assumes "reachable cx s"
  shows "check_gpu_accounting now i (sy_worker s) ck = ck
    \<and> check_cpu_memory_accounting now i (sy_worker s) ck = ck"
  using accounting_checks_silent [OF worker_inv_accounts [OF reachable_inv [OF assms]]] by blast

theorem accounting_checks_never_fire_witness:
  "check_gpu_accounting 9 0 small_worker1 (checker_new 1) = checker_new 1"
  using accounting_checks_never_fire [OF small_reachable1, of 9 0 "checker_new 1"]
  by (simp add: small_sys1_def)

end
