(* ===== verification/Sim_Control_Plane.thy ===== *)
theory Sim_Control_Plane
  imports Hive_Prng Hive_Messages Rust_Text
begin

text \<open>
  The control plane stub of the simulation, \<^verbatim>\<open>worker/src/sim/control_plane.rs\<close>: a bounded schedule
  of commands with a cursor, the bounded log of received messages, and the starts it expects to
  hear of. \<open>usize\<close> is 64 bits wide.
\<close>

section \<open>Model\<close>

definition SCHEDULE_CAPACITY :: nat where "SCHEDULE_CAPACITY = 4096"
definition RECEIVED_CAPACITY :: nat where "RECEIVED_CAPACITY = 16384"

type_synonym scheduled = "u64 \<times> nat \<times> control_message"

record control_plane =
  cp_prng :: prng
  cp_scheduled :: "scheduled list"
  cp_schedule_index :: nat
  cp_received :: "(u64 \<times> nat \<times> worker_message) list"
  cp_expected_starts :: "(nat \<times> u64) list"
  cp_next_pod_id :: u64

definition control_plane_new :: "u64 \<Rightarrow> control_plane" where
  "control_plane_new seed =
     \<lparr>cp_prng = prng_init (seed + 0xF00D), cp_scheduled = [], cp_schedule_index = 0, cp_received = [],
      cp_expected_starts = [], cp_next_pod_id = 1\<rparr>"

definition schedule_command :: "u64 \<Rightarrow> nat \<Rightarrow> control_message \<Rightarrow> control_plane \<Rightarrow> control_plane res" where
  "schedule_command tick_no agent_id command cp =
     and_then (ensure (length (cp_scheduled cp) < SCHEDULE_CAPACITY)
                ''assertion failed: self.scheduled.len() < SCHEDULE_CAPACITY'') (\<lambda>_.
     and_then (ensure (cp_schedule_index cp = 0) ''commands must be scheduled before simulation starts'') (\<lambda>_.
     and_then (case command of
                 StartPod start \<Rightarrow>
                   and_then (ensure (length (cp_expected_starts cp) < SCHEDULE_CAPACITY div 2)
                     ''assertion failed: self.expected_starts.len() < SCHEDULE_CAPACITY / 2'') (\<lambda>_.
                     Inr (cp\<lparr>cp_expected_starts := cp_expected_starts cp @ [(agent_id, sp_pod_id start)]\<rparr>))
               | _ \<Rightarrow> Inr cp) (\<lambda>cp1.
       Inr (cp1\<lparr>cp_scheduled := sort_key fst (cp_scheduled cp1 @ [(tick_no, agent_id, command)])\<rparr>))))"

definition workload_start :: "u64 \<Rightarrow> u8 \<Rightarrow> start_pod_cmd" where
  "workload_start pod_id gpu_count =
     \<lparr>sp_pod_id = pod_id, sp_deployment_id = pod_id * 100, sp_image = ''sim-image:'' @ dec (unat pod_id),
      sp_entrypoint = [], sp_port = 8080, sp_gpu_count = gpu_count, sp_gpu_type = H100Sxm,
      sp_cpu_millicores = 2000, sp_memory_megabytes = 4096, sp_juicefs_path = [], sp_liveness_path = [],
      sp_readiness_path = [], sp_env_vars = [], sp_image_pull_registry = [], sp_image_pull_username = [],
      sp_image_pull_password = [], sp_image_pull_password_is_secret = False\<rparr>"

text \<open>One round of the workload loop.\<close>

definition generate_pod :: "nat \<Rightarrow> u64 \<Rightarrow> control_plane \<Rightarrow> control_plane res" where
  "generate_pod agent_count over_ticks cp =
     and_then (bounded (cp_prng cp) (word_of_nat agent_count)) (\<lambda>(agent, p1).
     and_then (bounded p1 (over_ticks div 2)) (\<lambda>(start_tick, p2).
       let agent_id = unat agent; pod_id = cp_next_pod_id cp in
     and_then (bounded p2 3) (\<lambda>(gpus, p3).
       let start = (start_tick, agent_id, StartPod (workload_start pod_id (ucast (gpus + 1)))) in
     and_then (chance p3 60) (\<lambda>(stops, p4).
       if stops then
         and_then (bounded p4 200) (\<lambda>(d, p5).
           Inr (cp\<lparr>cp_prng := p5, cp_next_pod_id := pod_id + 1,
                   cp_expected_starts := cp_expected_starts cp @ [(agent_id, pod_id)],
                   cp_scheduled := cp_scheduled cp @ [start,
                     (start_tick + 50 + d, agent_id, StopPod \<lparr>stp_pod_id = pod_id, stp_grace_period_ms = 5000\<rparr>)]\<rparr>))
       else
         Inr (cp\<lparr>cp_prng := p4, cp_next_pod_id := pod_id + 1,
                 cp_expected_starts := cp_expected_starts cp @ [(agent_id, pod_id)],
                 cp_scheduled := cp_scheduled cp @ [start]\<rparr>)))))"

primrec generate_pods :: "nat \<Rightarrow> nat \<Rightarrow> u64 \<Rightarrow> control_plane \<Rightarrow> control_plane res" where
  "generate_pods 0 agent_count over_ticks cp = Inr cp"
| "generate_pods (Suc n) agent_count over_ticks cp =
     and_then (generate_pod agent_count over_ticks cp) (generate_pods n agent_count over_ticks)"

definition generate_workload :: "nat \<Rightarrow> u32 \<Rightarrow> u64 \<Rightarrow> control_plane \<Rightarrow> control_plane res" where
  "generate_workload agent_count pod_count over_ticks cp =
     and_then (ensure (agent_count > 0) ''assertion failed: agent_count > 0'') (\<lambda>_.
     and_then (ensure (over_ticks \<ge> 2) ''assertion failed: over_ticks >= 2'') (\<lambda>_.
     and_then (ensure (length (cp_scheduled cp) \<le> SCHEDULE_CAPACITY)
                ''assertion failed: self.scheduled.len() <= SCHEDULE_CAPACITY'') (\<lambda>_.
     and_then (ensure (length (cp_expected_starts cp) \<le> SCHEDULE_CAPACITY div 2)
                ''assertion failed: self.expected_starts.len() <= SCHEDULE_CAPACITY / 2'') (\<lambda>_.
     and_then (ensure (min (unat pod_count * 2) (2 ^ 64 - 1) \<le> SCHEDULE_CAPACITY - length (cp_scheduled cp))
                ''assertion failed: pod_count * 2 <= SCHEDULE_CAPACITY - self.scheduled.len()'') (\<lambda>_.
     and_then (ensure (unat pod_count \<le> SCHEDULE_CAPACITY div 2 - length (cp_expected_starts cp))
                ''assertion failed: pod_count <= SCHEDULE_CAPACITY / 2 - self.expected_starts.len()'') (\<lambda>_.
     and_then (generate_pods (unat pod_count) agent_count over_ticks cp) (\<lambda>cp1.
       Inr (cp1\<lparr>cp_scheduled := sort_key fst (cp_scheduled cp1)\<rparr>))))))))"

text \<open>The loop over the schedule: the entries from the cursor on that are due.\<close>

definition commands_for_tick :: "u64 \<Rightarrow> control_plane \<Rightarrow> (nat \<times> control_message) list \<times> control_plane" where
  "commands_for_tick tick_no cp =
     (let due = takeWhile (\<lambda>s. fst s \<le> tick_no) (drop (cp_schedule_index cp) (cp_scheduled cp))
      in (map snd due, cp\<lparr>cp_schedule_index := cp_schedule_index cp + length due\<rparr>))"

definition on_agent_message :: "u64 \<Rightarrow> nat \<Rightarrow> worker_message \<Rightarrow> control_plane \<Rightarrow> control_plane res" where
  "on_agent_message tick_no agent_id msg cp =
     and_then (ensure (length (cp_received cp) < RECEIVED_CAPACITY)
                ''assertion failed: self.received.len() < RECEIVED_CAPACITY'') (\<lambda>_.
       Inr (cp\<lparr>cp_received := cp_received cp @ [(tick_no, agent_id, msg)]\<rparr>))"

definition resolving :: "u64 \<Rightarrow> worker_message \<Rightarrow> bool" where
  "resolving pod_id message =
     (case message of
        PodStatusEvent event \<Rightarrow>
          ev_pod_id event = pod_id
            \<and> (case ev_status event of ReportRunning \<Rightarrow> True | ReportStopped _ \<Rightarrow> True | ReportFailed _ \<Rightarrow> True
               | _ \<Rightarrow> False)
      | _ \<Rightarrow> False)"

definition start_resolved :: "control_plane \<Rightarrow> nat \<times> u64 \<Rightarrow> bool" where
  "start_resolved cp e = list_ex (\<lambda>(_, agent, message). agent = fst e \<and> resolving (snd e) message) (cp_received cp)"

definition is_start :: "nat \<Rightarrow> u64 \<Rightarrow> scheduled \<Rightarrow> bool" where
  "is_start agent_id pod_id s =
     (case snd (snd s) of StartPod start \<Rightarrow> fst (snd s) = agent_id \<and> sp_pod_id start = pod_id | _ \<Rightarrow> False)"

definition recovery_of :: "control_plane \<Rightarrow> nat \<times> u64 \<Rightarrow> (nat \<times> control_message) list res" where
  "recovery_of cp e =
     and_then (expect (List.find (is_start (fst e) (snd e)) (cp_scheduled cp))
                ''expected start command must remain in the bounded schedule'') (\<lambda>s.
       Inr [(fst e, snd (snd s)), (fst e, ProbePod \<lparr>prb_pod_id = snd e\<rparr>)])"

definition unresolved_start_recovery_commands :: "control_plane \<Rightarrow> (nat \<times> control_message) list res" where
  "unresolved_start_recovery_commands cp =
     fold_res (\<lambda>e acc. and_then (recovery_of cp e) (\<lambda>cmds. Inr (acc @ cmds)))
       (filter (\<lambda>e. \<not> start_resolved cp e) (cp_expected_starts cp)) []"

section \<open>The workload\<close>

text \<open>
  What the stub relies on after \<open>k\<close> rounds: the pods are numbered from 1, each expected start has
  its command in the schedule, and every command goes to an agent that exists.
\<close>

definition workload_inv :: "nat \<Rightarrow> nat \<Rightarrow> control_plane \<Rightarrow> bool" where
  "workload_inv n k cp =
     (cp_next_pod_id cp = word_of_nat (k + 1)
      \<and> map snd (cp_expected_starts cp) = map word_of_nat [1..<k + 1]
      \<and> length (cp_scheduled cp) \<le> 2 * k
      \<and> list_all (\<lambda>s. fst (snd s) < n) (cp_scheduled cp)
      \<and> list_all (\<lambda>e. fst e < n \<and> list_ex (is_start (fst e) (snd e)) (cp_scheduled cp)) (cp_expected_starts cp)
      \<and> cp_schedule_index cp = 0 \<and> cp_received cp = [])"

lemma workload_inv_add:
  assumes "workload_inv n k cp" "a < n" "length ss \<le> 2" "list_ex (is_start a (cp_next_pod_id cp)) ss"
    "list_all (\<lambda>s. fst (snd s) < n) ss"
  shows "workload_inv n (Suc k) (cp\<lparr>cp_prng := p, cp_next_pod_id := cp_next_pod_id cp + 1,
      cp_expected_starts := cp_expected_starts cp @ [(a, cp_next_pod_id cp)], cp_scheduled := cp_scheduled cp @ ss\<rparr>)"
  using assms by (auto simp: workload_inv_def list_all_iff list_ex_iff)

lemma chance_total: "\<exists>c p'. chance p x = Inr (c, p')"
  using bounded_total [of 100 p] by (auto simp: chance_def)

lemma generate_pod_inv:
  assumes "workload_inv n k cp" "0 < n" "n < 2 ^ 64" "2 \<le> over_ticks"
  shows "\<exists>cp'. generate_pod n over_ticks cp = Inr cp' \<and> workload_inv n (Suc k) cp'"
proof -
  have n: "unat (word_of_nat n :: u64) = n" using assms(3) by (simp add: unat_of_nat)
  then have "(word_of_nat n :: u64) > 0" using assms(2) by (simp add: word_less_nat_alt)
  then obtain a p1 where a: "bounded (cp_prng cp) (word_of_nat n) = Inr (a, p1)" using bounded_total by blast
  have an: "unat a < n" using bounded_less [OF a] n by (simp add: word_less_nat_alt)
  have "0 < unat over_ticks div 2" using assms(4) by (simp add: word_le_nat_alt)
  then have "over_ticks div 2 > 0" by (simp add: word_less_nat_alt unat_div)
  then obtain t p2 where t: "bounded p1 (over_ticks div 2) = Inr (t, p2)" using bounded_total by blast
  obtain g p3 where g: "bounded p2 3 = Inr (g, p3)" using bounded_total [of 3 p2] by auto
  obtain c p4 where c: "chance p3 60 = Inr (c, p4)" using chance_total by blast
  obtain d p5 where d: "bounded p4 200 = Inr (d, p5)" using bounded_total [of 200 p4] by auto
  show ?thesis
    using workload_inv_add [OF assms(1) an] an
    by (auto simp: generate_pod_def a t g c d Let_def is_start_def workload_start_def)
qed

lemma generate_pods_inv:
  assumes "workload_inv n k cp" "0 < n" "n < 2 ^ 64" "2 \<le> over_ticks"
  shows "\<exists>cp'. generate_pods m n over_ticks cp = Inr cp' \<and> workload_inv n (k + m) cp'"
  using assms(1)
proof (induction m arbitrary: k cp)
  case (Suc m)
  from generate_pod_inv [OF Suc.prems assms(2-)] obtain cp1 where
    "generate_pod n over_ticks cp = Inr cp1" "workload_inv n (Suc k) cp1" by blast
  with Suc.IH [of "Suc k" cp1] show ?case by simp
qed simp

lemma workload_inv_sort: "workload_inv n k cp \<Longrightarrow> workload_inv n k (cp\<lparr>cp_scheduled := sort_key fst (cp_scheduled cp)\<rparr>)"
  by (simp add: workload_inv_def list_all_iff list_ex_iff)

lemma workload_generated:
  assumes "0 < n" and "n < 2 ^ 64" and "2 \<le> over_ticks" and "unat pod_count \<le> 2048"
  shows "\<exists>cp. generate_workload n pod_count over_ticks (control_plane_new seed) = Inr cp
    \<and> workload_inv n (unat pod_count) cp \<and> sorted (map fst (cp_scheduled cp))
    \<and> length (cp_scheduled cp) \<le> SCHEDULE_CAPACITY"
proof -
  have "workload_inv n 0 (control_plane_new seed)" by (simp add: workload_inv_def control_plane_new_def)
  from generate_pods_inv [OF this assms(1-3), of "unat pod_count"] obtain cp where
    "generate_pods (unat pod_count) n over_ticks (control_plane_new seed) = Inr cp" "workload_inv n (unat pod_count) cp"
    by auto
  moreover from this workload_inv_sort have "workload_inv n (unat pod_count) (cp\<lparr>cp_scheduled := sort_key fst (cp_scheduled cp)\<rparr>)"
    by blast
  moreover have "length (cp_scheduled cp) \<le> SCHEDULE_CAPACITY"
    using calculation(2) assms(4) by (simp add: workload_inv_def SCHEDULE_CAPACITY_def)
  ultimately show ?thesis
    using assms
    by (simp add: generate_workload_def control_plane_new_def SCHEDULE_CAPACITY_def)
qed

text \<open>
  C36. The generated workload is well formed: for up to 2048 pods on at least one agent and over at
  least two ticks, generation succeeds within the schedule's capacity; the schedule is sorted by
  tick; the pods are numbered 1 to the count, each once; each has its start command in the
  schedule, for the agent it is expected on; and all commands go to agents that exist.
\<close>

theorem workload_well_formed:
  assumes "0 < n" and "n < 2 ^ 64" and "2 \<le> over_ticks" and "unat pod_count \<le> 2048"
  shows "\<exists>cp. generate_workload n pod_count over_ticks (control_plane_new seed) = Inr cp
    \<and> workload_inv n (unat pod_count) cp \<and> sorted (map fst (cp_scheduled cp))
    \<and> length (cp_scheduled cp) \<le> SCHEDULE_CAPACITY"
  using assms by (rule workload_generated)

theorem workload_well_formed_witness:
  "\<exists>cp. generate_workload 3 20 500 (control_plane_new 42) = Inr cp \<and> workload_inv 3 20 cp"
  using workload_well_formed [of 3 500 20 42] by auto

section \<open>Issuing the schedule\<close>

lemma takeWhile_split:
  fixes t1 t2 :: u64
  assumes "t1 \<le> t2"
  shows "takeWhile (\<lambda>s. fst s \<le> t2) L
     = takeWhile (\<lambda>s. fst s \<le> t1) L @ takeWhile (\<lambda>s. fst s \<le> t2) (dropWhile (\<lambda>s. fst s \<le> t1) L)"
proof (induction L)
  case (Cons s L)
  then show ?case using order_trans [OF _ assms, of "fst s"] by simp
qed simp

lemma commands_step:
  assumes "t1 \<le> t2" "commands_for_tick t1 cp = (c1, cp1)" "commands_for_tick t2 cp1 = (c2, cp2)"
  shows "commands_for_tick t2 cp = (c1 @ c2, cp2)"
proof -
  let ?L = "drop (cp_schedule_index cp) (cp_scheduled cp)"
  let ?A = "takeWhile (\<lambda>s. fst s \<le> t1) ?L"
  have "drop (cp_schedule_index cp + length ?A) (cp_scheduled cp) = dropWhile (\<lambda>s. fst s \<le> t1) ?L"
    by (simp add: dropWhile_eq_drop add.commute)
  with takeWhile_split [OF assms(1), of ?L] show ?thesis
    using assms(2,3) by (auto simp: commands_for_tick_def Let_def)
qed

fun issue :: "u64 list \<Rightarrow> control_plane \<Rightarrow> (nat \<times> control_message) list \<times> control_plane" where
  "issue [] cp = ([], cp)"
| "issue (t # ts) cp =
     (let (c1, cp1) = commands_for_tick t cp; (c2, cp2) = issue ts cp1 in (c1 @ c2, cp2))"

lemma issue_last:
  assumes "sorted ts" "ts \<noteq> []"
  shows "issue ts cp = commands_for_tick (last ts) cp"
  using assms
proof (induction ts arbitrary: cp)
  case (Cons t ts)
  show ?case
  proof (cases "ts = []")
    case False
    obtain c1 cp1 where 1: "commands_for_tick t cp = (c1, cp1)" by fastforce
    obtain c2 cp2 where 2: "commands_for_tick (last ts) cp1 = (c2, cp2)" by fastforce
    have "t \<le> last ts" using Cons.prems(1) False by simp
    from commands_step [OF this 1 2] Cons False 1 2 show ?thesis by simp
  qed simp
qed simp

text \<open>
  Every scheduled command is issued exactly once and on time: over any nondecreasing sequence of
  ticks, the commands handed out are those whose tick has come by the last one, in schedule order.
\<close>

theorem commands_exactly_once:
  assumes "sorted (map fst (cp_scheduled cp))" and "cp_schedule_index cp = 0" and "sorted ts" and "ts \<noteq> []"
  shows "fst (issue ts cp) = map snd (filter (\<lambda>s. fst s \<le> last ts) (cp_scheduled cp))"
proof -
  have "takeWhile (\<lambda>s. fst s \<le> t) L = filter (\<lambda>s. fst s \<le> t) L" if "sorted (map fst L)" for L :: "scheduled list" and t
    using that by (induction L) (auto simp: filter_empty_conv eq_commute [of "[]"] dest: order_trans)
  then show ?thesis
    using assms by (simp add: issue_last commands_for_tick_def Let_def)
qed

definition probe_plan :: control_plane where
  "probe_plan = (control_plane_new 1)\<lparr>cp_scheduled :=
     [(2, 0, ProbePod \<lparr>prb_pod_id = 1\<rparr>), (5, 1, ProbePod \<lparr>prb_pod_id = 2\<rparr>), (9, 0, ProbePod \<lparr>prb_pod_id = 3\<rparr>)]\<rparr>"

theorem commands_exactly_once_witness:
  "fst (issue [1, 4, 4, 7] probe_plan) = [(0, ProbePod \<lparr>prb_pod_id = 1\<rparr>), (1, ProbePod \<lparr>prb_pod_id = 2\<rparr>)]"
  using commands_exactly_once [of probe_plan "[1, 4, 4, 7]"] by (simp add: probe_plan_def control_plane_new_def)

section \<open>Recovery\<close>

lemma recovery_fold:
  assumes "\<And>e. e \<in> set es \<Longrightarrow> list_ex (is_start (fst e) (snd e)) (cp_scheduled cp)"
  shows "\<exists>cmds. fold_res (\<lambda>e acc. and_then (recovery_of cp e) (\<lambda>cmds. Inr (acc @ cmds))) es acc = Inr (acc @ cmds)
    \<and> map fst cmds = concat (map (\<lambda>e. [fst e, fst e]) es)
    \<and> (\<forall>e. (fst e, ProbePod \<lparr>prb_pod_id = snd e\<rparr>) \<in> set cmds \<longleftrightarrow> e \<in> set es)"
  using assms
proof (induction es arbitrary: acc)
  case (Cons e es)
  obtain s where s: "List.find (is_start (fst e) (snd e)) (cp_scheduled cp) = Some s"
    using Cons.prems [of e] by (cases "List.find (is_start (fst e) (snd e)) (cp_scheduled cp)") (auto simp: find_None_iff list_ex_iff)
  then have "is_start (fst e) (snd e) s" by (auto simp: find_Some_iff)
  then have st: "\<exists>c. snd (snd s) = StartPod c" by (cases "snd (snd s)") (auto simp: is_start_def)
  obtain cmds where c: "fold_res (\<lambda>e acc. and_then (recovery_of cp e) (\<lambda>cmds. Inr (acc @ cmds))) es
        (acc @ [(fst e, snd (snd s)), (fst e, ProbePod \<lparr>prb_pod_id = snd e\<rparr>)])
      = Inr ((acc @ [(fst e, snd (snd s)), (fst e, ProbePod \<lparr>prb_pod_id = snd e\<rparr>)]) @ cmds)"
      "map fst cmds = concat (map (\<lambda>e. [fst e, fst e]) es)"
      "\<forall>e. (fst e, ProbePod \<lparr>prb_pod_id = snd e\<rparr>) \<in> set cmds \<longleftrightarrow> e \<in> set es"
    using Cons.IH [of "acc @ [(fst e, snd (snd s)), (fst e, ProbePod \<lparr>prb_pod_id = snd e\<rparr>)]"] Cons.prems by auto
  then show ?case
    using st by (intro exI [of _ "[(fst e, snd (snd s)), (fst e, ProbePod \<lparr>prb_pod_id = snd e\<rparr>)] @ cmds"])
       (auto simp: recovery_of_def s prod_eq_iff)
qed simp

text \<open>
  Recovery asks for exactly the unresolved starts: as long as each expected start keeps its
  command in the schedule, the recovery commands can be computed, and a probe for a pod is among
  them if and only if the pod is expected on that agent and no running, stopped or failed status
  of it has been received from there.
\<close>

theorem recovery_complete:
  assumes "list_all (\<lambda>e. list_ex (is_start (fst e) (snd e)) (cp_scheduled cp)) (cp_expected_starts cp)"
  shows "\<exists>cmds. unresolved_start_recovery_commands cp = Inr cmds
    \<and> (\<forall>agent_id pod_id. (agent_id, ProbePod \<lparr>prb_pod_id = pod_id\<rparr>) \<in> set cmds \<longleftrightarrow>
         (agent_id, pod_id) \<in> set (cp_expected_starts cp) \<and> \<not> start_resolved cp (agent_id, pod_id))"
  using recovery_fold [of "filter (\<lambda>e. \<not> start_resolved cp e) (cp_expected_starts cp)" cp "[]"] assms
  by (fastforce simp: unresolved_start_recovery_commands_def list_all_iff)

theorem recovery_complete_witness:
  "\<exists>cmds. unresolved_start_recovery_commands (probe_plan\<lparr>cp_expected_starts := [(0, 4)],
       cp_scheduled := [(1, 0, StartPod (workload_start 4 2))]\<rparr>) = Inr cmds
     \<and> (0, ProbePod \<lparr>prb_pod_id = 4\<rparr>) \<in> set cmds"
  using recovery_complete [of "probe_plan\<lparr>cp_expected_starts := [(0, 4)],
       cp_scheduled := [(1, 0, StartPod (workload_start 4 2))]\<rparr>"]
  by (auto simp: probe_plan_def control_plane_new_def is_start_def workload_start_def start_resolved_def)

end
