(* ===== verification/Sim_Simulator.thy ===== *)
theory Sim_Simulator
  imports Sim_Io Sim_Runtime Sim_Checker Sim_Control_Plane
begin

text \<open>
  The simulator of \<^verbatim>\<open>worker/src/sim/simulator.rs\<close>: agents, their links and runtimes, the network, the
  control plane stub and the checker, advanced one tick at a time. The host the workers share is
  part of the state and its operating system a parameter; so is the thread schedule of each agent's
  tick. The delivery loops of a tick are recursive functions with a termination proof; a worker
  tick that did not return would make the simulator tick \<open>None\<close>.
\<close>

section \<open>Model\<close>

record 'h simulator =
  sm_current_tick :: u64
  sm_prng :: prng
  sm_workers :: "worker list"
  sm_ios :: "sim_io list"
  sm_runtimes :: "sim_runtime list"
  sm_network :: network
  sm_control_plane :: control_plane
  sm_checker :: checker
  sm_agent_count :: nat
  sm_host :: 'h

definition simulator_new_with ::
    "'h os \<Rightarrow> 'h \<Rightarrow> nat \<Rightarrow> u64 \<Rightarrow> nat \<Rightarrow> 'h simulator" where
  "simulator_new_with os host agent_count seed lifecycle_concurrency =
     \<lparr>sm_current_tick = 0, sm_prng = prng_init (seed + 0xDEAD),
      sm_workers = map (\<lambda>i. new_with_lifecycle_concurrency (secret_resolver_new os host)
                               (''sim-node-'' @ dec i) H100Sxm 8 32000 65536 lifecycle_concurrency) [0..<agent_count],
      sm_ios = map (\<lambda>i. sim_io_new (seed + word_of_nat i)) [0..<agent_count],
      sm_runtimes = map (\<lambda>i. sim_runtime_new (seed + word_of_nat i) fault_config_default) [0..<agent_count],
      sm_network = network_new agent_count seed, sm_control_plane = control_plane_new seed,
      sm_checker = checker_new agent_count, sm_agent_count = agent_count, sm_host = host\<rparr>"

definition simulator_new :: "'h os \<Rightarrow> 'h \<Rightarrow> nat \<Rightarrow> u64 \<Rightarrow> 'h simulator" where
  "simulator_new os host agent_count seed = simulator_new_with os host agent_count seed 1"

subsection \<open>Delivery loops\<close>

text \<open>The deliveries a queue can still make; every successful pop uses one up.\<close>

definition weight :: "'m pending list \<Rightarrow> nat" where
  "weight q = sum_list (map (\<lambda>p. if pd_replayed p then 1 else 2) q)"

lemma weight_simps [simp]:
  "weight [] = 0" "weight (xs @ ys) = weight xs + weight ys"
  "weight (p # q) = (if pd_replayed p then 1 else 2) + weight q"
  by (simp_all add: weight_def)

lemma popped_weight: "popped (Some m) q q' \<Longrightarrow> weight q' < weight q"
  by (erule poppedE) (auto simp: suffix_def)

lemma pop_outbound_weight:
  "pop_outbound i t nw = Inr (Some m, nw') \<Longrightarrow> weight (nw_outbound nw' ! i) < weight (nw_outbound nw ! i)"
  by (drule pop_outbound_effect) (auto split: if_splits dest!: pop_queue_popped popped_weight)

lemma pop_inbound_weight:
  "pop_inbound i t nw = Inr (Some m, nw') \<Longrightarrow> weight (nw_inbound nw' ! i) < weight (nw_inbound nw ! i)"
  by (drule pop_inbound_effect) (auto split: if_splits dest!: pop_queue_popped popped_weight)

function deliver_outbound ::
    "nat \<Rightarrow> u64 \<Rightarrow> network \<Rightarrow> control_plane \<Rightarrow> (network \<times> control_plane) res" where
  "deliver_outbound i now nw cp =
     (case pop_outbound i now nw of
        Inl e \<Rightarrow> Inl e
      | Inr (None, nw1) \<Rightarrow> Inr (nw1, cp)
      | Inr (Some message, nw1) \<Rightarrow>
          (case on_agent_message now i message cp of
             Inl e \<Rightarrow> Inl e
           | Inr cp1 \<Rightarrow> deliver_outbound i now nw1 cp1))"
  by auto
termination
  by (relation "measure (\<lambda>(i, now, nw, cp). weight (nw_outbound nw ! i))") (auto simp: pop_outbound_weight)

declare deliver_outbound.simps [simp del]

function deliver_inbound :: "nat \<Rightarrow> u64 \<Rightarrow> network \<Rightarrow> sim_io \<Rightarrow> (network \<times> sim_io) res" where
  "deliver_inbound i now nw io =
     (case pop_inbound i now nw of
        Inl e \<Rightarrow> Inl e
      | Inr (None, nw1) \<Rightarrow> Inr (nw1, io)
      | Inr (Some message, nw1) \<Rightarrow>
          (case push_inbound message io of
             Inl e \<Rightarrow> Inl e
           | Inr io1 \<Rightarrow> deliver_inbound i now nw1 io1))"
  by auto
termination
  by (relation "measure (\<lambda>(i, now, nw, io). weight (nw_inbound nw ! i))") (auto simp: pop_inbound_weight)

declare deliver_inbound.simps [simp del]

subsection \<open>The tick\<close>

definition collect_outbound :: "nat \<Rightarrow> 'h simulator \<Rightarrow> 'h simulator res" where
  "collect_outbound i sm =
     and_then (deliver_outbound i (sm_current_tick sm) (sm_network sm) (sm_control_plane sm))
       (\<lambda>(nw, cp). Inr (sm\<lparr>sm_network := nw, sm_control_plane := cp\<rparr>))"

definition issue_commands :: "'h simulator \<Rightarrow> 'h simulator res" where
  "issue_commands sm =
     (let (commands, cp) = commands_for_tick (sm_current_tick sm) (sm_control_plane sm)
      in and_then (fold_res (\<lambda>(agent_id, command). send_to_agent agent_id command (sm_current_tick sm))
                     commands (sm_network sm))
           (\<lambda>nw. Inr (sm\<lparr>sm_control_plane := cp, sm_network := nw\<rparr>)))"

text \<open>The worker tick of one agent, on its own runtime and link and the shared host.\<close>

definition tick_worker :: "'h os \<Rightarrow> (nat \<Rightarrow> nat list) \<Rightarrow> nat \<Rightarrow> 'h simulator \<Rightarrow> 'h simulator res option" where
  "tick_worker os sched i sm =
     bind_run (tick (sim_worker_ctx os simulated_io) sched
                \<lparr>sy_worker = sm_workers sm ! i, sy_env = (sm_runtimes sm ! i, sm_host sm),
                 sy_io = sm_ios sm ! i, sy_out = []\<rparr>)
       (\<lambda>s. Some (Inr (sm\<lparr>sm_workers := (sm_workers sm)[i := sy_worker s],
                           sm_runtimes := (sm_runtimes sm)[i := fst (sy_env s)], sm_host := snd (sy_env s),
                           sm_ios := (sm_ios sm)[i := sy_io s]\<rparr>)))"

definition flush_outbound :: "nat \<Rightarrow> 'h simulator \<Rightarrow> 'h simulator res" where
  "flush_outbound i sm =
     and_then (drain_outbound (sm_ios sm ! i)) (\<lambda>(messages, io).
     and_then (fold_res (\<lambda>message. send_from_agent i message (sm_current_tick sm)) messages (sm_network sm))
       (\<lambda>nw. Inr (sm\<lparr>sm_ios := (sm_ios sm)[i := io], sm_network := nw\<rparr>)))"

definition feed_inbound :: "nat \<Rightarrow> 'h simulator \<Rightarrow> 'h simulator res" where
  "feed_inbound i sm =
     and_then (deliver_inbound i (sm_current_tick sm) (sm_network sm)
                ((sm_ios sm ! i)\<lparr>si_current_tick := sm_current_tick sm\<rparr>)) (\<lambda>(nw, io).
     and_then (maybe_crash_pods (sm_runtimes sm ! i)) (\<lambda>r.
       Inr (sm\<lparr>sm_network := nw, sm_ios := (sm_ios sm)[i := io], sm_runtimes := (sm_runtimes sm)[i := r]\<rparr>)))"

definition agent_step :: "'h os \<Rightarrow> (nat \<Rightarrow> nat \<Rightarrow> nat list) \<Rightarrow> nat \<Rightarrow> 'h simulator \<Rightarrow> 'h simulator res option" where
  "agent_step os sched i sm =
     bind_run (Some (feed_inbound i sm)) (\<lambda>sm1.
     bind_run (tick_worker os (sched i) i sm1) (\<lambda>sm2. Some (flush_outbound i sm2)))"

definition check_agent :: "nat \<Rightarrow> 'h simulator \<Rightarrow> 'h simulator res" where
  "check_agent i sm =
     and_then (is_partitioned i (sm_network sm)) (\<lambda>partitioned.
     and_then (check (sm_current_tick sm) i (sm_workers sm ! i) partitioned (sm_checker sm))
       (\<lambda>ck. Inr (sm\<lparr>sm_checker := ck\<rparr>)))"

definition sim_tick :: "'h os \<Rightarrow> (nat \<Rightarrow> nat \<Rightarrow> nat list) \<Rightarrow> 'h simulator \<Rightarrow> 'h simulator res option" where
  "sim_tick os sched sm0 =
     (let sm = sm0\<lparr>sm_current_tick := sm_current_tick sm0 + 1\<rparr>; agents = [0..<sm_agent_count sm] in
      bind_run (Some (and_then (fold_res collect_outbound agents sm) issue_commands)) (\<lambda>sm1.
      bind_run (fold_run (agent_step os sched) agents sm1) (\<lambda>sm2.
        Some (fold_res check_agent agents sm2))))"

primrec sim_run :: "'h os \<Rightarrow> (nat \<Rightarrow> nat \<Rightarrow> nat \<Rightarrow> nat list) \<Rightarrow> nat \<Rightarrow> 'h simulator \<Rightarrow> 'h simulator res option" where
  "sim_run os sched 0 sm = Some (Inr sm)"
| "sim_run os sched (Suc n) sm = bind_run (sim_tick os (sched n) sm) (sim_run os sched n)"

subsection \<open>Faults from outside\<close>

definition agent_exists :: "nat \<Rightarrow> 'h simulator \<Rightarrow> unit res" where
  "agent_exists agent_id sm =
     ensure (agent_id < sm_agent_count sm) ''assertion failed: agent_id < self.agent_count''"

definition sim_partition_agent :: "nat \<Rightarrow> 'h simulator \<Rightarrow> 'h simulator res" where
  "sim_partition_agent agent_id sm =
     and_then (agent_exists agent_id sm) (\<lambda>_.
     and_then (partition_agent agent_id (sm_current_tick sm) (sm_network sm))
       (\<lambda>nw. Inr (sm\<lparr>sm_network := nw\<rparr>)))"

definition lose_agent_session :: "nat \<Rightarrow> 'h simulator \<Rightarrow> 'h simulator res" where
  "lose_agent_session agent_id sm =
     and_then (agent_exists agent_id sm) (\<lambda>_.
     and_then (discard_session_queues agent_id (sm_network sm)) (\<lambda>nw.
       Inr (sm\<lparr>sm_network := nw, sm_workers := (sm_workers sm)[agent_id := on_connection_lost (sm_workers sm ! agent_id)]\<rparr>)))"

definition retry_agent_registration :: "nat \<Rightarrow> 'h simulator \<Rightarrow> 'h simulator res" where
  "retry_agent_registration agent_id sm =
     and_then (agent_exists agent_id sm) (\<lambda>_.
       Inr (sm\<lparr>sm_workers := (sm_workers sm)[agent_id := on_connection_lost (sm_workers sm ! agent_id)]\<rparr>))"

definition sim_heal_all :: "'h simulator \<Rightarrow> 'h simulator" where
  "sim_heal_all sm = sm\<lparr>sm_network := heal_all (sm_current_tick sm) (sm_network sm)\<rparr>"

definition sim_force_heal_all :: "'h simulator \<Rightarrow> 'h simulator" where
  "sim_force_heal_all sm = sm\<lparr>sm_network := force_heal_all (sm_current_tick sm) (sm_network sm)\<rparr>"

definition set_runtime_faults :: "nat \<Rightarrow> fault_config \<Rightarrow> 'h simulator \<Rightarrow> 'h simulator res" where
  "set_runtime_faults agent_id config sm =
     and_then (index_at (sm_runtimes sm) agent_id) (\<lambda>r.
       Inr (sm\<lparr>sm_runtimes := (sm_runtimes sm)[agent_id := r\<lparr>sr_fault_config := config\<rparr>]\<rparr>))"

end
