(* ===== verification/Sim_Safety.thy ===== *)
theory Sim_Safety
  imports Sim_Simulator
begin

text \<open>
  The invariant of the whole simulation and its consequences: a simulator tick always returns,
  panics only for the named reasons, and the checker records nothing but illegal transitions.
\<close>

section \<open>The invariant\<close>

definition RECEIVED_EXCEEDED :: string where
  "RECEIVED_EXCEEDED = ''assertion failed: self.received.len() < RECEIVED_CAPACITY''"

definition SIM_PANICS :: "string set" where
  "SIM_PANICS = {OUTBOUND_EXCEEDED, MISSING_KEY, RECEIVED_EXCEEDED}"

definition worker_at :: "u64 \<Rightarrow> worker \<Rightarrow> bool" where
  "worker_at t w = (worker_inv w \<and> (wk_registered w \<longrightarrow> wk_last_heartbeat_tick w \<le> t))"

definition idle_io :: "sim_io \<Rightarrow> bool" where
  "idle_io i = (si_inbound i = [] \<and> si_outbound i = [])"

fun is_transition :: "violation \<Rightarrow> bool" where
  "is_transition (IllegalTransition _ _ _ _ _) = True"
| "is_transition _ = False"

definition checker_ok :: "nat \<Rightarrow> checker \<Rightarrow> bool" where
  "checker_ok n ck =
     (length (ck_last_heartbeat ck) = n \<and> length (ck_last_pod_states ck) = n \<and> counts_violations ck
      \<and> list_all is_transition (ck_violations ck))"

definition net_ok :: "nat \<Rightarrow> network \<Rightarrow> bool" where
  "net_ok n nw = (net_wf n nw \<and> nw_min_delay nw = 1 \<and> nw_max_delay nw = 5)"

definition plan_ok :: "nat \<Rightarrow> control_plane \<Rightarrow> bool" where
  "plan_ok n cp = list_all (\<lambda>s. fst (snd s) < n) (cp_scheduled cp)"

definition sim_inv :: "nat \<Rightarrow> 'h simulator \<Rightarrow> bool" where
  "sim_inv n sm =
     (sm_agent_count sm = n \<and> length (sm_workers sm) = n \<and> length (sm_ios sm) = n \<and> length (sm_runtimes sm) = n
      \<and> net_ok n (sm_network sm) \<and> plan_ok n (sm_control_plane sm) \<and> checker_ok n (sm_checker sm)
      \<and> list_all (worker_at (sm_current_tick sm)) (sm_workers sm) \<and> list_all idle_io (sm_ios sm))"

section \<open>The network in the loops of a tick\<close>

lemma net_ok_other: "net_ok n nw \<Longrightarrow> net_wf n nw' \<Longrightarrow> other_fields nw nw' \<Longrightarrow> net_ok n nw'"
  by (simp add: net_ok_def other_fields_def)

lemma net_ok_wf: "net_ok n nw \<Longrightarrow> net_wf n nw"
  by (simp add: net_ok_def)

lemma send_to_ok: "net_ok n nw \<Longrightarrow> a < n \<Longrightarrow> \<exists>nw'. send_to_agent a m t nw = Inr nw' \<and> net_ok n nw'"
  using send_to_total [of n nw a m t] send_to_effect [of a m t nw] send_to_wf [of a m t nw]
  by (metis net_ok_other net_ok_wf)

lemma send_from_ok:
  "net_ok n nw \<Longrightarrow> a < n \<Longrightarrow> worker_message_ok m \<Longrightarrow> \<exists>nw'. send_from_agent a m t nw = Inr nw' \<and> net_ok n nw'"
  using send_from_total [of n nw a m t] send_from_effect [of a m t nw] send_from_wf [of a m t nw]
  by (metis net_ok_other net_ok_wf)

lemma pop_outbound_ok:
  "net_ok n nw \<Longrightarrow> a < n \<Longrightarrow> \<exists>m nw'. pop_outbound a t nw = Inr (m, nw') \<and> net_ok n nw'"
  using pop_outbound_total [of n nw a t] pop_outbound_effect [of a t nw] pop_outbound_wf [of a t nw]
  by (metis net_ok_other net_ok_wf)

lemma pop_inbound_ok:
  "net_ok n nw \<Longrightarrow> a < n \<Longrightarrow> \<exists>m nw'. pop_inbound a t nw = Inr (m, nw') \<and> net_ok n nw'"
  using pop_inbound_total [of n nw a t] pop_inbound_effect [of a t nw] pop_inbound_wf [of a t nw]
  by (metis net_ok_other net_ok_wf)

lemma deliver_outbound_ok:
  assumes "net_ok n nw" "i < n" "plan_ok n cp"
  shows "outcome SIM_PANICS (\<lambda>(nw', cp'). net_ok n nw' \<and> plan_ok n cp') (deliver_outbound i now nw cp)"
  using assms
proof (induction i now nw cp rule: deliver_outbound.induct)
  case (1 i now nw cp)
  obtain m nw1 where pop: "pop_outbound i now nw = Inr (m, nw1)" "net_ok n nw1"
    using pop_outbound_ok [OF 1(2,3)] by blast
  show ?case
  proof (cases m)
    case None
    with pop 1(4) show ?thesis by (subst deliver_outbound.simps) simp
  next
    case (Some msg)
    show ?thesis
    proof (cases "on_agent_message now i msg cp")
      case (Inl e)
      then have "e \<in> SIM_PANICS"
        by (auto simp: on_agent_message_def and_then_Inl ensure_def SIM_PANICS_def RECEIVED_EXCEEDED_def split: if_splits)
      with pop Some Inl show ?thesis by (subst deliver_outbound.simps) simp
    next
      case (Inr cp1)
      then have "plan_ok n cp1" using 1(4) by (auto simp: on_agent_message_def and_then_Inr plan_ok_def)
      with 1(1) [OF pop(1) refl Some Inr pop(2) 1(3)] pop Some Inr show ?thesis
        by (subst deliver_outbound.simps) simp
    qed
  qed
qed

text \<open>
  A replayed entry is due on a later tick, so within one tick a queue hands out at most the
  entries it held at the start.
\<close>

definition late :: "u64 \<Rightarrow> 'm pending list \<Rightarrow> bool" where
  "late now q = list_all (\<lambda>p. pd_deliver_at_tick p > now) q"

lemma pop_queue_split:
  assumes "pop_queue nw e now (old @ new) = Inr (m, q', g)" "queue_ok e (old @ new)" "late now new"
    and "nw_min_delay nw = 1" "unat now + 1 < 2 ^ 64"
  shows "case m of None \<Rightarrow> True
    | Some x \<Rightarrow> \<exists>old' new'. q' = old' @ new' \<and> length old = Suc (length old') \<and> late now new'"
proof (cases old)
  case Nil
  then show ?thesis
    using assms(1-3) by (cases new) (auto simp: pop_queue_def queue_ok_def late_def)
next
  case (Cons p rest)
  have "now < now + 1" using assms(5) by (simp add: word_less_nat_alt unat_add_no_overflow)
  then have late': "late now (new @ [p\<lparr>pd_deliver_at_tick := now + max (nw_min_delay nw) 1, pd_replayed := True\<rparr>])"
    using assms(3,4) by (simp add: late_def)
  have "q' = rest @ new \<or> q' = rest @ new @ [p\<lparr>pd_deliver_at_tick := now + max (nw_min_delay nw) 1, pd_replayed := True\<rparr>]"
    if "m = Some x" for x
    using assms(1,2) Cons that by (auto simp: pop_queue_def queue_ok_def and_then_Inr split: if_splits)
  then show ?thesis using late' assms(3) Cons by (cases m) auto
qed

lemma deliver_inbound_ok:
  assumes "net_ok n nw" "i < n" "unat now + 1 < 2 ^ 64"
    and "nw_inbound nw ! i = old @ new" "late now new" "length (si_inbound io) + length old \<le> STAGING_CAPACITY"
  shows "\<exists>nw' ms. deliver_inbound i now nw io = Inr (nw', io\<lparr>si_inbound := si_inbound io @ ms\<rparr>) \<and> net_ok n nw'"
  using assms
proof (induction i now nw io arbitrary: old new rule: deliver_inbound.induct)
  case (1 i now nw io)
  obtain m nw1 where pop: "pop_inbound i now nw = Inr (m, nw1)" "net_ok n nw1"
    using pop_inbound_ok [OF 1(2,3)] by blast
  show ?case
  proof (cases m)
    case None
    with pop show ?thesis by (intro exI [of _ nw1] exI [of _ "[]"]) (subst deliver_inbound.simps, simp)
  next
    case (Some msg)
    have wf: "net_wf n nw" using 1(2) by (rule net_ok_wf)
    from pop_inbound_effect [OF pop(1)] Some obtain q g where
      q: "pop_queue nw (nw_session_epochs nw ! i) now (old @ new) = Inr (Some msg, q, g)" "nw_inbound nw1 ! i = q"
      using 1(5) by (auto split: if_splits)
    have "queue_ok (nw_session_epochs nw ! i) (old @ new)"
      using net_wf_queues(1) [OF wf] net_wf_lengths [OF wf] 1(3,5) by (metis list_all2_conv_all_nth)
    from pop_queue_split [OF q(1) this 1(6) _ 1(4)] obtain old' new' where
      on: "q = old' @ new'" "length old = Suc (length old')" "late now new'"
      using 1(2) by (auto simp: net_ok_def)
    have push: "push_inbound msg io = Inr (io\<lparr>si_inbound := si_inbound io @ [msg]\<rparr>)"
      using 1(7) on(2) by (simp add: push_inbound_def)
    obtain nw' ms where "deliver_inbound i now nw1 (io\<lparr>si_inbound := si_inbound io @ [msg]\<rparr>)
        = Inr (nw', io\<lparr>si_inbound := (si_inbound io @ [msg]) @ ms\<rparr>)" "net_ok n nw'"
      using 1(1) [OF pop(1) refl Some push pop(2) 1(3,4), of old' new'] q(2) on 1(7) by auto
    then show ?thesis
      using pop Some push
      by (intro exI [of _ nw'] exI [of _ "msg # ms"]) (subst deliver_inbound.simps, simp)
  qed
qed

section \<open>The phases of a tick\<close>

text \<open>During a tick at \<open>now\<close>, the agents below \<open>k\<close> have ticked.\<close>

definition sim_mid :: "nat \<Rightarrow> u64 \<Rightarrow> nat \<Rightarrow> 'h simulator \<Rightarrow> bool" where
  "sim_mid n now k sm =
     (sim_inv n sm \<and> sm_current_tick sm = now \<and> (\<forall>j < k. heartbeat_ok now (sm_workers sm ! j)))"

lemma fold_res_outcome_upt:
  assumes "\<And>i s. i < b \<Longrightarrow> P i s \<Longrightarrow> outcome X (P (Suc i)) (f i s)" "a \<le> b" "P a s"
  shows "outcome X (P b) (fold_res f [a..<b] s)"
  using assms(2,3)
proof (induction "b - a" arbitrary: a s)
  case (Suc d)
  then have "[a..<b] = a # [Suc a..<b]" by (simp add: upt_conv_Cons)
  moreover have "outcome X (P (Suc a)) (f a s)" using assms(1) Suc by simp
  ultimately show ?case
    using Suc(1) [of "Suc a"] Suc(2) by (auto elim!: outcome_and_then)
qed simp

lemma collect_outbound_ok:
  assumes "sim_mid n now 0 sm" "i < n"
  shows "outcome SIM_PANICS (sim_mid n now 0) (collect_outbound i sm)"
proof -
  have "outcome SIM_PANICS (\<lambda>(nw, cp). net_ok n nw \<and> plan_ok n cp)
      (deliver_outbound i (sm_current_tick sm) (sm_network sm) (sm_control_plane sm))"
    by (rule deliver_outbound_ok) (use assms in \<open>auto simp: sim_mid_def sim_inv_def\<close>)
  then show ?thesis
    unfolding collect_outbound_def
    by (rule outcome_and_then) (use assms(1) in \<open>auto simp: sim_mid_def sim_inv_def\<close>)
qed

lemma issue_commands_ok:
  assumes "sim_mid n now 0 sm"
  shows "outcome SIM_PANICS (sim_mid n now 0) (issue_commands sm)"
proof -
  obtain cmds cp where c: "commands_for_tick (sm_current_tick sm) (sm_control_plane sm) = (cmds, cp)" by fastforce
  then have cp: "cp_scheduled cp = cp_scheduled (sm_control_plane sm)"
    by (auto simp: commands_for_tick_def Let_def)
  have cmds: "list_all (\<lambda>(a, m). a < n) cmds"
    using assms c set_takeWhileD
    by (fastforce simp: commands_for_tick_def Let_def sim_mid_def sim_inv_def plan_ok_def list_all_iff dest: in_set_dropD)
  have "\<exists>nw. fold_res (\<lambda>(a, m). send_to_agent a m (sm_current_tick sm)) cmds (sm_network sm) = Inr nw \<and> net_ok n nw"
    by (rule fold_res_total)
       (use assms cmds send_to_ok in \<open>auto simp: sim_mid_def sim_inv_def list_all_iff\<close>)
  then show ?thesis
    using assms cp by (auto simp: issue_commands_def c sim_mid_def sim_inv_def plan_ok_def)
qed

lemma list_all_update: "list_all P xs \<Longrightarrow> P x \<Longrightarrow> list_all P (xs[i := x])"
  using set_update_subset_insert [of xs i x] by (auto simp: list_all_iff)

lemma list_all_at: "list_all P xs \<Longrightarrow> i < length xs \<Longrightarrow> P (xs ! i)"
  by (simp add: list_all_length)

text \<open>While an agent is being served, its link is loaded; everything else is as between ticks.\<close>

definition serving :: "nat \<Rightarrow> u64 \<Rightarrow> nat \<Rightarrow> (sim_io \<Rightarrow> bool) \<Rightarrow> 'h simulator \<Rightarrow> bool" where
  "serving n now i Q sm =
     (i < n \<and> length (sm_ios sm) = n \<and> Q (sm_ios sm ! i)
      \<and> sim_mid n now i (sm\<lparr>sm_ios := (sm_ios sm)[i := (sm_ios sm ! i)\<lparr>si_inbound := [], si_outbound := []\<rparr>]\<rparr>))"

lemma feed_inbound_ok:
  assumes "sim_mid n now i sm" "i < n" "unat now + 1 < 2 ^ 64"
  shows "\<exists>sm1. feed_inbound i sm = Inr sm1
    \<and> serving n now i (\<lambda>io. si_outbound io = [] \<and> si_current_tick io = now) sm1"
proof -
  let ?io = "(sm_ios sm ! i)\<lparr>si_current_tick := sm_current_tick sm\<rparr>"
  have inv: "sim_inv n sm" "sm_current_tick sm = now" using assms(1) by (simp_all add: sim_mid_def)
  have io: "idle_io (sm_ios sm ! i)" using inv(1) assms(2) by (simp add: sim_inv_def list_all_at)
  have net: "net_ok n (sm_network sm)" using inv(1) by (simp add: sim_inv_def)
  have "length (nw_inbound (sm_network sm) ! i) \<le> QUEUE_CAPACITY"
    using net assms(2) by (simp add: net_ok_def net_wf_def list_all2_conv_all_nth queue_ok_def)
  then have "\<exists>nw' ms. deliver_inbound i now (sm_network sm) ?io = Inr (nw', ?io\<lparr>si_inbound := si_inbound ?io @ ms\<rparr>)
      \<and> net_ok n nw'"
    using io by (intro deliver_inbound_ok [OF net assms(2,3), where old = "nw_inbound (sm_network sm) ! i" and new = "[]"])
      (simp_all add: late_def idle_io_def QUEUE_CAPACITY_def STAGING_CAPACITY_def)
  then obtain nw' ms where d: "deliver_inbound i now (sm_network sm) ?io = Inr (nw', ?io\<lparr>si_inbound := ms\<rparr>)" "net_ok n nw'"
    using io by (auto simp: idle_io_def)
  obtain r where r: "maybe_crash_pods (sm_runtimes sm ! i) = Inr r" using maybe_crash_total by blast
  let ?sm = "sm\<lparr>sm_network := nw', sm_ios := (sm_ios sm)[i := ?io\<lparr>si_inbound := ms\<rparr>], sm_runtimes := (sm_runtimes sm)[i := r]\<rparr>"
  have "feed_inbound i sm = Inr ?sm" using d(1) r inv(2) by (simp add: feed_inbound_def)
  moreover have "serving n now i (\<lambda>io. si_outbound io = [] \<and> si_current_tick io = now) ?sm"
    using assms(1,2) d(2) io
    by (auto simp: serving_def sim_mid_def sim_inv_def idle_io_def intro!: list_all_update)
  ultimately show ?thesis by blast
qed

lemma sim_worker_ctx_eq: "sim_worker_ctx os simulated_io = sim_ctx (host_os os) (simulated_runtime (os_instant_now os))"
  by (simp add: sim_worker_ctx_def sim_ctx_def)

lemma sim_env_ok:
  assumes "os_ok SIM_PANICS os"
  shows "env_ok SIM_PANICS (sim_worker_ctx os simulated_io)"
proof -
  have "io_ok SIM_PANICS simulated_io"
    by (auto simp: io_ok_def simulated_io_def sim_send_def sim_recv_def yields_def SIM_PANICS_def ensure_def
          split: list.split)
  moreover have "calls_ok SIM_PANICS (os_instant_now os)" using assms by (simp add: os_ok_def)
  ultimately show ?thesis
    using assms by (simp add: env_ok_def sim_worker_ctx_def simulated_runtime_ok host_os_ok)
qed

lemma tick_heartbeat_ok:
  assumes "tick cx sched s = Some (Inr s')" "now = io_now (cx_io cx) (sy_io s)" "unat now + 100 < 2 ^ 64"
    "worker_at now (sy_worker s)"
  shows "heartbeat_ok now (sy_worker s')" "wk_last_heartbeat_tick (sy_worker s') \<le> now"
  using tick_fresh [OF assms(1-3)] assms(4) by (auto simp: worker_at_def heartbeat_ok_def)

definition loaded :: "u64 \<Rightarrow> sim_io \<Rightarrow> bool" where
  "loaded now io = (si_inbound io = [] \<and> si_current_tick io = now \<and> length (si_outbound io) \<le> STAGING_CAPACITY
                    \<and> list_all worker_message_ok (si_outbound io))"

text \<open>After the agent's tick its worker has a fresh heartbeat.\<close>

definition served :: "nat \<Rightarrow> u64 \<Rightarrow> nat \<Rightarrow> 'h simulator \<Rightarrow> bool" where
  "served n now i sm = (serving n now i (loaded now) sm \<and> heartbeat_ok now (sm_workers sm ! i))"

lemma tick_worker_ok:
  assumes sv: "serving n now i (\<lambda>io. si_outbound io = [] \<and> si_current_tick io = now) sm"
    and os: "os_ok SIM_PANICS os" and now: "unat now + 100 < 2 ^ 64"
  shows "\<exists>r. tick_worker os sched i sm = Some r \<and> outcome SIM_PANICS (served n now i) r"
proof -
  let ?cx = "sim_worker_ctx os simulated_io"
  let ?s = "\<lparr>sy_worker = sm_workers sm ! i, sy_env = (sm_runtimes sm ! i, sm_host sm), sy_io = sm_ios sm ! i, sy_out = []\<rparr>"
  have i: "i < n" and len: "length (sm_workers sm) = n" "length (sm_ios sm) = n"
    using sv by (simp_all add: serving_def sim_mid_def sim_inv_def)
  have w: "worker_at now (sy_worker ?s)"
    using sv by (auto simp: serving_def sim_mid_def sim_inv_def intro: list_all_at)
  have clock: "now = io_now (cx_io ?cx) (sy_io ?s)"
    using sv by (simp add: serving_def sim_worker_ctx_def simulated_io_def)
  obtain r where r: "tick ?cx sched ?s = Some r"
    using sio.tick_returns [of ?cx] by (auto simp: sim_worker_ctx_def)
  have inv: "outcome SIM_PANICS inv_sys r"
    by (rule tick_inv [OF r sim_env_ok [OF os]]) (use w in \<open>simp_all add: SIM_PANICS_def worker_at_def\<close>)
  show ?thesis
  proof (cases r)
    case (Inl e)
    with r inv show ?thesis by (simp add: tick_worker_def bind_run_def)
  next
    case (Inr s')
    let ?sm = "sm\<lparr>sm_workers := (sm_workers sm)[i := sy_worker s'], sm_runtimes := (sm_runtimes sm)[i := fst (sy_env s')],
        sm_host := snd (sy_env s'), sm_ios := (sm_ios sm)[i := sy_io s']\<rparr>"
    have t: "tick ?cx sched ?s = Some (Inr s')" using r Inr by simp
    note hb = tick_heartbeat_ok [OF t clock now w]
    have "staged (sy_io ?s) [] (sy_io s') (sy_out s')"
      by (rule stg.tick_link [OF t [unfolded sim_worker_ctx_eq]]) (use sv in \<open>simp add: staged_def serving_def\<close>)
    moreover have "si_inbound (sy_io s') = []"
      by (rule sim_tick_empties [OF t [unfolded sim_worker_ctx_eq]])
    ultimately have io: "loaded now (sy_io s')"
      using sv by (simp add: loaded_def staged_def serving_def)
    have wi: "worker_inv (sy_worker s')" using inv Inr by simp
    have "list_all idle_io ((sm_ios sm)[i := (sy_io s')\<lparr>si_inbound := [], si_outbound := []\<rparr>])"
      using sv list_all_update [of idle_io "(sm_ios sm)[i := (sm_ios sm ! i)\<lparr>si_inbound := [], si_outbound := []\<rparr>]"
          "(sy_io s')\<lparr>si_inbound := [], si_outbound := []\<rparr>" i]
      by (simp add: serving_def sim_mid_def sim_inv_def idle_io_def)
    moreover have "list_all (worker_at now) ((sm_workers sm)[i := sy_worker s'])"
      using sv wi hb by (auto simp: serving_def sim_mid_def sim_inv_def worker_at_def intro!: list_all_update)
    ultimately have "served n now i ?sm"
      using sv i len io hb
      by (auto simp: served_def serving_def sim_mid_def sim_inv_def nth_list_update)
    with r Inr show ?thesis by (simp add: tick_worker_def bind_run_def)
  qed
qed

lemma flush_outbound_ok:
  assumes "served n now i sm"
  shows "\<exists>sm'. flush_outbound i sm = Inr sm' \<and> sim_mid n now (Suc i) sm'"
proof -
  let ?io = "sm_ios sm ! i"
  have sv: "serving n now i (loaded now) sm" and hb: "heartbeat_ok now (sm_workers sm ! i)"
    using assms by (simp_all add: served_def)
  then have io: "loaded now ?io" and i: "i < n" and net: "net_ok n (sm_network sm)"
    by (simp_all add: serving_def sim_mid_def sim_inv_def)
  have "\<exists>nw. fold_res (\<lambda>m. send_from_agent i m (sm_current_tick sm)) (si_outbound ?io) (sm_network sm) = Inr nw \<and> net_ok n nw"
    by (rule fold_res_total) (use net io i send_from_ok in \<open>auto simp: loaded_def list_all_iff\<close>)
  then obtain nw where nw: "fold_res (\<lambda>m. send_from_agent i m (sm_current_tick sm)) (si_outbound ?io) (sm_network sm) = Inr nw"
    "net_ok n nw" by blast
  have eq: "?io\<lparr>si_inbound := [], si_outbound := []\<rparr> = ?io\<lparr>si_outbound := []\<rparr>"
    using io by (simp add: loaded_def)
  have "flush_outbound i sm = Inr (sm\<lparr>sm_ios := (sm_ios sm)[i := ?io\<lparr>si_outbound := []\<rparr>], sm_network := nw\<rparr>)"
    using io nw(1) by (simp add: flush_outbound_def drain_outbound_def loaded_def)
  moreover have "sim_mid n now (Suc i) (sm\<lparr>sm_ios := (sm_ios sm)[i := ?io\<lparr>si_outbound := []\<rparr>], sm_network := nw\<rparr>)"
    using sv nw(2) hb unfolding serving_def eq by (auto simp: sim_mid_def sim_inv_def less_Suc_eq)
  ultimately show ?thesis by blast
qed

lemma agent_step_ok:
  assumes "sim_mid n now i sm" "i < n" "unat now + 100 < 2 ^ 64" "os_ok SIM_PANICS os"
  shows "\<exists>r. agent_step os sched i sm = Some r \<and> outcome SIM_PANICS (sim_mid n now (Suc i)) r"
proof -
  obtain sm1 where 1: "feed_inbound i sm = Inr sm1"
      "serving n now i (\<lambda>io. si_outbound io = [] \<and> si_current_tick io = now) sm1"
    using feed_inbound_ok [OF assms(1,2)] assms(3) by auto
  obtain r where r: "tick_worker os (sched i) i sm1 = Some r" "outcome SIM_PANICS (served n now i) r"
    using tick_worker_ok [OF 1(2) assms(4,3)] by blast
  show ?thesis
  proof (cases r)
    case (Inl e)
    with 1(1) r show ?thesis by (simp add: agent_step_def bind_run_def)
  next
    case (Inr sm2)
    then obtain sm3 where "flush_outbound i sm2 = Inr sm3" "sim_mid n now (Suc i) sm3"
      using flush_outbound_ok [of n now i sm2] r(2) by auto
    with 1(1) r Inr show ?thesis by (simp add: agent_step_def bind_run_def)
  qed
qed

lemma fold_run_upt:
  assumes "\<And>i s. i < b \<Longrightarrow> P i s \<Longrightarrow> \<exists>r. f i s = Some r \<and> outcome X (P (Suc i)) r" "a \<le> b" "P a s"
  shows "\<exists>r. fold_run f [a..<b] s = Some r \<and> outcome X (P b) r"
  using assms(2,3)
proof (induction "b - a" arbitrary: a s)
  case (Suc d)
  then have ab: "a < b" by simp
  then have eq: "[a..<b] = a # [Suc a..<b]" by (simp add: upt_conv_Cons)
  obtain r where r: "f a s = Some r" "outcome X (P (Suc a)) r" using assms(1) [OF ab Suc(4)] by blast
  show ?case
  proof (cases r)
    case (Inl e)
    with r eq show ?thesis by (simp add: bind_run_def)
  next
    case (Inr s1)
    with r Suc(1) [of "Suc a" s1] Suc(2) eq show ?thesis by (auto simp: bind_run_def)
  qed
qed simp

lemma transition_violations_all: "list_all is_transition (transition_violations t i prev cur)"
  by (auto simp: transition_violations_def list_all_iff split: option.splits if_splits)

lemma check_agent_ok:
  assumes "sim_mid n now n sm" "i < n"
  shows "\<exists>sm'. check_agent i sm = Inr sm' \<and> sim_mid n now n sm'"
proof -
  have inv: "sim_inv n sm" and ck: "checker_ok n (sm_checker sm)" and net: "net_wf n (sm_network sm)"
    using assms(1) by (auto simp: sim_mid_def sim_inv_def net_ok_def)
  have "worker_at now (sm_workers sm ! i)"
    using assms by (auto simp: sim_mid_def sim_inv_def intro: list_all_at)
  then have acc: "accounts_exactly (sm_workers sm ! i)" by (simp add: worker_at_def worker_inv_accounts)
  have hb: "heartbeat_ok now (sm_workers sm ! i)" using assms by (simp add: sim_mid_def)
  let ?p = "nw_partitioned (sm_network sm) ! i"
  from check_records [OF acc hb, of i "sm_checker sm" ?p] ck assms(2) obtain ck' where
    ck': "check now i (sm_workers sm ! i) ?p (sm_checker sm) = Inr ck'"
      "ck_violations ck' = ck_violations (sm_checker sm)
         @ transition_violations now i (ck_last_pod_states (sm_checker sm) ! i) (wk_pods (sm_workers sm ! i))"
      "counts_violations ck'" "length (ck_last_pod_states ck') = n" "length (ck_last_heartbeat ck') = n"
    by (auto simp: checker_ok_def)
  then have "checker_ok n ck'" using ck transition_violations_all by (auto simp: checker_ok_def)
  moreover have "is_partitioned i (sm_network sm) = Inr ?p"
    using net assms(2) by (simp add: is_partitioned_def net_wf_lengths)
  ultimately show ?thesis
    using assms(1) ck'(1) by (auto simp: check_agent_def sim_mid_def sim_inv_def)
qed

lemma sim_tick_ok:
  assumes "sim_inv n sm" "unat (sm_current_tick sm) + 101 < 2 ^ 64" "os_ok SIM_PANICS os"
  shows "\<exists>r. sim_tick os sched sm = Some r
    \<and> outcome SIM_PANICS (\<lambda>sm'. sim_inv n sm' \<and> sm_current_tick sm' = sm_current_tick sm + 1) r"
proof -
  let ?now = "sm_current_tick sm + 1"
  let ?sm = "sm\<lparr>sm_current_tick := ?now\<rparr>"
  have n: "sm_agent_count sm = n" using assms(1) by (simp add: sim_inv_def)
  have now: "unat ?now = unat (sm_current_tick sm) + 1"
    using assms(2) by (simp add: unat_add_no_overflow)
  have "list_all (worker_at ?now) (sm_workers sm)"
    using assms(1) now by (auto simp: sim_inv_def list_all_iff worker_at_def word_le_nat_alt)
  then have start: "sim_mid n ?now 0 ?sm" using assms(1) by (simp add: sim_mid_def sim_inv_def)
  have "outcome SIM_PANICS (sim_mid n ?now 0) (fold_res collect_outbound [0..<n] ?sm)"
    by (rule fold_res_outcome_upt [where P = "\<lambda>_. sim_mid n ?now 0"]) (use start collect_outbound_ok in auto)
  then have AB: "outcome SIM_PANICS (sim_mid n ?now 0) (and_then (fold_res collect_outbound [0..<n] ?sm) issue_commands)"
    by (rule outcome_and_then) (rule issue_commands_ok)
  show ?thesis
  proof (cases "and_then (fold_res collect_outbound [0..<n] ?sm) issue_commands")
    case (Inl e)
    with AB n show ?thesis by (simp add: sim_tick_def bind_run_def Let_def)
  next
    case (Inr sm1)
    obtain r where r: "fold_run (agent_step os sched) [0..<n] sm1 = Some r" "outcome SIM_PANICS (sim_mid n ?now n) r"
      using fold_run_upt [where P = "sim_mid n ?now" and f = "agent_step os sched" and X = SIM_PANICS and a = 0 and b = n and s = sm1]
        agent_step_ok [OF _ _ _ assms(3)] AB Inr assms(2) now by auto
    show ?thesis
    proof (cases r)
      case (Inl e)
      with r Inr n show ?thesis by (simp add: sim_tick_def bind_run_def Let_def)
    next
      case (Inr sm2)
      have "outcome SIM_PANICS (sim_mid n ?now n) (fold_res check_agent [0..<n] sm2)"
        by (rule fold_res_outcome_upt [where P = "\<lambda>_. sim_mid n ?now n"])
           (use r Inr check_agent_ok in fastforce)+
      with r Inr \<open>and_then (fold_res collect_outbound [0..<n] ?sm) issue_commands = Inr sm1\<close> n show ?thesis
        by (auto simp: sim_tick_def bind_run_def Let_def sim_mid_def elim!: outcome_mono)
    qed
  qed
qed

section \<open>Everything a simulation can do\<close>

lemma generate_pod_plan:
  assumes "generate_pod n over_ticks cp = Inr cp'" "plan_ok n cp"
  shows "plan_ok n cp'"
proof -
  have "unat a < n" if "bounded p (word_of_nat n) = Inr (a, p')" for a p p'
    using bounded_less [OF that] by (simp add: word_less_nat_alt unat_of_nat)
  then show ?thesis
    using assms by (auto simp: generate_pod_def plan_ok_def and_then_Inr Let_def split: if_splits)
qed

lemma generate_pods_plan: "generate_pods m n over_ticks cp = Inr cp' \<Longrightarrow> plan_ok n cp \<Longrightarrow> plan_ok n cp'"
  by (induction m arbitrary: cp) (auto simp: and_then_Inr dest: generate_pod_plan)

lemma plan_ok_sort: "plan_ok n (cp\<lparr>cp_scheduled := sort_key fst xs\<rparr>) = plan_ok n (cp\<lparr>cp_scheduled := xs\<rparr>)"
  by (simp add: plan_ok_def list_all_iff)

lemma generate_workload_plan: "generate_workload n count over_ticks cp = Inr cp' \<Longrightarrow> plan_ok n cp \<Longrightarrow> plan_ok n cp'"
  using generate_pods_plan by (auto simp: generate_workload_def and_then_Inr plan_ok_sort)

lemma schedule_command_plan:
  "schedule_command t a m cp = Inr cp' \<Longrightarrow> a < n \<Longrightarrow> plan_ok n cp \<Longrightarrow> plan_ok n cp'"
  by (cases m) (auto simp: schedule_command_def and_then_Inr plan_ok_sort, auto simp: plan_ok_def)

text \<open>
  The states of a simulation with \<open>n\<close> agents: it is created, its network is configured, commands
  are scheduled and sent, faults come and go, and it ticks, each tick under its own schedules.
\<close>

inductive sim_reachable :: "'h os \<Rightarrow> nat \<Rightarrow> 'h simulator \<Rightarrow> bool" for os n where
  created: "sim_reachable os n (simulator_new_with os host n seed c)"
| configured: "sim_reachable os n sm \<Longrightarrow> sim_reachable os n (sm\<lparr>sm_network := (sm_network sm)
    \<lparr>nw_drop_rate := dr, nw_replay_rate := rr, nw_path_max_capacity := cap, nw_partition_stability := ps,
     nw_heal_stability := hs\<rparr>\<rparr>)"
| workload: "sim_reachable os n sm \<Longrightarrow> generate_workload n count over_ticks (sm_control_plane sm) = Inr cp
    \<Longrightarrow> sim_reachable os n (sm\<lparr>sm_control_plane := cp\<rparr>)"
| commanded: "sim_reachable os n sm \<Longrightarrow> a < n \<Longrightarrow> schedule_command t a m (sm_control_plane sm) = Inr cp
    \<Longrightarrow> sim_reachable os n (sm\<lparr>sm_control_plane := cp\<rparr>)"
| sent: "sim_reachable os n sm \<Longrightarrow> send_to_agent a m t (sm_network sm) = Inr nw
    \<Longrightarrow> sim_reachable os n (sm\<lparr>sm_network := nw\<rparr>)"
| partitioned: "sim_reachable os n sm \<Longrightarrow> sim_partition_agent a sm = Inr sm' \<Longrightarrow> sim_reachable os n sm'"
| healed_one: "sim_reachable os n sm \<Longrightarrow> heal_one a t (sm_network sm) = Inr nw
    \<Longrightarrow> sim_reachable os n (sm\<lparr>sm_network := nw\<rparr>)"
| healed: "sim_reachable os n sm \<Longrightarrow> sim_reachable os n (sim_heal_all sm)"
| force_healed: "sim_reachable os n sm \<Longrightarrow> sim_reachable os n (sim_force_heal_all sm)"
| lost: "sim_reachable os n sm \<Longrightarrow> lose_agent_session a sm = Inr sm' \<Longrightarrow> sim_reachable os n sm'"
| retried: "sim_reachable os n sm \<Longrightarrow> retry_agent_registration a sm = Inr sm' \<Longrightarrow> sim_reachable os n sm'"
| faults: "sim_reachable os n sm \<Longrightarrow> set_runtime_faults a config sm = Inr sm' \<Longrightarrow> sim_reachable os n sm'"
| ticked: "sim_reachable os n sm \<Longrightarrow> unat (sm_current_tick sm) + 101 < 2 ^ 64
    \<Longrightarrow> sim_tick os sched sm = Some (Inr sm') \<Longrightarrow> sim_reachable os n sm'"

lemma network_new_ok: "net_ok n (network_new n seed)"
  using network_new_wf [of n seed] by (simp add: net_ok_def network_new_def)

lemma simulator_new_inv: "sim_inv n (simulator_new_with os host n seed c)"
proof -
  have "worker_inv (new_with_lifecycle_concurrency r m t 8 32000 65536 c)" for r m t
    by (rule worker_new_inv) (simp_all add: word_less_nat_alt unat_minus_one)
  then show ?thesis
    by (simp add: sim_inv_def simulator_new_with_def network_new_ok plan_ok_def control_plane_new_def checker_ok_def
          checker_new_def counts_violations_def list_all_iff worker_at_def idle_io_def sim_io_new_def
          new_with_lifecycle_concurrency_def worker_new_def)
qed

lemma lost_worker_at: "worker_at t w \<Longrightarrow> worker_at t (on_connection_lost w)"
  by (simp add: worker_at_def on_connection_lost_def worker_inv_def inv_defs terminal_count_total)

lemma lost_workers_at:
  "list_all (worker_at t) ws \<Longrightarrow> list_all (worker_at t) (ws[a := on_connection_lost (ws ! a)])"
  using list_all_update [of "worker_at t" ws _ a] lost_worker_at list_all_at [of "worker_at t" ws a]
  by (cases "a < length ws") (auto simp: list_update_beyond)

lemma sim_inv_network: "sim_inv n sm \<Longrightarrow> net_ok n nw \<Longrightarrow> sim_inv n (sm\<lparr>sm_network := nw\<rparr>)"
  by (simp add: sim_inv_def)

lemma sim_inv_net: "sim_inv n sm \<Longrightarrow> net_ok n (sm_network sm)"
  by (simp add: sim_inv_def)

lemma net_ok_ops:
  assumes "net_ok n nw"
  shows "send_to_agent a m t nw = Inr nw' \<Longrightarrow> net_ok n nw'" "partition_agent a t nw = Inr nw' \<Longrightarrow> net_ok n nw'"
    "heal_one a t nw = Inr nw' \<Longrightarrow> net_ok n nw'" "net_ok n (heal_all t nw)" "net_ok n (force_heal_all t nw)"
    "discard_session_queues a nw = Inr nw' \<Longrightarrow> net_ok n nw'"
  using send_to_wf send_to_effect partition_wf partition_effect heal_one_wf heal_one_effect heal_all_wf
    force_heal_wf heal_effects(1,5) discard_wf discard_effect net_ok_other [OF assms] net_ok_wf [OF assms]
  by metis+

lemma sim_reachable_inv:
  assumes "sim_reachable os n sm" "os_ok SIM_PANICS os"
  shows "sim_inv n sm"
  using assms(1)
proof (induction rule: sim_reachable.induct)
  case (configured sm dr rr cap ps hs)
  then show ?case by (auto intro!: sim_inv_network simp: sim_inv_def net_ok_def net_wf_def)
next
  case (workload sm count over_ticks cp)
  then show ?case by (auto simp: sim_inv_def dest: generate_workload_plan)
next
  case (commanded sm a t m cp)
  then show ?case by (auto simp: sim_inv_def dest: schedule_command_plan)
next
  case (partitioned sm a sm')
  then show ?case
    by (auto simp: sim_partition_agent_def and_then_Inr intro!: sim_inv_network net_ok_ops(2) [OF sim_inv_net])
next
  case (lost sm a sm')
  then obtain nw where nw: "discard_session_queues a (sm_network sm) = Inr nw"
    "sm' = sm\<lparr>sm_network := nw, sm_workers := (sm_workers sm)[a := on_connection_lost (sm_workers sm ! a)]\<rparr>"
    by (auto simp: lose_agent_session_def and_then_Inr)
  with net_ok_ops(6) [OF sim_inv_net [OF lost.IH] nw(1)] lost.IH show ?case
    by (auto simp: sim_inv_def intro!: lost_workers_at)
next
  case (retried sm a sm')
  then show ?case by (auto simp: retry_agent_registration_def and_then_Inr sim_inv_def intro!: lost_workers_at)
next
  case (faults sm a config sm')
  then show ?case by (auto simp: set_runtime_faults_def and_then_Inr sim_inv_def)
next
  case (ticked sm sched sm')
  with sim_tick_ok [OF ticked.IH ticked(2) assms(2), of sched] show ?case by auto
next
  case (sent sm a m t nw)
  then show ?case by (auto intro!: sim_inv_network net_ok_ops(1) [OF sim_inv_net])
next
  case (healed_one sm a t nw)
  then show ?case by (auto intro!: sim_inv_network net_ok_ops(3) [OF sim_inv_net])
qed (auto intro!: simulator_new_inv sim_inv_network net_ok_ops(4,5) [OF sim_inv_net]
    simp: sim_heal_all_def sim_force_heal_all_def)

section \<open>Properties\<close>

lemma agent_step_returns: "agent_step os sched i sm \<noteq> None"
proof -
  have "tick (sim_worker_ctx os simulated_io) sch s \<noteq> None" for sch s
    using sio.tick_returns [of "sim_worker_ctx os simulated_io" sch s] by (auto simp: sim_worker_ctx_def)
  then show ?thesis
    unfolding agent_step_def tick_worker_def by (intro bind_run_Some) simp_all
qed

lemma sim_tick_some: "sim_tick os sched sm \<noteq> None"
proof -
  have "fold_run (agent_step os sched) agents sm \<noteq> None" for agents sm
  proof (induction agents arbitrary: sm)
    case (Cons i agents)
    then show ?case unfolding fold_run.simps by (intro bind_run_Some agent_step_returns)
  qed simp
  then show ?thesis
    unfolding sim_tick_def Let_def by (intro bind_run_Some) simp_all
qed

text \<open>
  C37. A simulator tick always returns: the loops that deliver messages in either direction, the
  receive loop of every worker and all else end, from every state, whatever the fault rates.
\<close>

theorem sim_tick_terminates: "\<exists>r. sim_tick os sched sm = Some r"
  using sim_tick_some by fast

text \<open>
  C4. What the safety checker can report: in every state a simulation can reach, with any number of
  agents, seeds, workloads, fault rates, partitions and schedules, the checker has recorded no
  accounting violation and no heartbeat violation; every recorded violation is an illegal pod
  transition, and their number is the counter the runner looks at. All workers satisfy the worker
  invariant and all links are drained.
\<close>

theorem simulation_safe:
  assumes "sim_reachable os n sm" and "os_ok SIM_PANICS os"
  shows "list_all is_transition (ck_violations (sm_checker sm))
    \<and> ck_safety_violations (sm_checker sm) = word_of_nat (length (ck_violations (sm_checker sm)))
    \<and> list_all worker_inv (sm_workers sm) \<and> list_all idle_io (sm_ios sm)"
  using sim_reachable_inv [OF assms]
  by (auto simp: sim_inv_def checker_ok_def counts_violations_def worker_at_def list_all_iff)

text \<open>
  C40. What can stop a simulation: a tick from a reachable state either gives a reachable state or
  panics, and then because a worker staged more than 256 messages in one tick, because the control
  plane received more than 16384 messages, or because the scan of a worker met a pruned tombstone.
  In particular the bounded queues of the network and the inbound staging never overflow.
\<close>

theorem simulation_panics:
  assumes "sim_reachable os n sm" and "os_ok SIM_PANICS os" and "unat (sm_current_tick sm) + 101 < 2 ^ 64"
  shows "(\<exists>sm'. sim_tick os sched sm = Some (Inr sm') \<and> sim_reachable os n sm')
    \<or> (\<exists>e \<in> {OUTBOUND_EXCEEDED, MISSING_KEY, RECEIVED_EXCEEDED}. sim_tick os sched sm = Some (Inl e))"
proof -
  obtain r where r: "sim_tick os sched sm = Some r"
      "outcome SIM_PANICS (\<lambda>sm'. sim_inv n sm' \<and> sm_current_tick sm' = sm_current_tick sm + 1) r"
    using sim_tick_ok [OF sim_reachable_inv [OF assms(1,2)] assms(3,2), of sched] by blast
  show ?thesis
  proof (cases r)
    case (Inl e)
    with r show ?thesis by (simp add: SIM_PANICS_def)
  next
    case (Inr sm')
    with r(1) sim_reachable.ticked [OF assms(1,3), of sched sm'] show ?thesis by simp
  qed
qed

lemma sample_os_sim_ok: "os_ok SIM_PANICS sample_os"
  by (simp add: os_ok_def sample_os_def yields_def ret_def)

section \<open>A concrete simulation\<close>

text \<open>The first tick of one agent: it registers, and the registration is on its way.\<close>

definition sim0 :: "nat simulator" where
  "sim0 = simulator_new sample_os 5 1 7"

definition sim1 :: "nat simulator" where
  "sim1 = sim0\<lparr>sm_current_tick := 1\<rparr>"

definition agent1 :: worker where
  "agent1 = hd (sm_workers sim1)"

lemma sim1_collect: "fold_res collect_outbound [0..<1] sim1 = Inr sim1"
  by (simp add: collect_outbound_def deliver_outbound.simps [of 0] pop_outbound_def sim1_def sim0_def simulator_new_def
        simulator_new_with_def network_new_def pop_queue_def prng_init_def)

lemma sim1_issue: "issue_commands sim1 = Inr sim1"
  by (simp add: issue_commands_def commands_for_tick_def sim1_def sim0_def simulator_new_def simulator_new_with_def
        control_plane_new_def)

lemma sim1_feed: "feed_inbound 0 sim1 = Inr (sim1\<lparr>sm_ios := [(sim_io_new 7)\<lparr>si_current_tick := 1\<rparr>]\<rparr>)"
  by (simp add: feed_inbound_def deliver_inbound.simps [of 0] pop_inbound_def sim1_def sim0_def simulator_new_def
        simulator_new_with_def network_new_def pop_queue_def maybe_crash_pods_def sim_runtime_new_def
        fault_config_default_def is_zero_def ratio_zero_def)

definition sim1_fed :: "nat simulator" where
  "sim1_fed = sim1\<lparr>sm_ios := [(sim_io_new 7)\<lparr>si_current_tick := 1\<rparr>]\<rparr>"

definition sys1 :: "(sim_runtime \<times> nat, sim_io) sys" where
  "sys1 = \<lparr>sy_worker = agent1\<lparr>wk_registered := True, wk_last_heartbeat_tick := 1\<rparr>,
     sy_env = (sim_runtime_new 7 fault_config_default, 5),
     sy_io = (sim_io_new 7)\<lparr>si_current_tick := 1, si_outbound := [register_msg agent1]\<rparr>,
     sy_out = [register_msg agent1]\<rparr>"

lemmas sim1_defs = sim1_fed_def sys1_def agent1_def sim1_def sim0_def simulator_new_def simulator_new_with_def
  new_with_lifecycle_concurrency_def worker_new_def sim_io_new_def

lemma agent1_tick:
  "tick (sim_worker_ctx sample_os simulated_io) sched
     \<lparr>sy_worker = sm_workers sim1_fed ! 0, sy_env = (sm_runtimes sim1_fed ! 0, sm_host sim1_fed),
      sy_io = sm_ios sim1_fed ! 0, sy_out = []\<rparr> = Some (Inr sys1)"
proof -
  let ?cx = "sim_worker_ctx sample_os simulated_io"
  have "recv_loop ?cx now sys1 = Some (Inr sys1)" for now
    by (subst recv_loop.simps) (simp add: sim_worker_ctx_def simulated_io_def sim_recv_def sim1_defs)
  moreover have "register_step ?cx 1 \<lparr>sy_worker = sm_workers sim1_fed ! 0,
      sy_env = (sm_runtimes sim1_fed ! 0, sm_host sim1_fed), sy_io = sm_ios sim1_fed ! 0, sy_out = []\<rparr> = Inr sys1"
    by (simp add: register_step_def sim1_defs send_def sim_worker_ctx_def simulated_io_def sim_send_def
          STAGING_CAPACITY_def modify_worker_def)
  moreover have "drive_pods ?cx sched now sys1 = Inr sys1" for now
    by (simp add: drive_pods_def scan_pods_def sim1_defs hm_eval call_def run_chunks.simps ret_def)
  moreover have "heartbeat_step ?cx 1 sys1 = Inr sys1"
    by (simp add: heartbeat_step_def sim1_defs worker_consts word_le_nat_alt)
  moreover have "io_now (cx_io ?cx) (sm_ios sim1_fed ! 0) = 1"
    by (simp add: sim_worker_ctx_def simulated_io_def sim1_defs)
  ultimately show ?thesis by (simp add: tick_def Let_def)
qed

lemma sim1_mid: "sim_mid 1 1 0 sim1"
proof -
  have inv: "sim_inv 1 sim0"
    unfolding sim0_def simulator_new_def by (rule simulator_new_inv)
  have "sm_current_tick sim0 = 0" by (simp add: sim0_def simulator_new_def simulator_new_with_def)
  then have "list_all (worker_at 1) (sm_workers sim1)"
    using inv by (auto simp: sim_inv_def sim1_def list_all_iff worker_at_def)
  then show ?thesis using inv by (simp add: sim_mid_def sim_inv_def sim1_def)
qed

lemma sim1_agent: "\<exists>sm. agent_step sample_os (\<lambda>_ _. []) 0 sim1 = Some (Inr sm) \<and> sim_mid 1 1 1 sm"
proof -
  have "serving 1 1 0 (\<lambda>io. si_outbound io = [] \<and> si_current_tick io = 1) sim1_fed"
    using feed_inbound_ok [OF sim1_mid] by (simp add: sim1_feed sim1_fed_def)
  from tick_worker_ok [OF this sample_os_sim_ok, of "\<lambda>_. []"] obtain sm2 where
    sm2: "tick_worker sample_os (\<lambda>_. []) 0 sim1_fed = Some (Inr sm2)" "served 1 1 0 sm2"
    unfolding tick_worker_def agent1_tick by (auto simp: bind_run_def)
  with flush_outbound_ok [OF sm2(2)] show ?thesis
    by (auto simp: agent_step_def bind_run_def sim1_feed sim1_fed_def)
qed

lemma first_tick:
  "\<exists>sm. sim_tick sample_os (\<lambda>_ _. []) sim0 = Some (Inr sm)"
proof -
  obtain sm2 where sm2: "agent_step sample_os (\<lambda>_ _. []) 0 sim1 = Some (Inr sm2)" "sim_mid 1 1 1 sm2"
    using sim1_agent by blast
  have count: "sm_agent_count sim1 = 1" "sm_current_tick sim0 = 0"
    by (simp_all add: sim1_def sim0_def simulator_new_def simulator_new_with_def)
  show ?thesis
    using sim1_collect sim1_issue sm2 check_agent_ok [OF sm2(2)]
    by (auto simp: sim_tick_def Let_def count sim1_def [symmetric] bind_run_def)
qed

theorem simulation_safe_witness:
  "\<exists>sm. sim_tick sample_os (\<lambda>_ _. []) sim0 = Some (Inr sm)
     \<and> list_all is_transition (ck_violations (sm_checker sm)) \<and> list_all worker_inv (sm_workers sm)"
proof -
  obtain sm where t: "sim_tick sample_os (\<lambda>_ _. []) sim0 = Some (Inr sm)"
    using first_tick by blast
  have "sim_reachable sample_os 1 sim0"
    unfolding sim0_def simulator_new_def by (rule sim_reachable.created)
  then have "sim_reachable sample_os 1 sm"
    by (rule sim_reachable.ticked [OF _ _ t]) (simp add: sim0_def simulator_new_def simulator_new_with_def)
  from simulation_safe [OF this sample_os_sim_ok] t show ?thesis by blast
qed

theorem simulation_panics_witness:
  "(\<exists>sm'. sim_tick sample_os (\<lambda>_ _. []) (simulator_new sample_os 5 3 7) = Some (Inr sm') \<and> sim_reachable sample_os 3 sm')
    \<or> (\<exists>e \<in> {OUTBOUND_EXCEEDED, MISSING_KEY, RECEIVED_EXCEEDED}.
         sim_tick sample_os (\<lambda>_ _. []) (simulator_new sample_os 5 3 7) = Some (Inl e))"
proof (rule simulation_panics [OF _ sample_os_sim_ok])
  show "sim_reachable sample_os 3 (simulator_new sample_os 5 3 7)"
    unfolding simulator_new_def by (rule sim_reachable.created)
qed (simp add: sim0_def simulator_new_def simulator_new_with_def)

end
