(* ===== verification/Sim_Runner.thy ===== *)
theory Sim_Runner
  imports Sim_Safety
begin

text \<open>
  The simulation runner of \<^verbatim>\<open>worker/src/sim/runner.rs\<close>: a safety phase with random partitions, heals
  and pauses, then a liveness phase without faults that ends when the control plane has heard from
  every agent about every pod. The runner's result is paired with the simulator it ends with. Each
  tick runs under a schedule of its own.
\<close>

section \<open>Model\<close>

definition LIVENESS_RETRY_GRACE_TICKS :: u64 where
  "LIVENESS_RETRY_GRACE_TICKS =
     (if LIFECYCLE_FIRST_RETRY_DELAY_TICKS + 100 > 200 then LIFECYCLE_FIRST_RETRY_DELAY_TICKS + 100 else 200)"

record sim_config =
  sc_seed :: u64
  sc_agent_count :: nat
  sc_safety_ticks :: u64
  sc_liveness_ticks :: u64
  sc_pod_count :: u32
  sc_partition_probability :: ratio
  sc_heal_probability :: ratio
  sc_pause_probability :: ratio
  sc_image_pull_failure_rate :: ratio
  sc_container_crash_rate :: ratio
  sc_gpu_failure_rate :: ratio
  sc_partition_stability :: u64
  sc_heal_stability :: u64
  sc_pause_stability :: u64
  sc_drop_rate :: ratio
  sc_replay_rate :: ratio
  sc_path_max_capacity :: nat

definition sim_config_default :: sim_config where
  "sim_config_default =
     \<lparr>sc_seed = 42, sc_agent_count = 3, sc_safety_ticks = 500, sc_liveness_ticks = LIVENESS_RETRY_GRACE_TICKS,
      sc_pod_count = 20, sc_partition_probability = ratio_new 2 100, sc_heal_probability = ratio_new 5 100,
      sc_pause_probability = ratio_new 1 100, sc_image_pull_failure_rate = ratio_new 5 100,
      sc_container_crash_rate = ratio_new 1 100, sc_gpu_failure_rate = ratio_new 1 100,
      sc_partition_stability = 15, sc_heal_stability = 10, sc_pause_stability = 10,
      sc_drop_rate = ratio_zero, sc_replay_rate = ratio_zero, sc_path_max_capacity = 0\<rparr>"

datatype run_verdict = Passed | SafetyViolation | LivenessFailure

record sim_result =
  rs_seed :: u64
  rs_phase1_ticks :: u64
  rs_phase2_ticks :: u64
  rs_safety_violations :: u64
  rs_outcome :: run_verdict
  rs_convergence_ticks :: u64
  rs_messages_sent :: u64

subsection \<open>Convergence\<close>

definition registered_since :: "'h simulator \<Rightarrow> nat \<Rightarrow> nat \<Rightarrow> bool res" where
  "registered_since sm agent_id received_start =
     (let received = cp_received (sm_control_plane sm) in
      and_then (ensure (received_start \<le> length received)
                 ''assertion failed: received_start <= received.len()'') (\<lambda>_.
        Inr (list_ex (\<lambda>(_, received_agent_id, message).
               received_agent_id = agent_id \<and> (case message of NodeRegister _ \<Rightarrow> True | _ \<Rightarrow> False))
             (drop received_start received))))"

fun all_registered :: "'h simulator \<Rightarrow> nat \<Rightarrow> nat list \<Rightarrow> bool res" where
  "all_registered sm start [] = Inr True"
| "all_registered sm start (i # agents) =
     and_then (registered_since sm i start) (\<lambda>r. if r then all_registered sm start agents else Inr False)"

definition settled :: "tracked_pod \<Rightarrow> bool" where
  "settled pod = (case tp_state pod of Running \<Rightarrow> True | Stopped _ \<Rightarrow> True | Failed _ \<Rightarrow> True | _ \<Rightarrow> False)"

definition check_convergence :: "'h simulator \<Rightarrow> nat \<Rightarrow> bool res" where
  "check_convergence sm phase2_received_start =
     and_then (all_registered sm phase2_received_start [0..<length (sm_workers sm)]) (\<lambda>registered.
       Inr (registered
            \<and> list_all (start_resolved (sm_control_plane sm)) (cp_expected_starts (sm_control_plane sm))
            \<and> list_all (\<lambda>w. list_all settled (hm_values (wk_pods w))) (sm_workers sm)))"

subsection \<open>Phase 1\<close>

record 'h phase1 =
  p1_fault_prng :: prng
  p1_pause_until :: "u64 list"
  p1_sim :: "'h simulator"

definition maybe_partition :: "sim_config \<Rightarrow> 'h phase1 \<Rightarrow> 'h phase1 res" where
  "maybe_partition config p =
     and_then (chance_ratio (p1_fault_prng p) (sc_partition_probability config)) (\<lambda>(hit, g).
       if hit then
         and_then (bounded g (word_of_nat (sc_agent_count config))) (\<lambda>(target, g1).
         and_then (sim_partition_agent (unat target) (p1_sim p)) (\<lambda>sm.
           Inr (p\<lparr>p1_fault_prng := g1, p1_sim := sm\<rparr>)))
       else Inr (p\<lparr>p1_fault_prng := g\<rparr>))"

definition maybe_heal :: "sim_config \<Rightarrow> 'h phase1 \<Rightarrow> 'h phase1 res" where
  "maybe_heal config p =
     and_then (chance_ratio (p1_fault_prng p) (sc_heal_probability config)) (\<lambda>(hit, g).
       Inr (p\<lparr>p1_fault_prng := g, p1_sim := (if hit then sim_heal_all (p1_sim p) else p1_sim p)\<rparr>))"

definition maybe_pause :: "sim_config \<Rightarrow> u64 \<Rightarrow> 'h phase1 \<Rightarrow> 'h phase1 res" where
  "maybe_pause config t p =
     and_then (chance_ratio (p1_fault_prng p) (sc_pause_probability config)) (\<lambda>(hit, g).
       if hit then
         and_then (bounded g (word_of_nat (sc_agent_count config))) (\<lambda>(target, g1).
         and_then (index_at (p1_pause_until p) (unat target)) (\<lambda>until.
           if until \<le> t then
             and_then (bounded g1 30) (\<lambda>(d, g2).
             and_then (sim_partition_agent (unat target) (p1_sim p)) (\<lambda>sm.
               Inr (p\<lparr>p1_fault_prng := g2,
                      p1_pause_until := (p1_pause_until p)[unat target := t + (sc_pause_stability config + d)],
                      p1_sim := sm\<rparr>)))
           else Inr (p\<lparr>p1_fault_prng := g1\<rparr>)))
       else Inr (p\<lparr>p1_fault_prng := g\<rparr>))"

definition maybe_resume :: "u64 \<Rightarrow> nat \<Rightarrow> 'h phase1 \<Rightarrow> 'h phase1 res" where
  "maybe_resume t i p =
     and_then (index_at (p1_pause_until p) i) (\<lambda>until.
       if until > 0 \<and> t \<ge> until then
         and_then (heal_one i t (sm_network (p1_sim p))) (\<lambda>nw.
           Inr (p\<lparr>p1_pause_until := (p1_pause_until p)[i := 0],
                  p1_sim := (p1_sim p)\<lparr>sm_network := nw\<rparr>\<rparr>))
       else Inr p)"

definition phase1_faults :: "sim_config \<Rightarrow> u64 \<Rightarrow> 'h phase1 \<Rightarrow> 'h phase1 res" where
  "phase1_faults config t p =
     and_then (maybe_partition config p) (\<lambda>p1.
     and_then (maybe_heal config p1) (\<lambda>p2.
     and_then (maybe_pause config t p2) (\<lambda>p3.
       fold_res (maybe_resume t) [0..<sc_agent_count config] p3)))"

definition result_of ::
    "sim_config \<Rightarrow> 'h simulator \<Rightarrow> u64 \<Rightarrow> u64 \<Rightarrow> u64 \<Rightarrow> run_verdict \<Rightarrow> u64 \<Rightarrow> sim_result" where
  "result_of config sm phase1_ticks phase2_ticks violations verdict convergence_ticks =
     \<lparr>rs_seed = sc_seed config, rs_phase1_ticks = phase1_ticks, rs_phase2_ticks = phase2_ticks,
      rs_safety_violations = violations, rs_outcome = verdict, rs_convergence_ticks = convergence_ticks,
      rs_messages_sent = total_messages (sm_network sm)\<rparr>"

text \<open>A phase ends the run with a result, or goes on with the ticks it took.\<close>

datatype 'h phase_end = Returned sim_result "'h simulator" | Continued u64 "'h simulator"

type_synonym schedules = "u64 \<Rightarrow> nat \<Rightarrow> nat \<Rightarrow> nat list"

primrec phase1_loop ::
    "'h os \<Rightarrow> schedules \<Rightarrow> sim_config \<Rightarrow> nat \<Rightarrow> u64 \<Rightarrow> 'h phase1 \<Rightarrow> 'h phase_end res option" where
  "phase1_loop os sched config 0 t p = Some (Inr (Continued t (p1_sim p)))"
| "phase1_loop os sched config (Suc n) t p =
     bind_run (Some (phase1_faults config t p)) (\<lambda>p1.
     bind_run (sim_tick os (sched (sm_current_tick (p1_sim p1))) (p1_sim p1)) (\<lambda>sm.
       if ck_safety_violations (sm_checker sm) > 0 then
         Some (Inr (Returned (result_of config sm (t + 1) 0 (ck_safety_violations (sm_checker sm))
                                SafetyViolation 0) sm))
       else phase1_loop os sched config n (t + 1) (p1\<lparr>p1_sim := sm\<rparr>)))"

subsection \<open>Phase 2\<close>

definition retry_registration :: "nat \<Rightarrow> nat \<Rightarrow> 'h simulator \<Rightarrow> 'h simulator res" where
  "retry_registration received_start agent_id sm =
     and_then (registered_since sm agent_id received_start) (\<lambda>registered.
       if \<not> registered then retry_agent_registration agent_id sm else Inr sm)"

definition send_recovery :: "'h simulator \<Rightarrow> 'h simulator res" where
  "send_recovery sm =
     and_then (unresolved_start_recovery_commands (sm_control_plane sm)) (\<lambda>commands.
     and_then (fold_res (\<lambda>(agent_id, command). send_to_agent agent_id command (sm_current_tick sm))
                 commands (sm_network sm)) (\<lambda>nw. Inr (sm\<lparr>sm_network := nw\<rparr>)))"

primrec phase2_loop ::
    "'h os \<Rightarrow> schedules \<Rightarrow> sim_config \<Rightarrow> u64 \<Rightarrow> nat \<Rightarrow> nat \<Rightarrow> u64 \<Rightarrow> 'h simulator \<Rightarrow> 'h phase_end res option" where
  "phase2_loop os sched config phase1_ticks start 0 t sm = Some (Inr (Continued t sm))"
| "phase2_loop os sched config phase1_ticks start (Suc n) t sm =
     bind_run (Some (and_then (fold_res (retry_registration start) [0..<sc_agent_count config] sm) send_recovery)) (\<lambda>sm1.
     bind_run (sim_tick os (sched (sm_current_tick sm1)) sm1) (\<lambda>sm2.
       if ck_safety_violations (sm_checker sm2) > 0 then
         Some (Inr (Returned (result_of config sm2 phase1_ticks (t + 1)
                                (ck_safety_violations (sm_checker sm2)) SafetyViolation 0) sm2))
       else
         bind_run (Some (check_convergence sm2 start)) (\<lambda>converged.
           if converged then Some (Inr (Returned (result_of config sm2 phase1_ticks (t + 1) 0 Passed (t + 1)) sm2))
           else phase2_loop os sched config phase1_ticks start n (t + 1) sm2)))"

subsection \<open>The run\<close>

definition configure_network :: "sim_config \<Rightarrow> network \<Rightarrow> network" where
  "configure_network config nw =
     nw\<lparr>nw_drop_rate := sc_drop_rate config, nw_replay_rate := sc_replay_rate config,
        nw_path_max_capacity := sc_path_max_capacity config,
        nw_partition_stability := sc_partition_stability config,
        nw_heal_stability := sc_heal_stability config\<rparr>"

definition phase1_fault_config :: "sim_config \<Rightarrow> fault_config" where
  "phase1_fault_config config =
     \<lparr>fc_image_pull_failure_rate = sc_image_pull_failure_rate config,
      fc_container_crash_rate = sc_container_crash_rate config,
      fc_gpu_failure_rate = sc_gpu_failure_rate config,
      fc_create_failure_rate = ratio_zero, fc_stop_failure_rate = ratio_zero\<rparr>"

definition run_setup :: "'h os \<Rightarrow> 'h \<Rightarrow> sim_config \<Rightarrow> 'h simulator res" where
  "run_setup os host config =
     (let sm = simulator_new os host (sc_agent_count config) (sc_seed config);
          sm1 = sm\<lparr>sm_network := configure_network config (sm_network sm)\<rparr>
      in and_then (fold_res (\<lambda>i. set_runtime_faults i (phase1_fault_config config)) [0..<sc_agent_count config] sm1) (\<lambda>sm2.
         and_then (generate_workload (sc_agent_count config) (sc_pod_count config) (sc_safety_ticks config)
                     (sm_control_plane sm2)) (\<lambda>cp. Inr (sm2\<lparr>sm_control_plane := cp\<rparr>))))"

definition restart_agent :: "nat \<Rightarrow> 'h simulator \<Rightarrow> 'h simulator res" where
  "restart_agent i sm = and_then (set_runtime_faults i fault_config_default sm) (lose_agent_session i)"

definition start_phase2 :: "sim_config \<Rightarrow> 'h simulator \<Rightarrow> 'h simulator res" where
  "start_phase2 config sm = fold_res restart_agent [0..<sc_agent_count config] (sim_force_heal_all sm)"

definition run_phase2 ::
    "'h os \<Rightarrow> schedules \<Rightarrow> sim_config \<Rightarrow> u64 \<Rightarrow> 'h simulator \<Rightarrow> (sim_result \<times> 'h simulator) res option" where
  "run_phase2 os sched config phase1_ticks sm =
     bind_run (Some (start_phase2 config sm)) (\<lambda>sm2.
     bind_run (phase2_loop os sched config phase1_ticks (length (cp_received (sm_control_plane sm2)))
                (unat (sc_liveness_ticks config)) 0 sm2) (\<lambda>end2.
       case end2 of
         Returned res sm3 \<Rightarrow> Some (Inr (res, sm3))
       | Continued phase2_ticks sm3 \<Rightarrow>
           bind_run (Some (unresolved_start_recovery_commands (sm_control_plane sm3))) (\<lambda>_.
             Some (Inr (result_of config sm3 phase1_ticks phase2_ticks
                          (ck_safety_violations (sm_checker sm3)) LivenessFailure 0, sm3)))))"

definition phase1_start :: "sim_config \<Rightarrow> 'h simulator \<Rightarrow> 'h phase1" where
  "phase1_start config sm =
     \<lparr>p1_fault_prng = prng_init (sc_seed config + 0xFA17),
      p1_pause_until = replicate (sc_agent_count config) 0, p1_sim = sm\<rparr>"

definition run :: "'h os \<Rightarrow> 'h \<Rightarrow> schedules \<Rightarrow> sim_config \<Rightarrow> (sim_result \<times> 'h simulator) res option" where
  "run os host sched config =
     bind_run (Some (run_setup os host config)) (\<lambda>sm.
     bind_run (phase1_loop os sched config (unat (sc_safety_ticks config)) 0 (phase1_start config sm)) (\<lambda>end1.
       case end1 of
         Returned res sm1 \<Rightarrow> Some (Inr (res, sm1))
       | Continued phase1_ticks sm1 \<Rightarrow> run_phase2 os sched config phase1_ticks sm1))"

section \<open>The run stays within the reachable states\<close>

text \<open>What the operations between two ticks keep.\<close>

definition quiet :: "'h os \<Rightarrow> nat \<Rightarrow> 'h simulator \<Rightarrow> 'h simulator \<Rightarrow> bool" where
  "quiet os n sm sm' =
     (sim_reachable os n sm \<longrightarrow> sim_reachable os n sm' \<and> sm_current_tick sm' = sm_current_tick sm
        \<and> sm_checker sm' = sm_checker sm)"

lemma quiet_refl [simp]: "quiet os n sm sm"
  by (simp add: quiet_def)

lemma quiet_trans: "quiet os n x y \<Longrightarrow> quiet os n y z \<Longrightarrow> quiet os n x z"
  by (auto simp: quiet_def)

lemma quiet_partition:
  assumes "sim_partition_agent a sm = Inr sm'"
  shows "quiet os n sm sm'"
  using assms sim_reachable.partitioned [OF _ assms] by (auto simp: quiet_def sim_partition_agent_def and_then_Inr)

lemma quiet_heal_one: "heal_one a t (sm_network sm) = Inr nw \<Longrightarrow> quiet os n sm (sm\<lparr>sm_network := nw\<rparr>)"
  by (auto simp: quiet_def intro: sim_reachable.healed_one)

lemma quiet_send: "send_to_agent a m t (sm_network sm) = Inr nw \<Longrightarrow> quiet os n sm (sm\<lparr>sm_network := nw\<rparr>)"
  by (auto simp: quiet_def intro: sim_reachable.sent)

lemma quiet_heals: "quiet os n sm (sim_heal_all sm)" "quiet os n sm (sim_force_heal_all sm)"
  by (auto simp: quiet_def sim_reachable.healed sim_reachable.force_healed) (simp_all add: sim_heal_all_def sim_force_heal_all_def)

lemma quiet_lose:
  assumes "lose_agent_session a sm = Inr sm'"
  shows "quiet os n sm sm'"
  using assms sim_reachable.lost [OF _ assms] by (auto simp: quiet_def lose_agent_session_def and_then_Inr)

lemma quiet_retry:
  assumes "retry_agent_registration a sm = Inr sm'"
  shows "quiet os n sm sm'"
  using assms sim_reachable.retried [OF _ assms] by (auto simp: quiet_def retry_agent_registration_def and_then_Inr)

lemma quiet_faults:
  assumes "set_runtime_faults a c sm = Inr sm'"
  shows "quiet os n sm sm'"
  using assms sim_reachable.faults [OF _ assms] by (auto simp: quiet_def set_runtime_faults_def and_then_Inr)

lemma quiet_workload:
  assumes "generate_workload n c t (sm_control_plane sm) = Inr cp"
  shows "quiet os n sm (sm\<lparr>sm_control_plane := cp\<rparr>)"
  using sim_reachable.workload [OF _ assms] by (auto simp: quiet_def)

lemma quiet_fold:
  assumes "fold_res f xs sm = Inr sm'" "\<And>x s t. f x s = Inr t \<Longrightarrow> quiet os n s t"
  shows "quiet os n sm sm'"
  by (rule fold_res_inv [OF assms(1), where I = "quiet os n sm"]) (simp, blast intro: quiet_trans assms(2))

lemma quiet_send_fold:
  assumes "fold_res (\<lambda>(a, m). send_to_agent a m t) cmds (sm_network sm) = Inr nw"
  shows "quiet os n sm (sm\<lparr>sm_network := nw\<rparr>)"
proof (rule fold_res_inv [OF assms, where I = "\<lambda>nw. quiet os n sm (sm\<lparr>sm_network := nw\<rparr>)"])
  show "quiet os n sm (sm\<lparr>sm_network := nw2\<rparr>)"
    if "quiet os n sm (sm\<lparr>sm_network := nw1\<rparr>)" "(\<lambda>(a, m). send_to_agent a m t) c nw1 = Inr nw2" for c nw1 nw2
    using quiet_trans [OF that(1)] quiet_send [of _ _ t "sm\<lparr>sm_network := nw1\<rparr>" nw2] that(2) by (auto split: prod.splits)
qed simp

lemma quiet_phase1_faults:
  assumes "phase1_faults config t p = Inr p'"
  shows "quiet os n (p1_sim p) (p1_sim p')"
proof -
  from assms obtain p1 p2 p3 where p: "maybe_partition config p = Inr p1" "maybe_heal config p1 = Inr p2"
      "maybe_pause config t p2 = Inr p3" "fold_res (maybe_resume t) [0..<sc_agent_count config] p3 = Inr p'"
    by (auto simp: phase1_faults_def and_then_Inr)
  have "quiet os n (p1_sim p) (p1_sim p1)"
    using p(1) by (auto simp: maybe_partition_def and_then_Inr split: if_splits intro: quiet_partition)
  moreover have "quiet os n (p1_sim p1) (p1_sim p2)"
    using p(2) by (auto simp: maybe_heal_def and_then_Inr quiet_heals)
  moreover have "quiet os n (p1_sim p2) (p1_sim p3)"
    using p(3) by (auto simp: maybe_pause_def and_then_Inr split: if_splits intro: quiet_partition)
  moreover have "quiet os n (p1_sim q) (p1_sim q')" if "maybe_resume t i q = Inr q'" for i q q'
    using that by (auto simp: maybe_resume_def and_then_Inr split: if_splits intro: quiet_heal_one)
  then have "quiet os n (p1_sim p3) (p1_sim p')"
    using fold_res_inv [OF p(4), where I = "\<lambda>q. quiet os n (p1_sim p3) (p1_sim q)"] quiet_trans by (metis quiet_refl)
  ultimately show ?thesis using quiet_trans by blast
qed

lemma quiet_recovery: "send_recovery sm = Inr sm' \<Longrightarrow> quiet os n sm sm'"
  by (auto simp: send_recovery_def and_then_Inr intro: quiet_send_fold)

lemma quiet_retry_registration: "retry_registration start a sm = Inr sm' \<Longrightarrow> quiet os n sm sm'"
  by (auto simp: retry_registration_def and_then_Inr split: if_splits intro: quiet_retry)

lemma quiet_start_phase2:
  assumes "start_phase2 config sm = Inr sm'"
  shows "quiet os n sm sm'"
proof -
  have "quiet os n (sim_force_heal_all sm) sm'"
    using assms unfolding start_phase2_def
    by (rule quiet_fold) (auto simp: restart_agent_def and_then_Inr intro: quiet_trans [OF quiet_faults quiet_lose])
  then show ?thesis using quiet_trans [OF quiet_heals(2)] by blast
qed

section \<open>The loops\<close>

text \<open>A state the run passes through with no violation seen and \<open>k\<close> ticks to go.\<close>

definition clean :: "'h os \<Rightarrow> nat \<Rightarrow> nat \<Rightarrow> 'h simulator \<Rightarrow> bool" where
  "clean os n k sm =
     (sim_reachable os n sm \<and> ck_safety_violations (sm_checker sm) = 0
      \<and> unat (sm_current_tick sm) + k + 101 < 2 ^ 64)"

lemma clean_quiet: "clean os n k sm \<Longrightarrow> quiet os n sm sm' \<Longrightarrow> clean os n k sm'"
  by (simp add: clean_def quiet_def)

lemma clean_tick:
  assumes "clean os n (Suc k) sm" "os_ok SIM_PANICS os" "sim_tick os sched sm = Some (Inr sm')"
  shows "sim_reachable os n sm'" "ck_safety_violations (sm_checker sm') = 0 \<Longrightarrow> clean os n k sm'"
proof -
  have r: "sim_reachable os n sm" and lt: "unat (sm_current_tick sm) + 101 < 2 ^ 64"
    using assms(1) by (simp_all add: clean_def)
  show "sim_reachable os n sm'" by (rule sim_reachable.ticked [OF r lt assms(3)])
  moreover have "sm_current_tick sm' = sm_current_tick sm + 1"
    using sim_tick_ok [OF sim_reachable_inv [OF r assms(2)] lt assms(2), of sched] assms(3) by auto
  ultimately show "clean os n k sm'" if "ck_safety_violations (sm_checker sm') = 0"
    using assms(1) that by (simp add: clean_def unat_add_no_overflow)
qed

definition violated :: "'h os \<Rightarrow> nat \<Rightarrow> sim_result \<Rightarrow> 'h simulator \<Rightarrow> bool" where
  "violated os n res sm =
     (sim_reachable os n sm \<and> rs_outcome res = SafetyViolation
      \<and> rs_safety_violations res = ck_safety_violations (sm_checker sm) \<and> rs_safety_violations res > 0)"

lemma phase1_sound:
  assumes "phase1_loop os sched config k t p = Some (Inr pe)" "os_ok SIM_PANICS os"
    "clean os n (k + l) (p1_sim p)" "unat t + k < 2 ^ 64"
  shows "case pe of Returned res sm \<Rightarrow> violated os n res sm | Continued t' sm \<Rightarrow> clean os n l sm \<and> unat t' = unat t + k"
  using assms(1,3,4)
proof (induction k arbitrary: t p)
  case (Suc k)
  from Suc.prems(1) obtain p1 sm where p1: "phase1_faults config t p = Inr p1"
      "sim_tick os (sched (sm_current_tick (p1_sim p1))) (p1_sim p1) = Some (Inr sm)"
      "(if ck_safety_violations (sm_checker sm) > 0 then
         Some (Inr (Returned (result_of config sm (t + 1) 0 (ck_safety_violations (sm_checker sm)) SafetyViolation 0) sm))
       else phase1_loop os sched config k (t + 1) (p1\<lparr>p1_sim := sm\<rparr>)) = Some (Inr pe)"
    by (auto elim!: bind_run_SomeE)
  have "clean os n (Suc (k + l)) (p1_sim p1)"
    using clean_quiet [OF Suc.prems(2) quiet_phase1_faults [OF p1(1)]] by simp
  note tick = clean_tick [OF this assms(2) p1(2)]
  show ?case
  proof (cases "ck_safety_violations (sm_checker sm) > 0")
    case True
    with p1(3) tick(1) show ?thesis by (auto simp: violated_def result_of_def)
  next
    case False
    then have "ck_safety_violations (sm_checker sm) = 0" by (simp add: word_gt_0)
    moreover have "unat (t + 1) = unat t + 1" using Suc.prems(3) by (simp add: unat_add_no_overflow)
    ultimately show ?thesis
      using Suc.IH [of "t + 1" "p1\<lparr>p1_sim := sm\<rparr>"] p1(3) False tick(2) Suc.prems(3) by (auto split: phase_end.splits)
  qed
qed auto

definition passed :: "'h os \<Rightarrow> nat \<Rightarrow> u64 \<Rightarrow> nat \<Rightarrow> nat \<Rightarrow> sim_result \<Rightarrow> 'h simulator \<Rightarrow> bool" where
  "passed os n phase1_ticks start limit res sm =
     (sim_reachable os n sm \<and> rs_outcome res = Passed \<and> rs_safety_violations res = 0
      \<and> ck_safety_violations (sm_checker sm) = 0 \<and> check_convergence sm start = Inr True
      \<and> rs_phase1_ticks res = phase1_ticks \<and> unat (rs_phase2_ticks res) \<le> limit
      \<and> rs_convergence_ticks res = rs_phase2_ticks res)"

lemma phase2_sound:
  assumes "phase2_loop os sched config phase1_ticks start k t sm = Some (Inr pe)" "os_ok SIM_PANICS os"
    "clean os n k sm" "unat t + k < 2 ^ 64"
  shows "case pe of Returned res sm' \<Rightarrow> violated os n res sm' \<or> passed os n phase1_ticks start (unat t + k) res sm'
    | Continued t' sm' \<Rightarrow> clean os n 0 sm' \<and> unat t' = unat t + k"
  using assms(1,3,4)
proof (induction k arbitrary: t sm)
  case (Suc k)
  from Suc.prems(1) obtain sm0 sm1 sm2 where sm:
      "fold_res (retry_registration start) [0..<sc_agent_count config] sm = Inr sm0" "send_recovery sm0 = Inr sm1"
      "sim_tick os (sched (sm_current_tick sm1)) sm1 = Some (Inr sm2)"
      "(if ck_safety_violations (sm_checker sm2) > 0 then
         Some (Inr (Returned (result_of config sm2 phase1_ticks (t + 1)
                                (ck_safety_violations (sm_checker sm2)) SafetyViolation 0) sm2))
       else
         bind_run (Some (check_convergence sm2 start)) (\<lambda>converged.
           if converged then Some (Inr (Returned (result_of config sm2 phase1_ticks (t + 1) 0 Passed (t + 1)) sm2))
           else phase2_loop os sched config phase1_ticks start k (t + 1) sm2)) = Some (Inr pe)"
    by (auto elim!: bind_run_SomeE simp: and_then_Inr)
  have "quiet os n sm sm1"
    by (rule quiet_trans [OF quiet_fold [OF sm(1)] quiet_recovery [OF sm(2)]]) (rule quiet_retry_registration)
  with Suc.prems(2) have "clean os n (Suc k) sm1" by (rule clean_quiet)
  note tick = clean_tick [OF this assms(2) sm(3)]
  have t1: "unat (t + 1) = unat t + 1" using Suc.prems(3) by (simp add: unat_add_no_overflow)
  show ?case
  proof (cases "ck_safety_violations (sm_checker sm2) > 0")
    case True
    with sm(4) tick(1) show ?thesis by (auto simp: violated_def result_of_def)
  next
    case False
    then have z: "ck_safety_violations (sm_checker sm2) = 0" by (simp add: word_gt_0)
    from sm(4) False obtain conv where c: "check_convergence sm2 start = Inr conv"
        "(if conv then Some (Inr (Returned (result_of config sm2 phase1_ticks (t + 1) 0 Passed (t + 1)) sm2))
          else phase2_loop os sched config phase1_ticks start k (t + 1) sm2) = Some (Inr pe)"
      by (auto elim!: bind_run_SomeE)
    show ?thesis
    proof (cases conv)
      case True
      with c z tick(1) t1 show ?thesis by (auto simp: passed_def result_of_def)
    next
      case False
      with c Suc.IH [of "t + 1" sm2] tick(2) [OF z] t1 Suc.prems(3) show ?thesis
        by (auto split: phase_end.splits simp: add.assoc)
    qed
  qed
qed auto

lemma run_setup_clean:
  assumes "run_setup os host config = Inr sm" "sc_agent_count config = n" "k + 101 < 2 ^ 64"
  shows "clean os n k sm"
proof -
  let ?sm0 = "simulator_new os host n (sc_seed config)"
  let ?sm1 = "?sm0\<lparr>sm_network := configure_network config (sm_network ?sm0)\<rparr>"
  from assms(1,2) obtain sm2 cp where
    2: "fold_res (\<lambda>i. set_runtime_faults i (phase1_fault_config config)) [0..<n] ?sm1 = Inr sm2"
      "generate_workload n (sc_pod_count config) (sc_safety_ticks config) (sm_control_plane sm2) = Inr cp"
      "sm = sm2\<lparr>sm_control_plane := cp\<rparr>"
    by (auto simp: run_setup_def Let_def and_then_Inr)
  have "sim_reachable os n ?sm0" unfolding simulator_new_def by (rule sim_reachable.created)
  then have "sim_reachable os n ?sm1"
    unfolding configure_network_def by (rule sim_reachable.configured)
  then have "clean os n k ?sm1"
    using assms(3) by (simp add: clean_def simulator_new_def simulator_new_with_def checker_new_def)
  then have "clean os n k sm2" by (rule clean_quiet [OF _ quiet_fold [OF 2(1)]]) (rule quiet_faults)
  then show ?thesis unfolding 2(3) by (rule clean_quiet [OF _ quiet_workload [OF 2(2)]])
qed

section \<open>What a tick leaves alone\<close>

text \<open>
  The schedule and the expected starts of the control plane and the session epochs do not change
  during a tick, and the log of received messages only grows.
\<close>

definition plan_frame :: "control_plane \<Rightarrow> control_plane \<Rightarrow> bool" where
  "plan_frame cp cp' =
     (cp_scheduled cp' = cp_scheduled cp \<and> cp_expected_starts cp' = cp_expected_starts cp
      \<and> length (cp_received cp) \<le> length (cp_received cp'))"

definition tick_frame :: "'h simulator \<Rightarrow> 'h simulator \<Rightarrow> bool" where
  "tick_frame sm sm' =
     (plan_frame (sm_control_plane sm) (sm_control_plane sm')
      \<and> nw_session_epochs (sm_network sm') = nw_session_epochs (sm_network sm))"

lemma plan_frame_refl [simp]: "plan_frame cp cp"
  by (simp add: plan_frame_def)

lemma plan_frame_trans: "plan_frame x y \<Longrightarrow> plan_frame y z \<Longrightarrow> plan_frame x z"
  by (simp add: plan_frame_def)

lemma tick_frame_refl [simp]: "tick_frame sm sm"
  by (simp add: tick_frame_def)

lemma tick_frame_trans: "tick_frame x y \<Longrightarrow> tick_frame y z \<Longrightarrow> tick_frame x z"
  by (auto simp: tick_frame_def intro: plan_frame_trans)

lemma deliver_outbound_frame:
  "deliver_outbound i now nw cp = Inr (nw', cp')
     \<Longrightarrow> nw_session_epochs nw' = nw_session_epochs nw \<and> plan_frame cp cp'"
proof (induction i now nw cp rule: deliver_outbound.induct)
  case (1 i now nw cp)
  from 1(2) obtain m nw1 where pop: "pop_outbound i now nw = Inr (m, nw1)"
    by (subst (asm) deliver_outbound.simps) (auto split: sum.splits)
  have ep: "nw_session_epochs nw1 = nw_session_epochs nw" using pop_outbound_effect [OF pop] by simp
  show ?case
  proof (cases m)
    case None
    with 1(2) pop ep show ?thesis by (subst (asm) deliver_outbound.simps) auto
  next
    case (Some msg)
    with 1(2) pop obtain cp1 where cp1: "on_agent_message now i msg cp = Inr cp1"
        "deliver_outbound i now nw1 cp1 = Inr (nw', cp')"
      by (subst (asm) deliver_outbound.simps) (auto split: sum.splits)
    have "plan_frame cp cp1" using cp1(1) by (auto simp: on_agent_message_def and_then_Inr plan_frame_def)
    with 1(1) [OF pop refl Some cp1(1) cp1(2)] ep show ?thesis by (auto intro: plan_frame_trans)
  qed
qed

lemma deliver_inbound_frame:
  "deliver_inbound i now nw io = Inr (nw', io') \<Longrightarrow> nw_session_epochs nw' = nw_session_epochs nw"
proof (induction i now nw io rule: deliver_inbound.induct)
  case (1 i now nw io)
  from 1(2) obtain m nw1 where pop: "pop_inbound i now nw = Inr (m, nw1)"
    by (subst (asm) deliver_inbound.simps) (auto split: sum.splits)
  have ep: "nw_session_epochs nw1 = nw_session_epochs nw" using pop_inbound_effect [OF pop] by simp
  show ?case
  proof (cases m)
    case None
    with 1(2) pop ep show ?thesis by (subst (asm) deliver_inbound.simps) auto
  next
    case (Some msg)
    with 1(2) pop obtain io1 where io1: "push_inbound msg io = Inr io1" "deliver_inbound i now nw1 io1 = Inr (nw', io')"
      by (subst (asm) deliver_inbound.simps) (auto split: sum.splits)
    with 1(1) [OF pop refl Some io1] ep show ?thesis by simp
  qed
qed

lemma send_to_fold_epochs:
  "fold_res (\<lambda>(a, m). send_to_agent a m t) cmds nw = Inr nw' \<Longrightarrow> nw_session_epochs nw' = nw_session_epochs nw"
  by (drule fold_res_inv [where I = "\<lambda>x. nw_session_epochs x = nw_session_epochs nw"]) (auto dest!: send_to_effect)

lemma send_from_fold_epochs:
  "fold_res (\<lambda>m. send_from_agent i m t) ms nw = Inr nw' \<Longrightarrow> nw_session_epochs nw' = nw_session_epochs nw"
  by (drule fold_res_inv [where I = "\<lambda>x. nw_session_epochs x = nw_session_epochs nw"]) (auto dest!: send_from_effect)

lemma collect_frame: "collect_outbound i sm = Inr sm' \<Longrightarrow> tick_frame sm sm'"
  by (auto simp: collect_outbound_def and_then_Inr tick_frame_def dest!: deliver_outbound_frame)

lemma issue_frame: "issue_commands sm = Inr sm' \<Longrightarrow> tick_frame sm sm'"
  by (auto simp: issue_commands_def commands_for_tick_def Let_def and_then_Inr tick_frame_def plan_frame_def
        dest!: send_to_fold_epochs)

lemma agent_step_frame:
  assumes "agent_step os sched i sm = Some (Inr sm')"
  shows "tick_frame sm sm'"
proof -
  from assms obtain sm1 sm2 where s: "feed_inbound i sm = Inr sm1" "tick_worker os (sched i) i sm1 = Some (Inr sm2)"
      "flush_outbound i sm2 = Inr sm'"
    by (auto simp: agent_step_def elim!: bind_run_SomeE)
  have "tick_frame sm sm1"
    using s(1) by (auto simp: feed_inbound_def and_then_Inr tick_frame_def dest!: deliver_inbound_frame)
  moreover have "tick_frame sm1 sm2"
    using s(2) by (auto simp: tick_worker_def tick_frame_def elim!: bind_run_SomeE)
  moreover have "tick_frame sm2 sm'"
    using s(3) by (auto simp: flush_outbound_def and_then_Inr tick_frame_def dest!: send_from_fold_epochs)
  ultimately show ?thesis using tick_frame_trans by blast
qed

lemma fold_res_frame:
  assumes "fold_res f xs sm = Inr sm'" "\<And>x s t. f x s = Inr t \<Longrightarrow> tick_frame s t"
  shows "tick_frame sm sm'"
  by (rule fold_res_inv [OF assms(1), where I = "tick_frame sm"]) (simp, blast intro: tick_frame_trans assms(2))

lemma fold_run_frame:
  assumes "fold_run f xs sm = Some (Inr sm')" "\<And>x s t. f x s = Some (Inr t) \<Longrightarrow> tick_frame s t"
  shows "tick_frame sm sm'"
  using assms(1)
proof (induction xs arbitrary: sm)
  case (Cons x xs)
  then obtain t where "f x sm = Some (Inr t)" "fold_run f xs t = Some (Inr sm')" by (auto elim!: bind_run_SomeE)
  then show ?case using Cons.IH assms(2) tick_frame_trans by blast
qed simp

lemma sim_tick_frame:
  assumes "sim_tick os sched sm = Some (Inr sm')"
  shows "tick_frame sm sm'"
proof -
  let ?sm = "sm\<lparr>sm_current_tick := sm_current_tick sm + 1\<rparr>"
  from assms obtain s1 s2 s3 where s: "fold_res collect_outbound [0..<sm_agent_count ?sm] ?sm = Inr s1"
      "issue_commands s1 = Inr s2" "fold_run (agent_step os sched) [0..<sm_agent_count ?sm] s2 = Some (Inr s3)"
      "fold_res check_agent [0..<sm_agent_count ?sm] s3 = Inr sm'"
    by (auto simp: sim_tick_def Let_def and_then_Inr elim!: bind_run_SomeE)
  have "tick_frame ?sm s1" by (rule fold_res_frame [OF s(1)]) (rule collect_frame)
  moreover have "tick_frame s1 s2" by (rule issue_frame [OF s(2)])
  moreover have "tick_frame s2 s3" by (rule fold_run_frame [OF s(3)]) (rule agent_step_frame)
  moreover have "tick_frame s3 sm'"
    by (rule fold_res_frame [OF s(4)]) (auto simp: check_agent_def and_then_Inr tick_frame_def)
  ultimately have "tick_frame ?sm sm'" using tick_frame_trans by blast
  then show ?thesis by (simp add: tick_frame_def)
qed

section \<open>The operations between ticks do not panic\<close>

definition runnable :: "nat \<Rightarrow> u64 \<Rightarrow> nat \<Rightarrow> 'h simulator \<Rightarrow> bool" where
  "runnable n epoch start sm =
     (list_all (\<lambda>x. x = epoch) (nw_session_epochs (sm_network sm))
      \<and> list_all (\<lambda>e. fst e < n \<and> list_ex (is_start (fst e) (snd e)) (cp_scheduled (sm_control_plane sm)))
           (cp_expected_starts (sm_control_plane sm))
      \<and> start \<le> length (cp_received (sm_control_plane sm)))"

lemma runnable_frame: "runnable n epoch start sm \<Longrightarrow> tick_frame sm sm' \<Longrightarrow> runnable n epoch start sm'"
  by (auto simp: runnable_def tick_frame_def plan_frame_def)

lemma partition_agent_total: "net_wf n nw \<Longrightarrow> a < n \<Longrightarrow> \<exists>nw'. partition_agent a t nw = Inr nw'"
  by (simp add: partition_agent_def net_wf_lengths)

lemma heal_one_total: "net_wf n nw \<Longrightarrow> a < n \<Longrightarrow> \<exists>nw'. heal_one a t nw = Inr nw'"
  by (simp add: heal_one_def net_wf_lengths)

lemma partition_total:
  assumes "sim_inv n sm" "a < n"
  shows "\<exists>sm'. sim_partition_agent a sm = Inr sm' \<and> tick_frame sm sm'"
proof -
  have wf: "net_wf n (sm_network sm)" using assms(1) by (simp add: sim_inv_def net_ok_def)
  then obtain nw where nw: "partition_agent a (sm_current_tick sm) (sm_network sm) = Inr nw"
    using partition_agent_total [OF _ assms(2)] by blast
  with partition_effect [OF nw] assms show ?thesis
    by (simp add: sim_partition_agent_def agent_exists_def sim_inv_def tick_frame_def)
qed

lemma pick_agent:
  assumes "0 < n" "n < 2 ^ 64"
  shows "\<exists>a g'. bounded g (word_of_nat n) = Inr (a, g') \<and> unat a < n"
proof -
  have n: "unat (word_of_nat n :: u64) = n" using assms(2) by (simp add: unat_of_nat)
  then have "(word_of_nat n :: u64) > 0" using assms(1) by (simp add: word_less_nat_alt)
  then obtain a g' where "bounded g (word_of_nat n) = Inr (a, g')" using bounded_total by blast
  with bounded_less [OF this] n show ?thesis by (auto simp: word_less_nat_alt)
qed

definition p1_ok :: "'h os \<Rightarrow> nat \<Rightarrow> 'h phase1 \<Rightarrow> bool" where
  "p1_ok os n p = (sim_reachable os n (p1_sim p) \<and> runnable n 0 0 (p1_sim p) \<and> length (p1_pause_until p) = n)"

lemma p1_ok_step:
  assumes "p1_ok os n p" "quiet os n (p1_sim p) (p1_sim p')" "tick_frame (p1_sim p) (p1_sim p')"
    "length (p1_pause_until p') = length (p1_pause_until p)"
  shows "p1_ok os n p'"
  using assms runnable_frame by (auto simp: p1_ok_def quiet_def)

lemma maybe_partition_ok:
  assumes "p1_ok os n p" "os_ok SIM_PANICS os" "sc_agent_count config = n" "0 < n" "n < 2 ^ 64"
  shows "\<exists>p'. maybe_partition config p = Inr p' \<and> p1_ok os n p'"
proof -
  obtain hit g where hit: "chance_ratio (p1_fault_prng p) (sc_partition_probability config) = Inr (hit, g)"
    using chance_ratio_total by blast
  obtain a g' where a: "bounded g (word_of_nat n) = Inr (a, g')" "unat a < n" using pick_agent [OF assms(4,5)] by blast
  have "sim_inv n (p1_sim p)" using assms(1,2) sim_reachable_inv by (auto simp: p1_ok_def)
  from partition_total [OF this a(2)] obtain sm where sm: "sim_partition_agent (unat a) (p1_sim p) = Inr sm"
    "tick_frame (p1_sim p) sm" by blast
  have "p1_ok os n (p\<lparr>p1_fault_prng := x, p1_sim := sm\<rparr>)" for x
    by (rule p1_ok_step [OF assms(1)]) (use sm quiet_partition [OF sm(1)] in auto)
  moreover have "p1_ok os n (p\<lparr>p1_fault_prng := x\<rparr>)" for x using assms(1) by (simp add: p1_ok_def)
  ultimately show ?thesis using hit a(1) sm(1) assms(3) by (auto simp: maybe_partition_def)
qed

lemma maybe_heal_ok:
  assumes "p1_ok os n p"
  shows "\<exists>p'. maybe_heal config p = Inr p' \<and> p1_ok os n p'"
proof -
  obtain hit g where hit: "chance_ratio (p1_fault_prng p) (sc_heal_probability config) = Inr (hit, g)"
    using chance_ratio_total by blast
  have "p1_ok os n (p\<lparr>p1_fault_prng := g, p1_sim := sim_heal_all (p1_sim p)\<rparr>)"
    by (rule p1_ok_step [OF assms]) (use quiet_heals(1) in \<open>auto simp: sim_heal_all_def tick_frame_def heal_effects\<close>)
  moreover have "p1_ok os n (p\<lparr>p1_fault_prng := g\<rparr>)" using assms by (simp add: p1_ok_def)
  ultimately show ?thesis using hit by (auto simp: maybe_heal_def)
qed

lemma maybe_pause_ok:
  assumes "p1_ok os n p" "os_ok SIM_PANICS os" "sc_agent_count config = n" "0 < n" "n < 2 ^ 64"
  shows "\<exists>p'. maybe_pause config t p = Inr p' \<and> p1_ok os n p'"
proof -
  obtain hit g where hit: "chance_ratio (p1_fault_prng p) (sc_pause_probability config) = Inr (hit, g)"
    using chance_ratio_total by blast
  obtain a g1 where a: "bounded g (word_of_nat n) = Inr (a, g1)" "unat a < n" using pick_agent [OF assms(4,5)] by blast
  obtain d g2 where d: "bounded g1 30 = Inr (d, g2)" using bounded_total [of 30 g1] by auto
  have "sim_inv n (p1_sim p)" using assms(1,2) sim_reachable_inv by (auto simp: p1_ok_def)
  from partition_total [OF this a(2)] obtain sm where sm: "sim_partition_agent (unat a) (p1_sim p) = Inr sm"
    "tick_frame (p1_sim p) sm" by blast
  have "p1_ok os n (p\<lparr>p1_fault_prng := x, p1_pause_until := (p1_pause_until p)[unat a := y], p1_sim := sm\<rparr>)" for x y
    by (rule p1_ok_step [OF assms(1)]) (use sm quiet_partition [OF sm(1)] in auto)
  moreover have "p1_ok os n (p\<lparr>p1_fault_prng := x\<rparr>)" for x using assms(1) by (simp add: p1_ok_def)
  moreover have "unat a < length (p1_pause_until p)" using assms(1) a(2) by (simp add: p1_ok_def)
  ultimately show ?thesis using hit a(1) d sm(1) assms(3) by (auto simp: maybe_pause_def)
qed

lemma maybe_resume_ok:
  assumes "p1_ok os n p" "os_ok SIM_PANICS os" "i < n"
  shows "\<exists>p'. maybe_resume t i p = Inr p' \<and> p1_ok os n p'"
proof -
  have "sim_inv n (p1_sim p)" using assms(1,2) sim_reachable_inv by (auto simp: p1_ok_def)
  then have wf: "net_wf n (sm_network (p1_sim p))" by (simp add: sim_inv_def net_ok_def)
  then obtain nw where nw: "heal_one i t (sm_network (p1_sim p)) = Inr nw"
    using heal_one_total [OF _ assms(3)] by blast
  have "p1_ok os n (p\<lparr>p1_pause_until := (p1_pause_until p)[i := 0], p1_sim := (p1_sim p)\<lparr>sm_network := nw\<rparr>\<rparr>)"
    by (rule p1_ok_step [OF assms(1)])
       (use quiet_heal_one [OF nw] heal_one_effect [OF nw] in \<open>auto simp: tick_frame_def\<close>)
  moreover have "i < length (p1_pause_until p)" using assms(1,3) by (simp add: p1_ok_def)
  ultimately show ?thesis using assms(1) nw by (auto simp: maybe_resume_def)
qed

lemma phase1_faults_ok:
  assumes "p1_ok os n p" "os_ok SIM_PANICS os" "sc_agent_count config = n" "0 < n" "n < 2 ^ 64"
  shows "\<exists>p'. phase1_faults config t p = Inr p' \<and> p1_ok os n p'"
proof -
  obtain p1 where 1: "maybe_partition config p = Inr p1" "p1_ok os n p1" using maybe_partition_ok [OF assms] by blast
  obtain p2 where 2: "maybe_heal config p1 = Inr p2" "p1_ok os n p2" using maybe_heal_ok [OF 1(2)] by blast
  obtain p3 where 3: "maybe_pause config t p2 = Inr p3" "p1_ok os n p3" using maybe_pause_ok [OF 2(2) assms(2-)] by blast
  have "\<exists>p'. fold_res (maybe_resume t) [0..<n] p3 = Inr p' \<and> p1_ok os n p'"
    by (rule fold_res_total) (use 3(2) maybe_resume_ok [OF _ assms(2)] in auto)
  with 1(1) 2(1) 3(1) assms(3) show ?thesis by (simp add: phase1_faults_def)
qed

lemma tick_panics:
  assumes "clean os n (Suc k) sm" "os_ok SIM_PANICS os" "sim_tick os sched sm = Some (Inl e)"
  shows "e \<in> SIM_PANICS"
proof -
  have "unat (sm_current_tick sm) + 101 < 2 ^ 64" using assms(1) by (simp add: clean_def)
  moreover have "sim_inv n sm" using assms(1,2) sim_reachable_inv by (auto simp: clean_def)
  ultimately show ?thesis using sim_tick_ok [OF _ _ assms(2), of n sm sched] assms(3) by auto
qed

lemma phase1_total:
  assumes "clean os n (k + l) (p1_sim p)" "p1_ok os n p" "os_ok SIM_PANICS os" "sc_agent_count config = n" "0 < n" "n < 2 ^ 64"
  shows "\<exists>r. phase1_loop os sched config k t p = Some r
    \<and> outcome SIM_PANICS (\<lambda>pe. case pe of Returned _ _ \<Rightarrow> True | Continued _ sm \<Rightarrow> runnable n 0 0 sm) r"
  using assms(1,2)
proof (induction k arbitrary: t p)
  case 0
  then show ?case by (simp add: p1_ok_def)
next
  case (Suc k)
  obtain p1 where p1: "phase1_faults config t p = Inr p1" "p1_ok os n p1"
    using phase1_faults_ok [OF Suc.prems(2) assms(3-)] by blast
  have cl: "clean os n (Suc (k + l)) (p1_sim p1)"
    using clean_quiet [OF Suc.prems(1) quiet_phase1_faults [OF p1(1)]] by simp
  obtain r where r: "sim_tick os (sched (sm_current_tick (p1_sim p1))) (p1_sim p1) = Some r"
    using sim_tick_some by fast
  show ?case
  proof (cases r)
    case (Inl e)
    with r p1(1) tick_panics [OF cl assms(3)] show ?thesis by (simp add: bind_run_def)
  next
    case (Inr sm)
    note tick = clean_tick [OF cl assms(3) r [unfolded Inr]]
    have ok: "p1_ok os n (p1\<lparr>p1_sim := sm\<rparr>)"
      using p1(2) tick(1) runnable_frame sim_tick_frame [OF r [unfolded Inr]] by (auto simp: p1_ok_def)
    show ?thesis
    proof (cases "ck_safety_violations (sm_checker sm) > 0")
      case False
      then have "clean os n (k + l) sm" using tick(2) by (simp add: word_gt_0)
      with Suc.IH [of "p1\<lparr>p1_sim := sm\<rparr>" "t + 1"] ok r Inr p1(1) False show ?thesis
        by (simp add: bind_run_def)
    qed (use r Inr p1(1) in \<open>simp add: bind_run_def\<close>)
  qed
qed

lemma registered_since_total:
  "start \<le> length (cp_received (sm_control_plane sm)) \<Longrightarrow> \<exists>b. registered_since sm a start = Inr b"
  by (simp add: registered_since_def Let_def)

lemma all_registered_total:
  "start \<le> length (cp_received (sm_control_plane sm)) \<Longrightarrow> \<exists>b. all_registered sm start agents = Inr b"
proof (induction agents)
  case (Cons a agents)
  obtain b where "registered_since sm a start = Inr b" using registered_since_total [OF Cons.prems] by blast
  with Cons show ?case by auto
qed auto

lemma convergence_total:
  "runnable n e start sm \<Longrightarrow> \<exists>b. check_convergence sm start = Inr b"
  using all_registered_total [of start sm "[0..<length (sm_workers sm)]"]
  by (auto simp: check_convergence_def runnable_def)

lemma retry_registration_ok:
  assumes "sim_inv n sm" "runnable n e start sm" "a < n"
  shows "\<exists>sm'. retry_registration start a sm = Inr sm' \<and> sim_inv n sm' \<and> runnable n e start sm'"
proof -
  obtain b where b: "registered_since sm a start = Inr b"
    using registered_since_total [of start sm a] assms(2) by (auto simp: runnable_def)
  obtain sm' where sm': "retry_agent_registration a sm = Inr sm'" "tick_frame sm sm'" "sim_inv n sm'"
    using assms(1,3) lost_workers_at
    by (auto simp: retry_agent_registration_def agent_exists_def sim_inv_def tick_frame_def)
  then show ?thesis using assms b runnable_frame by (auto simp: retry_registration_def)
qed

lemma recovery_ok:
  assumes "sim_inv n sm" "runnable n e start sm"
  shows "\<exists>sm'. send_recovery sm = Inr sm' \<and> tick_frame sm sm'"
proof -
  let ?es = "filter (\<lambda>e. \<not> start_resolved (sm_control_plane sm) e) (cp_expected_starts (sm_control_plane sm))"
  have "\<And>e. e \<in> set ?es \<Longrightarrow> list_ex (is_start (fst e) (snd e)) (cp_scheduled (sm_control_plane sm))"
    using assms(2) by (auto simp: runnable_def list_all_iff)
  from recovery_fold [where cp = "sm_control_plane sm" and es = ?es and acc = "[]", OF this] obtain cmds where
    cmds: "unresolved_start_recovery_commands (sm_control_plane sm) = Inr cmds"
      "map fst cmds = concat (map (\<lambda>e. [fst e, fst e]) ?es)"
    by (auto simp: unresolved_start_recovery_commands_def)
  have "fst c < n" if "c \<in> set cmds" for c
  proof -
    have "fst c \<in> set (concat (map (\<lambda>e. [fst e, fst e]) ?es))" using that cmds(2) by (metis image_eqI set_map)
    then show ?thesis using assms(2) by (auto simp: runnable_def list_all_iff)
  qed
  then have "\<exists>nw. fold_res (\<lambda>(a, m). send_to_agent a m (sm_current_tick sm)) cmds (sm_network sm) = Inr nw \<and> net_ok n nw"
    using assms(1) send_to_ok by (intro fold_res_total) (auto simp: sim_inv_def)
  then show ?thesis
    using cmds(1) send_to_fold_epochs by (auto simp: send_recovery_def tick_frame_def)
qed

lemma phase2_total:
  assumes "clean os n k sm" "runnable n e start sm" "os_ok SIM_PANICS os" "sc_agent_count config = n"
  shows "\<exists>r. phase2_loop os sched config phase1_ticks start k t sm = Some r
    \<and> outcome SIM_PANICS (\<lambda>pe. case pe of Returned _ _ \<Rightarrow> True | Continued _ sm' \<Rightarrow> runnable n e start sm' \<and> sim_inv n sm') r"
  using assms(1,2)
proof (induction k arbitrary: t sm)
  case 0
  then show ?case using sim_reachable_inv [OF _ assms(3)] by (auto simp: clean_def)
next
  case (Suc k)
  have inv: "sim_inv n sm" using Suc.prems(1) sim_reachable_inv [OF _ assms(3)] by (auto simp: clean_def)
  have "\<exists>s. fold_res (retry_registration start) [0..<n] sm = Inr s \<and> sim_inv n s \<and> runnable n e start s"
    by (rule fold_res_total) (use inv Suc.prems(2) retry_registration_ok in auto)
  then obtain sm0 where 0: "fold_res (retry_registration start) [0..<n] sm = Inr sm0" "sim_inv n sm0" "runnable n e start sm0"
    by blast
  obtain sm1 where 1: "send_recovery sm0 = Inr sm1" "tick_frame sm0 sm1" using recovery_ok [OF 0(2,3)] by blast
  have "quiet os n sm sm1"
    by (rule quiet_trans [OF quiet_fold [OF 0(1)] quiet_recovery [OF 1(1)]]) (rule quiet_retry_registration)
  with Suc.prems(1) have cl: "clean os n (Suc k) sm1" by (rule clean_quiet)
  obtain r where r: "sim_tick os (sched (sm_current_tick sm1)) sm1 = Some r" using sim_tick_some by fast
  have pre: "and_then (fold_res (retry_registration start) [0..<sc_agent_count config] sm) send_recovery = Inr sm1"
    using 0(1) 1(1) assms(4) by simp
  show ?case
  proof (cases r)
    case (Inl x)
    with r pre tick_panics [OF cl assms(3)] show ?thesis by (simp add: bind_run_def)
  next
    case (Inr sm2)
    note tick = clean_tick [OF cl assms(3) r [unfolded Inr]]
    have run2: "runnable n e start sm2"
      by (rule runnable_frame [OF runnable_frame [OF 0(3) 1(2)] sim_tick_frame [OF r [unfolded Inr]]])
    obtain b where b: "check_convergence sm2 start = Inr b" using convergence_total [OF run2] by blast
    show ?thesis
    proof (cases "ck_safety_violations (sm_checker sm2) > 0")
      case False
      then have "clean os n k sm2" using tick(2) by (simp add: word_gt_0)
      with Suc.IH [of sm2 "t + 1"] run2 r Inr pre b False show ?thesis
        by (simp add: bind_run_def)
    qed (use r Inr pre in \<open>simp add: bind_run_def\<close>)
  qed
qed

lemma restart_agent_ok:
  assumes "sim_inv n sm" "i < n" "nw_session_epochs (sm_network sm) ! i = 0"
  shows "\<exists>sm'. restart_agent i sm = Inr sm' \<and> sim_inv n sm'
    \<and> sm_control_plane sm' = sm_control_plane sm
    \<and> nw_session_epochs (sm_network sm') = (nw_session_epochs (sm_network sm))[i := 1]"
proof -
  have net: "net_ok n (sm_network sm)" and wf: "net_wf n (sm_network sm)"
    using assms(1) by (simp_all add: sim_inv_def net_ok_def)
  obtain nw where nw: "discard_session_queues i (sm_network sm) = Inr nw"
    "nw_session_epochs nw = (nw_session_epochs (sm_network sm))[i := 1]"
    using wf assms(2,3) by (simp add: discard_session_queues_def net_wf_lengths checked_add_def)
  have "net_ok n nw" by (rule net_ok_ops(6) [OF net nw(1)])
  with assms(1,2) nw show ?thesis
    by (simp add: restart_agent_def set_runtime_faults_def lose_agent_session_def agent_exists_def sim_inv_def
          lost_workers_at)
qed

text \<open>The agents below \<open>i\<close> are in their second session, the others still in their first.\<close>

definition restarted :: "nat \<Rightarrow> control_plane \<Rightarrow> nat \<Rightarrow> 'h simulator \<Rightarrow> bool" where
  "restarted n cp i sm =
     (sim_inv n sm \<and> sm_control_plane sm = cp
      \<and> nw_session_epochs (sm_network sm) = replicate i 1 @ replicate (n - i) 0)"

lemma restarted_step:
  assumes "i < n" "restarted n cp i sm"
  shows "outcome {} (restarted n cp (Suc i)) (restart_agent i sm)"
proof -
  have "sim_inv n sm" "nw_session_epochs (sm_network sm) ! i = 0"
    using assms by (simp_all add: restarted_def nth_append)
  from restart_agent_ok [OF this(1) assms(1) this(2)] obtain sm' where "restart_agent i sm = Inr sm'" "sim_inv n sm'"
    "sm_control_plane sm' = sm_control_plane sm"
    "nw_session_epochs (sm_network sm') = (nw_session_epochs (sm_network sm))[i := 1]" by blast
  moreover have "(replicate i 1 @ replicate (n - i) 0)[i := 1] = replicate (Suc i) 1 @ replicate (n - Suc i) (0 :: u64)"
  proof -
    have "n - i = Suc (n - Suc i)" using assms(1) by simp
    then show ?thesis by (simp add: list_update_append replicate_append_same)
  qed
  ultimately show ?thesis using assms(2) by (simp add: restarted_def)
qed

lemma start_phase2_ok:
  assumes "sim_inv n sm" "runnable n 0 0 sm" "sc_agent_count config = n"
  shows "\<exists>sm'. start_phase2 config sm = Inr sm' \<and> runnable n 1 (length (cp_received (sm_control_plane sm'))) sm'"
proof -
  have "length (nw_session_epochs (sm_network sm)) = n"
    using assms(1) by (simp add: sim_inv_def net_ok_def net_wf_def)
  moreover have "list_all (\<lambda>x. x = 0) (nw_session_epochs (sm_network sm))" using assms(2) by (simp add: runnable_def)
  ultimately have "nw_session_epochs (sm_network sm) = replicate n 0" by (simp add: list_all_iff replicate_eqI)
  then have 0: "restarted n (sm_control_plane sm) 0 (sim_force_heal_all sm)"
    using assms(1) net_ok_ops(5) [OF sim_inv_net [OF assms(1)]]
    by (simp add: restarted_def sim_force_heal_all_def sim_inv_def heal_effects)
  have "outcome {} (restarted n (sm_control_plane sm) n) (fold_res restart_agent [0..<n] (sim_force_heal_all sm))"
    by (rule fold_res_outcome_upt [where P = "restarted n (sm_control_plane sm)"]) (simp_all add: 0 restarted_step)
  then obtain sm' where "start_phase2 config sm = Inr sm'" "restarted n (sm_control_plane sm) n sm'"
    using assms(3) by (auto simp: start_phase2_def dest!: outcome_emptyD)
  then show ?thesis
    using assms(2) by (auto simp: runnable_def restarted_def list_all_iff)
qed

lemma faults_fold:
  assumes "length (sm_runtimes sm) = n"
  shows "\<exists>sm'. fold_res (\<lambda>i. set_runtime_faults i c) [0..<n] sm = Inr sm'
    \<and> length (sm_runtimes sm') = n \<and> sm_control_plane sm' = sm_control_plane sm \<and> sm_network sm' = sm_network sm"
  by (rule fold_res_total) (use assms in \<open>auto simp: set_runtime_faults_def\<close>)

lemma run_setup_ok:
  assumes "sc_agent_count config = n" "0 < n" "n < 2 ^ 64" "unat (sc_pod_count config) \<le> 2048" "2 \<le> sc_safety_ticks config"
  shows "\<exists>sm. run_setup os host config = Inr sm \<and> runnable n 0 0 sm"
proof -
  let ?sm0 = "simulator_new os host n (sc_seed config)"
  let ?sm1 = "?sm0\<lparr>sm_network := configure_network config (sm_network ?sm0)\<rparr>"
  have "length (sm_runtimes ?sm1) = n" by (simp add: simulator_new_def simulator_new_with_def)
  from faults_fold [OF this] obtain sm2 where
    2: "fold_res (\<lambda>i. set_runtime_faults i (phase1_fault_config config)) [0..<n] ?sm1 = Inr sm2"
      "sm_control_plane sm2 = sm_control_plane ?sm1" "sm_network sm2 = sm_network ?sm1" by blast
  then have plane: "sm_control_plane sm2 = control_plane_new (sc_seed config)"
    and epochs: "nw_session_epochs (sm_network sm2) = replicate n 0"
    by (simp_all add: simulator_new_def simulator_new_with_def configure_network_def network_new_def)
  from workload_generated [OF assms(2,3,5,4)] obtain cp where
    cp: "generate_workload n (sc_pod_count config) (sc_safety_ticks config) (control_plane_new (sc_seed config)) = Inr cp"
      "workload_inv n (unat (sc_pod_count config)) cp" by blast
  have "run_setup os host config = Inr (sm2\<lparr>sm_control_plane := cp\<rparr>)"
    using 2(1) cp(1) plane assms(1) by (simp add: run_setup_def Let_def)
  moreover have "runnable n 0 0 (sm2\<lparr>sm_control_plane := cp\<rparr>)"
    using cp(2) epochs by (simp add: runnable_def workload_inv_def list_all_iff)
  ultimately show ?thesis by blast
qed

section \<open>Properties\<close>

text \<open>What a run reports, for a simulator of \<open>n\<close> agents that it ends with.\<close>

definition verdict_ok :: "'h os \<Rightarrow> sim_config \<Rightarrow> sim_result \<Rightarrow> 'h simulator \<Rightarrow> bool" where
  "verdict_ok os config res sm =
     (sim_reachable os (sc_agent_count config) sm
      \<and> rs_safety_violations res = ck_safety_violations (sm_checker sm)
      \<and> (case rs_outcome res of
           SafetyViolation \<Rightarrow> rs_safety_violations res > 0
         | Passed \<Rightarrow> rs_safety_violations res = 0 \<and> rs_phase1_ticks res = sc_safety_ticks config
             \<and> rs_phase2_ticks res \<le> sc_liveness_ticks config \<and> (\<exists>start. check_convergence sm start = Inr True)
         | LivenessFailure \<Rightarrow> rs_safety_violations res = 0 \<and> rs_phase1_ticks res = sc_safety_ticks config
             \<and> rs_phase2_ticks res = sc_liveness_ticks config))"

lemma liveness_phase_verdict:
  assumes "os_ok SIM_PANICS os" "sc_agent_count config = n" "sim_inv n sm" "runnable n 0 0 sm"
    "clean os n (unat (sc_liveness_ticks config)) sm"
  shows "\<exists>r. run_phase2 os sched config (sc_safety_ticks config) sm = Some r
     \<and> outcome SIM_PANICS (\<lambda>(res, sm'). verdict_ok os config res sm') r"
proof -
  obtain sm2 where 2: "start_phase2 config sm = Inr sm2" "runnable n 1 (length (cp_received (sm_control_plane sm2))) sm2"
    using start_phase2_ok [OF assms(3,4,2)] by blast
  let ?start = "length (cp_received (sm_control_plane sm2))"
  have cl: "clean os n (unat (sc_liveness_ticks config)) sm2"
    by (rule clean_quiet [OF assms(5) quiet_start_phase2 [OF 2(1)]])
  obtain r where r: "phase2_loop os sched config (sc_safety_ticks config) ?start (unat (sc_liveness_ticks config)) 0 sm2 = Some r"
      "outcome SIM_PANICS (\<lambda>pe. case pe of Returned _ _ \<Rightarrow> True | Continued _ sm' \<Rightarrow> runnable n 1 ?start sm' \<and> sim_inv n sm') r"
    using phase2_total [OF cl 2(2) assms(1,2)] by blast
  show ?thesis
  proof (cases r)
    case (Inr pe)
    have "unat (0 :: u64) + unat (sc_liveness_ticks config) < 2 ^ 64"
      using unsigned_less [of "sc_liveness_ticks config"] by simp
    note sound = phase2_sound [OF r(1) [unfolded Inr] assms(1) cl this]
    show ?thesis
    proof (cases pe)
      case (Returned res sm3)
      then have "verdict_ok os config res sm3"
        using sound assms(2) by (auto simp: verdict_ok_def violated_def passed_def word_le_nat_alt)
      with 2(1) r(1) Inr Returned show ?thesis by (simp add: run_phase2_def bind_run_def)
    next
      case (Continued t sm3)
      then have "clean os n 0 sm3" "t = sc_liveness_ticks config"
        using sound by (auto simp: word_unat_eq_iff)
      then have v: "verdict_ok os config (result_of config sm3 (sc_safety_ticks config) t
          (ck_safety_violations (sm_checker sm3)) LivenessFailure 0) sm3"
        using assms(2) by (simp add: verdict_ok_def clean_def result_of_def)
      have "\<exists>cmds. unresolved_start_recovery_commands (sm_control_plane sm3) = Inr cmds"
        using recovery_ok [of n sm3 1 ?start] r(2) Inr Continued by (auto simp: send_recovery_def and_then_Inr)
      with v 2(1) r(1) Inr Continued show ?thesis by (auto simp: run_phase2_def bind_run_def)
    qed
  qed (use 2(1) r in \<open>simp add: run_phase2_def bind_run_def\<close>)
qed

lemma run_ok:
  assumes "os_ok SIM_PANICS os" and "0 < sc_agent_count config" and "sc_agent_count config < 2 ^ 64"
    and "unat (sc_pod_count config) \<le> 2048" and "2 \<le> sc_safety_ticks config"
    and "unat (sc_safety_ticks config) + unat (sc_liveness_ticks config) + 101 < 2 ^ 64"
  shows "\<exists>r. run os host sched config = Some r
    \<and> outcome SIM_PANICS (\<lambda>(res, sm). verdict_ok os config res sm) r"
proof -
  let ?n = "sc_agent_count config" and ?k = "unat (sc_safety_ticks config)" and ?l = "unat (sc_liveness_ticks config)"
  obtain sm where sm: "run_setup os host config = Inr sm" "runnable ?n 0 0 sm"
    using run_setup_ok [OF refl assms(2-5), of os host] by (elim exE conjE)
  let ?p = "phase1_start config sm"
  have p: "p1_sim ?p = sm" "p1_pause_until ?p = replicate ?n 0" by (simp_all add: phase1_start_def)
  have cl: "clean os ?n (?k + ?l) (p1_sim ?p)" unfolding p(1) by (rule run_setup_clean [OF sm(1) refl assms(6)])
  have ok: "p1_ok os ?n ?p" using cl sm(2) p by (simp add: p1_ok_def clean_def)
  obtain r where r: "phase1_loop os sched config ?k 0 ?p = Some r"
      "outcome SIM_PANICS (\<lambda>pe. case pe of Returned _ _ \<Rightarrow> True | Continued _ sm \<Rightarrow> runnable ?n 0 0 sm) r"
    using phase1_total [OF cl ok assms(1) refl assms(2,3), of sched 0] by (elim exE conjE)
  show ?thesis
  proof (cases r)
    case (Inr pe)
    have "unat (0 :: u64) + ?k < 2 ^ 64" using assms(6) by simp
    note sound = phase1_sound [OF r(1) [unfolded Inr] assms(1) cl this]
    show ?thesis
    proof (cases pe)
      case (Returned res sm1)
      then have "verdict_ok os config res sm1" using sound by (auto simp: verdict_ok_def violated_def)
      with sm(1) r(1) Inr Returned show ?thesis by (simp add: run_def bind_run_def)
    next
      case (Continued t sm1)
      then have c1: "clean os ?n ?l sm1" and "t = sc_safety_ticks config"
        using sound by (auto simp: word_unat_eq_iff)
      moreover have "sim_inv ?n sm1" using c1 sim_reachable_inv [OF _ assms(1)] by (auto simp: clean_def)
      moreover have "runnable ?n 0 0 sm1" using r(2) Inr Continued by simp
      ultimately show ?thesis
        using liveness_phase_verdict [OF assms(1) refl, of config sm1 sched] sm(1) r(1) Inr Continued
        by (simp add: run_def bind_run_def)
    qed
  qed (use sm(1) r in \<open>simp add: run_def bind_run_def\<close>)
qed

text \<open>
  C5. A run terminates and its verdict means what it says. For a simulation of at least one agent,
  at most 2048 pods, a safety phase of at least two ticks and phases that leave the tick counter
  room, the run ends under every schedule of the workers' pod scans, and it either panics with one
  of three messages (a full agent outbox, a scan that meets a pruned pod, a full receive log) or
  reports a verdict about a reachable state. A reported safety violation was recorded by the
  checker; a passed run completed the safety phase, found no violation, and converged within the
  liveness phase; a liveness failure used up both phases without a violation.
\<close>

theorem run_verdict:
  assumes "os_ok SIM_PANICS os" and "0 < sc_agent_count config" and "sc_agent_count config < 2 ^ 64"
    and "unat (sc_pod_count config) \<le> 2048" and "2 \<le> sc_safety_ticks config"
    and "unat (sc_safety_ticks config) + unat (sc_liveness_ticks config) + 101 < 2 ^ 64"
  shows "\<exists>r. run os host sched config = Some r
    \<and> outcome SIM_PANICS (\<lambda>(res, sm). verdict_ok os config res sm) r"
  using assms by (rule run_ok)

theorem run_verdict_witness:
  "\<exists>r. run sample_os 5 (\<lambda>_ _ _. []) sim_config_default = Some r
    \<and> outcome SIM_PANICS (\<lambda>(res, sm). verdict_ok sample_os sim_config_default res sm) r"
  by (rule run_verdict [OF sample_os_sim_ok])
     (simp_all add: sim_config_default_def LIVENESS_RETRY_GRACE_TICKS_def worker_consts word_le_nat_alt)

end
