(* ===== verification/Sim_Fuzz.thy ===== *)
theory Sim_Fuzz
  imports Sim_Runner Rust_Std
begin

text \<open>
  The fuzz driver of \<^verbatim>\<open>worker/src/bin/fuzz.rs\<close>: it splits a number of seeds over threads, runs the
  simulation of each seed with a configuration that may have one parameter changed, and counts the
  runs that do not pass. Each thread works on seeds of its own, so the threads are run one after
  the other; the lines a thread appends to the failure corpus are part of its result. The simulation
  run, the elapsed time at each seed, the number of processors and the clock are arguments.
\<close>

section \<open>Model\<close>

definition PARAM_COUNT :: u64 where "PARAM_COUNT = 12"

datatype fuzz_mode = Sequential | Random

record thread_result =
  tr_seeds_tested :: u64
  tr_failures_found :: u64
  tr_last_failure_seed :: u64

definition thread_result_default :: thread_result where
  "thread_result_default = \<lparr>tr_seeds_tested = 0, tr_failures_found = 0, tr_last_failure_seed = 0\<rparr>"

subsection \<open>Configurations\<close>

definition base_config :: sim_config where
  "base_config = sim_config_default\<lparr>sc_seed := 0\<rparr>"

definition random_ratio :: "prng \<Rightarrow> u32 \<Rightarrow> u32 \<Rightarrow> (ratio \<times> prng) res" where
  "random_ratio p max_num denom =
     and_then (bounded p (ucast max_num + 1)) (\<lambda>(x, p'). Inr (ratio_new (ucast x) denom, p'))"

definition mutate_param :: "u64 \<Rightarrow> prng \<Rightarrow> sim_config \<Rightarrow> sim_config res" where
  "mutate_param param p config =
     (if param = 0 then and_then (bounded p 8) (\<lambda>(x, _). Inr (config\<lparr>sc_agent_count := 1 + unat x\<rparr>))
      else if param = 1 then and_then (bounded p 45) (\<lambda>(x, _). Inr (config\<lparr>sc_pod_count := 5 + ucast x\<rparr>))
      else if param = 2 then and_then (random_ratio p 15 100) (\<lambda>(x, _). Inr (config\<lparr>sc_partition_probability := x\<rparr>))
      else if param = 3 then and_then (random_ratio p 20 100) (\<lambda>(x, _). Inr (config\<lparr>sc_heal_probability := x\<rparr>))
      else if param = 4 then and_then (random_ratio p 30 100) (\<lambda>(x, _). Inr (config\<lparr>sc_image_pull_failure_rate := x\<rparr>))
      else if param = 5 then and_then (random_ratio p 10 100) (\<lambda>(x, _). Inr (config\<lparr>sc_container_crash_rate := x\<rparr>))
      else if param = 6 then and_then (random_ratio p 10 100) (\<lambda>(x, _). Inr (config\<lparr>sc_gpu_failure_rate := x\<rparr>))
      else if param = 7 then and_then (bounded p 900) (\<lambda>(x, _). Inr (config\<lparr>sc_safety_ticks := 100 + x\<rparr>))
      else if param = 8 then and_then (bounded p 400) (\<lambda>(x, _). Inr (config\<lparr>sc_liveness_ticks := 100 + x\<rparr>))
      else if param = 9 then and_then (random_ratio p 5 100) (\<lambda>(x, _). Inr (config\<lparr>sc_drop_rate := x\<rparr>))
      else if param = 10 then and_then (random_ratio p 3 100) (\<lambda>(x, _). Inr (config\<lparr>sc_replay_rate := x\<rparr>))
      else if param = 11 then and_then (bounded p 64) (\<lambda>(x, _). Inr (config\<lparr>sc_path_max_capacity := 1 + unat x\<rparr>))
      else Inl ''internal error: entered unreachable code: bounded mutation parameter must be exhaustive'')"

definition mutate_config :: "sim_config \<Rightarrow> u64 \<Rightarrow> sim_config res" where
  "mutate_config base seed =
     and_then (bounded (prng_init (xor seed 0xC00F16)) PARAM_COUNT) (\<lambda>(param, p).
     and_then (mutate_param param p base) (\<lambda>config.
       Inr (config\<lparr>sc_liveness_ticks := max (sc_liveness_ticks config) LIVENESS_RETRY_GRACE_TICKS\<rparr>)))"

definition fuzz_config :: "bool \<Rightarrow> u64 \<Rightarrow> sim_config res" where
  "fuzz_config mutate seed =
     and_then (if mutate then mutate_config base_config seed else Inr base_config) (\<lambda>config.
       Inr (config\<lparr>sc_seed := seed\<rparr>))"

subsection \<open>Splitting the work\<close>

definition resolve_thread_count :: "nat option \<Rightarrow> u64 \<Rightarrow> nat \<Rightarrow> nat res" where
  "resolve_thread_count parallelism seed_count thread_count_arg =
     (if seed_count = 0 then Inr 1
      else let requested = (if thread_count_arg = 0 then (case parallelism of None \<Rightarrow> 1 | Some n \<Rightarrow> n)
                            else thread_count_arg)
           in and_then (ensure (requested > 0) ''thread count must be positive or 0 for auto'') (\<lambda>_.
                Inr (max (min requested (unat seed_count)) 1)))"

definition thread_range :: "u64 \<Rightarrow> nat \<Rightarrow> nat \<Rightarrow> (u64 \<times> u64) res" where
  "thread_range seed_count thread_count thread_index =
     and_then (ensure (thread_count > 0) ''thread count must be positive'') (\<lambda>_.
     and_then (ensure (thread_index < thread_count) ''thread index out of bounds'') (\<lambda>_.
       let base = seed_count div word_of_nat thread_count;
           extra = seed_count mod word_of_nat thread_count;
           index = word_of_nat thread_index;
           start = index * base + min index extra;
           len = base + (if index < extra then 1 else 0)
       in Inr (start, start + len)))"

subsection \<open>Running the seeds\<close>

definition show_ratio :: "ratio \<Rightarrow> string" where
  "show_ratio r = dec (unat (numerator r)) @ ''/'' @ dec (unat (denominator r))"

primrec show_outcome :: "run_verdict \<Rightarrow> string" where
  "show_outcome Passed = ''Passed''"
| "show_outcome SafetyViolation = ''SafetyViolation''"
| "show_outcome LivenessFailure = ''LivenessFailure''"

definition json_field :: "string \<Rightarrow> string \<Rightarrow> string" where
  "json_field name v = [CHR 0x22] @ name @ [CHR 0x22] @ '':'' @ v"

definition json_string :: "string \<Rightarrow> string" where
  "json_string s = [CHR 0x22] @ s @ [CHR 0x22]"

definition json_object :: "string list \<Rightarrow> string" where
  "json_object parts = ''{'' @ join '','' parts @ ''}''"

text \<open>The line \<open>record_failure\<close> appends to the corpus.\<close>

definition failure_line :: "u64 \<Rightarrow> sim_config \<Rightarrow> sim_result \<Rightarrow> string" where
  "failure_line seed config result =
     json_object
       [json_field ''engine'' (json_string ''rust''), json_field ''seed'' (dec (unat seed)),
        json_field ''outcome'' (json_string (show_outcome (rs_outcome result))),
        json_field ''config'' (json_object
          [json_field ''agents'' (dec (sc_agent_count config)), json_field ''pods'' (dec (unat (sc_pod_count config))),
           json_field ''partition'' (json_string (show_ratio (sc_partition_probability config))),
           json_field ''heal'' (json_string (show_ratio (sc_heal_probability config))),
           json_field ''pull_fail'' (json_string (show_ratio (sc_image_pull_failure_rate config))),
           json_field ''crash'' (json_string (show_ratio (sc_container_crash_rate config))),
           json_field ''drop'' (json_string (show_ratio (sc_drop_rate config))),
           json_field ''replay'' (json_string (show_ratio (sc_replay_rate config))),
           json_field ''path_capacity'' (dec (sc_path_max_capacity config))]),
        json_field ''result'' (json_object
          [json_field ''p1'' (dec (unat (rs_phase1_ticks result))), json_field ''p2'' (dec (unat (rs_phase2_ticks result))),
           json_field ''violations'' (dec (unat (rs_safety_violations result))),
           json_field ''messages'' (dec (unat (rs_messages_sent result)))])]
     @ [LF]"

definition count_result :: "u64 \<Rightarrow> sim_config \<Rightarrow> sim_result \<Rightarrow> thread_result \<times> string list \<Rightarrow> thread_result \<times> string list" where
  "count_result seed config result acc =
     (let tr = (fst acc)\<lparr>tr_seeds_tested := tr_seeds_tested (fst acc) + 1\<rparr> in
      if rs_outcome result \<noteq> Passed then
        (tr\<lparr>tr_failures_found := tr_failures_found tr + 1, tr_last_failure_seed := seed\<rparr>,
         snd acc @ [failure_line seed config result])
      else (tr, snd acc))"

type_synonym runner = "sim_config \<Rightarrow> sim_result res option"

definition seed_of :: "fuzz_mode \<Rightarrow> u64 list \<Rightarrow> nat \<Rightarrow> u64 res" where
  "seed_of mode random_seeds index =
     (case mode of Sequential \<Rightarrow> Inr (word_of_nat index) | Random \<Rightarrow> index_at random_seeds index)"

fun fuzz_indices ::
    "runner \<Rightarrow> (nat \<Rightarrow> u64) \<Rightarrow> u64 \<Rightarrow> fuzz_mode \<Rightarrow> bool \<Rightarrow> u64 list \<Rightarrow> nat list
       \<Rightarrow> thread_result \<times> string list \<Rightarrow> (thread_result \<times> string list) res option" where
  "fuzz_indices run_sim elapsed budget mode mutate random_seeds [] acc = Some (Inr acc)"
| "fuzz_indices run_sim elapsed budget mode mutate random_seeds (index # rest) acc =
     (if budget > 0 \<and> elapsed index \<ge> budget then Some (Inr acc)
      else bind_run (Some (seed_of mode random_seeds index)) (\<lambda>seed.
           bind_run (Some (fuzz_config mutate seed)) (\<lambda>config.
           bind_run (run_sim config) (\<lambda>result.
             fuzz_indices run_sim elapsed budget mode mutate random_seeds rest (count_result seed config result acc)))))"

definition fuzz_worker ::
    "runner \<Rightarrow> (nat \<Rightarrow> u64) \<Rightarrow> u64 \<Rightarrow> fuzz_mode \<Rightarrow> bool \<Rightarrow> u64 list \<Rightarrow> u64 \<Rightarrow> u64 \<Rightarrow> (thread_result \<times> string list) res option" where
  "fuzz_worker run_sim elapsed budget mode mutate random_seeds start_index end_index =
     fuzz_indices run_sim elapsed budget mode mutate random_seeds [unat start_index..<unat end_index]
       (thread_result_default, [])"

primrec random_seeds_from :: "nat \<Rightarrow> prng \<Rightarrow> u64 list" where
  "random_seeds_from 0 p = []"
| "random_seeds_from (Suc n) p = (let (x, p') = prng_next p in x # random_seeds_from n p')"

definition add_thread :: "thread_result \<Rightarrow> thread_result \<Rightarrow> thread_result" where
  "add_thread acc r =
     \<lparr>tr_seeds_tested = tr_seeds_tested acc + tr_seeds_tested r,
      tr_failures_found = tr_failures_found acc + tr_failures_found r,
      tr_last_failure_seed = max (tr_last_failure_seed acc) (tr_last_failure_seed r)\<rparr>"

definition THREAD_PANICKED :: string where "THREAD_PANICKED = ''fuzz worker thread panicked''"

text \<open>One thread and its join: a panic of the thread becomes the panic of the joining thread.\<close>

definition join_thread ::
    "runner \<Rightarrow> (nat \<Rightarrow> u64) \<Rightarrow> u64 \<Rightarrow> fuzz_mode \<Rightarrow> bool \<Rightarrow> u64 list \<Rightarrow> u64 \<Rightarrow> nat \<Rightarrow> nat
       \<Rightarrow> thread_result \<times> string list \<Rightarrow> (thread_result \<times> string list) res option" where
  "join_thread run_sim elapsed budget mode mutate random_seeds seed_count thread_count i acc =
     bind_run (Some (thread_range seed_count thread_count i)) (\<lambda>(start_index, end_index).
       case fuzz_worker run_sim elapsed budget mode mutate random_seeds start_index end_index of
         None \<Rightarrow> None
       | Some (Inl _) \<Rightarrow> Some (Inl THREAD_PANICKED)
       | Some (Inr (r, file_lines)) \<Rightarrow> Some (Inr (add_thread (fst acc) r, snd acc @ file_lines)))"

definition run_fuzzer ::
    "runner \<Rightarrow> (nat \<Rightarrow> u64) \<Rightarrow> nat option \<Rightarrow> u64 \<Rightarrow> string \<Rightarrow> u64 \<Rightarrow> u64 \<Rightarrow> nat \<Rightarrow> bool
       \<Rightarrow> (thread_result \<times> string list) res option" where
  "run_fuzzer run_sim elapsed parallelism clock_nanos mode_text seed_count budget thread_count_arg mutate =
     (let mode = (if mode_text = ''random'' then Random else Sequential);
          random_seeds = (if mode = Random then random_seeds_from (unat seed_count) (prng_init clock_nanos) else [])
      in bind_run (Some (resolve_thread_count parallelism seed_count thread_count_arg)) (\<lambda>thread_count.
           fold_run (join_thread run_sim elapsed budget mode mutate random_seeds seed_count thread_count)
             [0..<thread_count] (thread_result_default, [])))"

subsection \<open>The command line\<close>

record fuzz_args =
  fa_mode :: string
  fa_seed_count :: u64
  fa_budget_secs :: u64
  fa_thread_count :: nat
  fa_mutate :: bool
  fa_replay_seed :: "u64 option"
  fa_verbose :: bool

definition fuzz_args_default :: fuzz_args where
  "fuzz_args_default =
     \<lparr>fa_mode = ''sequential'', fa_seed_count = 1000, fa_budget_secs = 0, fa_thread_count = 0, fa_mutate = False,
      fa_replay_seed = None, fa_verbose = False\<rparr>"

definition or_default :: "'a option \<Rightarrow> 'a \<Rightarrow> 'a" where
  "or_default x d = (case x of None \<Rightarrow> d | Some y \<Rightarrow> y)"

fun parse_fuzz_args :: "string list \<Rightarrow> fuzz_args \<Rightarrow> fuzz_args" where
  "parse_fuzz_args [] fa = fa"
| "parse_fuzz_args (x # rest) fa =
     (if x = ''sequential'' then parse_fuzz_args rest (fa\<lparr>fa_mode := ''sequential''\<rparr>)
      else if x = ''random'' then parse_fuzz_args rest (fa\<lparr>fa_mode := ''random''\<rparr>)
      else if x = ''replay'' \<and> rest \<noteq> [] then
        parse_fuzz_args (tl rest) (fa\<lparr>fa_mode := ''replay'', fa_replay_seed := parse_u64 (hd rest)\<rparr>)
      else if x = ''--seeds'' \<and> rest \<noteq> [] then
        parse_fuzz_args (tl rest) (fa\<lparr>fa_seed_count := or_default (parse_u64 (hd rest)) 1000\<rparr>)
      else if x = ''--budget'' \<and> rest \<noteq> [] then
        parse_fuzz_args (tl rest) (fa\<lparr>fa_budget_secs := or_default (parse_u64 (hd rest)) 0\<rparr>)
      else if x = ''--threads'' \<and> rest \<noteq> [] then
        parse_fuzz_args (tl rest) (fa\<lparr>fa_thread_count := or_default (parse_usize (hd rest)) 1\<rparr>)
      else if x = ''--mutate'' then parse_fuzz_args rest (fa\<lparr>fa_mutate := True\<rparr>)
      else if x = ''--verbose'' then parse_fuzz_args rest (fa\<lparr>fa_verbose := True\<rparr>)
      else parse_fuzz_args rest fa)"

text \<open>The exit code of a replay and of the whole driver; \<open>args\<close> are those after the program's name.\<close>

definition run_replay :: "runner \<Rightarrow> u64 \<Rightarrow> bool \<Rightarrow> nat res option" where
  "run_replay run_sim seed mutate =
     bind_run (Some (fuzz_config mutate seed)) (\<lambda>config.
     bind_run (run_sim config) (\<lambda>result. Some (Inr (if rs_outcome result \<noteq> Passed then 1 else 0))))"

definition fuzz_main ::
    "runner \<Rightarrow> (nat \<Rightarrow> u64) \<Rightarrow> nat option \<Rightarrow> u64 \<Rightarrow> string list \<Rightarrow> nat res option" where
  "fuzz_main run_sim elapsed parallelism clock_nanos args =
     (let fa = parse_fuzz_args args fuzz_args_default in
      if fa_mode fa = ''replay'' then
        (case fa_replay_seed fa of None \<Rightarrow> Some (Inr 2) | Some seed \<Rightarrow> run_replay run_sim seed (fa_mutate fa))
      else bind_run (run_fuzzer run_sim elapsed parallelism clock_nanos (fa_mode fa) (fa_seed_count fa)
                       (fa_budget_secs fa) (fa_thread_count fa) (fa_mutate fa)) (\<lambda>(r, _).
             Some (Inr (if tr_failures_found r > 0 then 1 else 0))))"

section \<open>The seeds are split without gap or overlap\<close>

definition offset :: "nat \<Rightarrow> nat \<Rightarrow> nat \<Rightarrow> nat" where
  "offset amount n i = i * (amount div n) + min i (amount mod n)"

lemma offset_bounds: "0 < n \<Longrightarrow> i \<le> n \<Longrightarrow> offset amount n i \<le> amount"
proof -
  assume "0 < n" "i \<le> n"
  then have "i * (amount div n) \<le> n * (amount div n)" by simp
  moreover have "min i (amount mod n) \<le> amount mod n" by simp
  ultimately show ?thesis unfolding offset_def by (metis add_le_mono mult_div_mod_eq)
qed

lemma offset_ends: "0 < n \<Longrightarrow> offset amount n 0 = 0" "0 < n \<Longrightarrow> offset amount n n = amount"
  by (simp_all add: offset_def min_absorb2 less_imp_le)

lemma offset_Suc: "offset amount n (Suc i) = offset amount n i + (amount div n + (if i < amount mod n then 1 else 0))"
  by (simp add: offset_def)

lemma unat_mult_no_overflow:
  "unat (a :: 'a::len word) * unat b < 2 ^ LENGTH('a) \<Longrightarrow> unat (a * b) = unat a * unat b"
  by (simp add: unat_word_ariths)

lemma thread_range_offsets:
  assumes "i < n" "n < 2 ^ 64"
  shows "\<exists>s e. thread_range seed_count n i = Inr (s, e)
    \<and> unat s = offset (unat seed_count) n i \<and> unat e = offset (unat seed_count) n (Suc i)"
proof -
  let ?amount = "unat seed_count" and ?n = "word_of_nat n :: u64" and ?i = "word_of_nat i :: u64"
  let ?start = "?i * (seed_count div ?n) + min ?i (seed_count mod ?n)"
  let ?len = "seed_count div ?n + (if ?i < seed_count mod ?n then 1 else 0)"
  have n: "unat ?n = n" "unat ?i = i" using assms by (simp_all add: unat_of_nat)
  have dm: "unat (seed_count div ?n) = ?amount div n" "unat (seed_count mod ?n) = ?amount mod n"
    by (simp_all add: unat_div unat_mod n)
  have less: "?i < seed_count mod ?n \<longleftrightarrow> i < ?amount mod n" by (simp add: word_less_nat_alt dm n)
  have bound: "offset ?amount n (Suc i) < 2 ^ 64"
    using offset_bounds [of n "Suc i" ?amount] assms(1) unat_less_pow [of seed_count] by simp
  have parts: "i * (?amount div n) < 2 ^ 64" "i * (?amount div n) + min i (?amount mod n) < 2 ^ 64"
    "offset ?amount n i + (?amount div n + (if i < ?amount mod n then 1 else 0)) < 2 ^ 64"
    using bound unfolding offset_Suc by (simp_all add: offset_def)
  have mn: "unat (min ?i (seed_count mod ?n)) = min i (?amount mod n)"
    by (simp add: min_def word_le_nat_alt dm n)
  have "unat (?i * (seed_count div ?n)) = i * (?amount div n)"
    using unat_mult_no_overflow [of ?i "seed_count div ?n"] parts(1) unfolding n dm by simp
  then have start: "unat ?start = offset ?amount n i"
    using unat_add_no_overflow [of "?i * (seed_count div ?n)" "min ?i (seed_count mod ?n)"] parts(2)
    unfolding mn offset_def by simp
  have "unat (1 :: u64) = 1" "unat (0 :: u64) = 0" by simp_all
  then have len: "unat ?len = ?amount div n + (if i < ?amount mod n then 1 else 0)"
    using unat_add_no_overflow [of "seed_count div ?n" "if ?i < seed_count mod ?n then 1 else 0"] parts(3)
    unfolding dm less by (simp split: if_splits)
  have "unat (?start + ?len) = offset ?amount n (Suc i)"
    using unat_add_no_overflow [of ?start ?len] parts(3) unfolding start len offset_Suc by simp
  with start show ?thesis
    using assms(1) by (auto simp: thread_range_def Let_def)
qed

lemma upt_offsets: "k \<le> n \<Longrightarrow> 0 < n \<Longrightarrow> concat (map (\<lambda>i. [offset amount n i..<offset amount n (Suc i)]) [0..<k]) = [0..<offset amount n k]"
proof (induction k)
  case (Suc k)
  have "[0..<offset amount n (Suc k)] = [0..<offset amount n k] @ [offset amount n k..<offset amount n (Suc k)]"
    unfolding offset_Suc by (rule upt_add_eq_append) simp
  with Suc show ?case by simp
qed (simp add: offset_ends)

text \<open>
  The threads of a fuzz run share out the seeds exactly: for every number of seeds and threads,
  computing the ranges never overflows, and one after the other they run through all seed indices,
  each once.
\<close>

theorem seeds_partitioned:
  assumes "0 < n" and "n < 2 ^ 64"
  shows "\<exists>ranges. map (thread_range seed_count n) [0..<n] = map Inr ranges
    \<and> concat (map (\<lambda>(s, e). [unat s..<unat e]) ranges) = [0..<unat seed_count]"
proof -
  let ?f = "\<lambda>i. projr (thread_range seed_count n i)"
  have "thread_range seed_count n i = Inr (?f i) \<and> unat (fst (?f i)) = offset (unat seed_count) n i
      \<and> unat (snd (?f i)) = offset (unat seed_count) n (Suc i)" if "i < n" for i
    using thread_range_offsets [OF that assms(2), of seed_count] by auto
  then have 1: "map (thread_range seed_count n) [0..<n] = map Inr (map ?f [0..<n])"
    and 2: "map (\<lambda>(s, e). [unat s..<unat e]) (map ?f [0..<n])
      = map (\<lambda>i. [offset (unat seed_count) n i..<offset (unat seed_count) n (Suc i)]) [0..<n]"
    by (auto simp: case_prod_beta)
  have "concat (map (\<lambda>(s, e). [unat s..<unat e]) (map ?f [0..<n])) = [0..<unat seed_count]"
    unfolding 2 using upt_offsets [of n n "unat seed_count"] assms(1) by (simp add: offset_ends)
  with 1 show ?thesis by blast
qed

theorem seeds_partitioned_witness:
  "\<exists>ranges. map (thread_range 10 3) [0..<3] = map Inr ranges
    \<and> concat (map (\<lambda>(s, e). [unat s..<unat e]) ranges) = [0..<10]"
  using seeds_partitioned [of 3 10] by simp

section \<open>A fuzz campaign\<close>

definition sim_runner :: "'h os \<Rightarrow> 'h \<Rightarrow> schedules \<Rightarrow> runner" where
  "sim_runner os host sched config = bind_run (run os host sched config) (\<lambda>(res, _). Some (Inr res))"

definition runnable_config :: "sim_config \<Rightarrow> bool" where
  "runnable_config c =
     (0 < sc_agent_count c \<and> sc_agent_count c < 2 ^ 64 \<and> unat (sc_pod_count c) \<le> 2048 \<and> 2 \<le> sc_safety_ticks c
      \<and> unat (sc_safety_ticks c) + unat (sc_liveness_ticks c) + 101 < 2 ^ 64)"

lemma bounded_draw:
  assumes "0 < b"
  obtains x p' where "bounded p b = Inr (x, p')" "x < b"
  using bounded_total [OF assms, of p] bounded_less by blast

lemma random_ratio_total: "max_num < 100 \<Longrightarrow> \<exists>q p'. random_ratio p max_num d = Inr (q, p')"
proof -
  assume "max_num < 100"
  then have "unat (ucast max_num + 1 :: u64) = unat max_num + 1"
    by (subst unat_add_no_overflow) (simp_all add: unat_ucast_up word_less_nat_alt)
  then have "(0 :: u64) < ucast max_num + 1" by (simp add: word_less_nat_alt)
  from bounded_total [OF this, of p] show ?thesis by (auto simp: random_ratio_def)
qed

lemma draw_total: "0 < b \<Longrightarrow> \<exists>x p'. bounded p b = Inr (x, p') \<and> unat x < unat b"
  using bounded_draw by (metis word_less_nat_alt)

definition small_config :: "sim_config \<Rightarrow> bool" where
  "small_config c =
     (0 < sc_agent_count c \<and> sc_agent_count c \<le> 8 \<and> unat (sc_pod_count c) < 50
      \<and> 100 \<le> unat (sc_safety_ticks c) \<and> unat (sc_safety_ticks c) < 1000 \<and> unat (sc_liveness_ticks c) < 1000)"

lemma small_config_runnable: "small_config c \<Longrightarrow> runnable_config c"
  by (auto simp: small_config_def runnable_config_def word_le_nat_alt)

lemma unat_offset_draw:
  assumes "unat (x :: u64) < k" "k \<le> 900"
  shows "unat (100 + x) = 100 + unat x" "unat (5 + ucast x :: u32) = 5 + unat x"
proof -
  show "unat (100 + x) = 100 + unat x" using assms by (subst unat_add_no_overflow) simp_all
  have "unat (ucast x :: u32) = unat x" using assms by (simp add: unsigned_ucast_eq take_bit_nat_eq_self)
  then show "unat (5 + ucast x :: u32) = 5 + unat x" using assms by (subst unat_add_no_overflow) simp_all
qed

lemma param_cases:
  assumes "(param :: u64) < 12"
  shows "param \<in> set [0, 1, 2, 3, 4, 5, 6, 7, 8, 9, 10, 11]"
proof -
  have "unat param < 12" using assms by (simp add: word_less_nat_alt)
  then have "unat param \<in> {0, 1, 2, 3, 4, 5, 6, 7, 8, 9, 10, 11}" unfolding insert_iff empty_iff by presburger
  then have "word_of_nat (unat param) \<in> (word_of_nat ` {0, 1, 2, 3, 4, 5, 6, 7, 8, 9, 10, 11} :: u64 set)" by blast
  then show ?thesis by simp
qed

lemma mutate_param_small:
  assumes "param < 12" "small_config c"
  shows "\<exists>c'. mutate_param param p c = Inr c' \<and> small_config c'"
proof -
  obtain x0 p0 where 0: "bounded p 8 = Inr (x0, p0)" "unat x0 < 8" using draw_total [of 8 p] by auto
  obtain x1 p1 where 1: "bounded p 45 = Inr (x1, p1)" "unat x1 < 45" using draw_total [of 45 p] by auto
  obtain x7 p7 where 7: "bounded p 900 = Inr (x7, p7)" "unat x7 < 900" using draw_total [of 900 p] by auto
  obtain x8 p8 where 8: "bounded p 400 = Inr (x8, p8)" "unat x8 < 400" using draw_total [of 400 p] by auto
  obtain x11 p11 where 11: "bounded p 64 = Inr (x11, p11)" using draw_total [of 64 p] by auto
  have r: "\<exists>q p'. random_ratio p m 100 = Inr (q, p')" if "m \<in> {15, 20, 30, 10, 5, 3}" for m
    using that by (intro random_ratio_total) auto
  show ?thesis
    using param_cases [OF assms(1)] assms(2) 0 1 7 8 11 unat_offset_draw [of x1 45] unat_offset_draw [of x7 900]
      unat_offset_draw [of x8 400] r [of 15] r [of 20] r [of 30] r [of 10] r [of 5] r [of 3]
    by (auto simp: mutate_param_def small_config_def)
qed

lemma base_config_small: "small_config base_config"
  by (simp add: small_config_def base_config_def sim_config_default_def LIVENESS_RETRY_GRACE_TICKS_def worker_consts)

lemma fuzz_config_runnable: "\<exists>c. fuzz_config mutate seed = Inr c \<and> runnable_config c"
proof (cases mutate)
  case True
  obtain param p where d: "bounded (prng_init (xor seed 0xC00F16)) PARAM_COUNT = Inr (param, p)" "param < 12"
    using bounded_draw [of PARAM_COUNT "prng_init (xor seed 0xC00F16)"] by (auto simp: PARAM_COUNT_def)
  obtain c where c: "mutate_param param p base_config = Inr c" "small_config c"
    using mutate_param_small [OF d(2) base_config_small] by blast
  let ?l = "max (sc_liveness_ticks c) LIVENESS_RETRY_GRACE_TICKS"
  have "unat ?l < 1000"
    using c(2) by (simp add: small_config_def max_def LIVENESS_RETRY_GRACE_TICKS_def worker_consts)
  then have "small_config (c\<lparr>sc_liveness_ticks := ?l, sc_seed := seed\<rparr>)" using c(2) by (simp add: small_config_def)
  then show ?thesis
    using True d(1) c(1) small_config_runnable by (auto simp: fuzz_config_def mutate_config_def)
next
  case False
  have "small_config (base_config\<lparr>sc_seed := seed\<rparr>)" using base_config_small by (simp add: small_config_def)
  then show ?thesis using False small_config_runnable by (auto simp: fuzz_config_def)
qed

definition runner_ok :: "runner \<Rightarrow> bool" where
  "runner_ok run_sim = (\<forall>c. runnable_config c \<longrightarrow> (\<exists>r. run_sim c = Some r \<and> outcome SIM_PANICS (\<lambda>_. True) r))"

lemma sim_runner_ok: "os_ok SIM_PANICS os \<Longrightarrow> runner_ok (sim_runner os host sched)"
  unfolding runner_ok_def
proof (intro allI impI)
  fix c
  assume "os_ok SIM_PANICS os" "runnable_config c"
  then obtain r where "run os host sched c = Some r" "outcome SIM_PANICS (\<lambda>(res, sm). verdict_ok os c res sm) r"
    using run_ok [of os c host sched] by (auto simp: runnable_config_def)
  then show "\<exists>r. sim_runner os host sched c = Some r \<and> outcome SIM_PANICS (\<lambda>_. True) r"
    by (cases r) (auto simp: sim_runner_def bind_run_def)
qed

text \<open>The counters after \<open>k\<close> seeds.\<close>

definition counted :: "nat \<Rightarrow> thread_result \<times> string list \<Rightarrow> bool" where
  "counted k acc =
     (tr_seeds_tested (fst acc) = word_of_nat k \<and> tr_failures_found (fst acc) = word_of_nat (length (snd acc)))"

lemma counted_result: "counted k acc \<Longrightarrow> counted (Suc k) (count_result seed c res acc)"
  by (simp add: counted_def count_result_def Let_def add.commute)

lemma fuzz_indices_ok:
  assumes "runner_ok run_sim" "mode = Random \<Longrightarrow> \<forall>i \<in> set is. i < length seeds" "counted k acc"
  shows "\<exists>r. fuzz_indices run_sim elapsed 0 mode mutate seeds is acc = Some r
    \<and> outcome SIM_PANICS (counted (k + length is)) r"
  using assms(2,3)
proof (induction "is" arbitrary: acc k)
  case (Cons i rest)
  obtain seed where seed: "seed_of mode seeds i = Inr seed"
    using Cons.prems(1) by (cases mode) (auto simp: seed_of_def)
  obtain c where c: "fuzz_config mutate seed = Inr c" "runnable_config c" using fuzz_config_runnable by blast
  obtain r where r: "run_sim c = Some r" "outcome SIM_PANICS (\<lambda>_. True) r" using assms(1) c(2) by (auto simp: runner_ok_def)
  show ?case
  proof (cases r)
    case (Inr res)
    then show ?thesis
      using Cons.IH [OF _ counted_result [OF Cons.prems(2)], of seed c res] Cons.prems(1) seed c(1) r(1)
      by (simp add: bind_run_def)
  qed (use seed c(1) r in \<open>simp add: bind_run_def\<close>)
qed simp

lemma length_random_seeds: "length (random_seeds_from n p) = n"
  by (induction n arbitrary: p) (simp_all add: case_prod_beta Let_def)

lemma fold_run_snoc: "fold_run f (xs @ [x]) s = bind_run (fold_run f xs s) (f x)"
proof (induction xs arbitrary: s)
  case (Cons y xs)
  then show ?case by (cases "f y s") (auto simp: bind_run_def split: sum.splits)
qed (simp add: bind_run_def split: option.splits sum.splits)

lemma join_thread_ok:
  assumes "runner_ok run_sim" "mode = Random \<longrightarrow> length seeds = unat seed_count" "i < n" "n < 2 ^ 64"
    "counted (offset (unat seed_count) n i) acc"
  shows "\<exists>r. join_thread run_sim elapsed 0 mode mutate seeds seed_count n i acc = Some r
    \<and> outcome {THREAD_PANICKED} (counted (offset (unat seed_count) n (Suc i))) r"
proof -
  let ?o = "offset (unat seed_count) n"
  obtain s e where se: "thread_range seed_count n i = Inr (s, e)" "unat s = ?o i" "unat e = ?o (Suc i)"
    using thread_range_offsets [OF assms(3,4)] by blast
  have le: "?o i \<le> ?o (Suc i)" by (simp add: offset_Suc)
  have "j < length seeds" if "mode = Random" "j \<in> set [unat s..<unat e]" for j
    using that assms(2,3) se(3) offset_bounds [of n "Suc i" "unat seed_count"] by auto
  then obtain r where r: "fuzz_worker run_sim elapsed 0 mode mutate seeds s e = Some r"
      "outcome SIM_PANICS (counted (?o (Suc i) - ?o i)) r"
    using fuzz_indices_ok [OF assms(1), of mode "[unat s..<unat e]" seeds 0 "(thread_result_default, [])" elapsed mutate]
    by (auto simp: fuzz_worker_def counted_def thread_result_default_def se)
  show ?thesis
  proof (cases r)
    case (Inr x)
    then have "counted (?o (Suc i)) (add_thread (fst acc) (fst x), snd acc @ snd x)"
      using r(2) assms(5) le by (auto simp: counted_def add_thread_def simp flip: of_nat_add)
    with Inr se(1) r(1) show ?thesis by (cases x) (simp add: join_thread_def bind_run_def)
  qed (use se(1) r(1) in \<open>simp add: join_thread_def bind_run_def\<close>)
qed

lemma threads_ok:
  assumes "runner_ok run_sim" "mode = Random \<longrightarrow> length seeds = unat seed_count" "k \<le> n" "n < 2 ^ 64" "0 < n"
  shows "\<exists>r. fold_run (join_thread run_sim elapsed 0 mode mutate seeds seed_count n) [0..<k] (thread_result_default, []) = Some r
    \<and> outcome {THREAD_PANICKED} (counted (offset (unat seed_count) n k)) r"
  using assms(3)
proof (induction k)
  case (Suc k)
  let ?f = "join_thread run_sim elapsed 0 mode mutate seeds seed_count n"
  obtain r where r: "fold_run ?f [0..<k] (thread_result_default, []) = Some r"
      "outcome {THREAD_PANICKED} (counted (offset (unat seed_count) n k)) r" using Suc by auto
  have split: "fold_run ?f [0..<Suc k] (thread_result_default, []) = bind_run (Some r) (?f k)"
    using r(1) by (simp only: upt_Suc_append zero_le fold_run_snoc)
  show ?case
  proof (cases r)
    case (Inr acc)
    then show ?thesis
      using join_thread_ok [OF assms(1,2) _ assms(4), where i = k and acc = acc] Suc.prems r(2) split by (simp add: bind_run_def)
  qed (use r(2) split in \<open>simp add: bind_run_def\<close>)
qed (use assms(5) in \<open>simp add: counted_def thread_result_default_def offset_ends\<close>)



end
