(* ===== verification/Worker_Drain.thy ===== *)
theory Worker_Drain
  imports Worker_Shutdown Worker_Props
begin

text \<open>
  What \<open>Worker::shutdown\<close> achieves. The loop runs through the pods tracked at its start; each is
  either forgotten, after it was verified gone, or kept. A pod that is kept although it was terminal
  is put back into the state \<open>Stopping\<close> without its resources being claimed again, so the exact
  accounting of a running worker is lost. What remains true is that no more is allocated than the
  pods still tracked account for; it is kept by every further shutdown, and it is enough: a shutdown
  that reports success leaves nothing allocated.
\<close>

section \<open>One pod\<close>

definition covers :: "worker \<Rightarrow> bool" where
  "covers w =
     (unat (wk_gpu_allocated w) \<le> used (\<lambda>p. unat (tp_gpu_count p)) (wk_pods w)
      \<and> unat (wk_cpu_allocated_millicores w) \<le> used (\<lambda>p. unat (tp_cpu_millicores p)) (wk_pods w)
      \<and> unat (wk_memory_allocated_megabytes w) \<le> used (\<lambda>p. unat (tp_memory_megabytes p)) (wk_pods w))"

definition drainable :: "worker \<Rightarrow> bool" where
  "drainable w = (hm_wf (wk_pods w) \<and> hm_wf (wk_pending_failure_reasons w) \<and> pending_ok w \<and> covers w)"

lemma drainable_core: "core_inv w \<Longrightarrow> drainable w"
  by (simp add: core_inv_def drainable_def covers_def accounted_def)

lemma worker_inv_drainable: "worker_inv w \<Longrightarrow> drainable w"
  by (simp add: worker_inv_def drainable_core)

lemma used_insert_mono:
  assumes "hm_wf m" "hm_get m k = Some p" "is_terminal (tp_state q) \<longrightarrow> is_terminal (tp_state p)" "g q = g p"
  shows "used g m \<le> used g (hm_insert k q m)"
  using hm.total_ins_upd [OF assms(1,2), of "\<lambda>p. if is_terminal (tp_state p) then 0 else g p" q] assms(3,4)
  by (simp add: used_def split: if_splits)

lemma used_remove:
  assumes "hm_wf m" "hm_get m k = Some p"
  shows "used g m = (if is_terminal (tp_state p) then 0 else g p) + used g (hm_remove k m)"
  using hm.total_rem [OF assms] by (simp add: used_def)

text \<open>A pod may be changed as long as it keeps its claim and, if a failure is pending, stays \<open>Stopping\<close>.\<close>

lemma drainable_update:
  assumes inv: "drainable w" and p: "hm_get (wk_pods w) k = Some p"
    and f: "tp_gpu_count (f p) = tp_gpu_count p" "tp_cpu_millicores (f p) = tp_cpu_millicores p"
      "tp_memory_megabytes (f p) = tp_memory_megabytes p"
    and st: "tp_state (f p) \<in> {tp_state p, Stopping}"
  shows "drainable (update_pod k f w)"
proof -
  have wf: "hm_wf (wk_pods w)" using inv by (simp add: drainable_def)
  have t: "is_terminal (tp_state (f p)) \<longrightarrow> is_terminal (tp_state p)" using st by auto
  have pods: "wk_pods (update_pod k f w) = hm_insert k (f p) (wk_pods w)"
    using p by (simp add: update_pod_def hm_modify_Some)
  note u = used_insert_mono [OF wf p t]
  have "covers (update_pod k f w)"
    using inv u [of "\<lambda>p. unat (tp_gpu_count p)"] u [of "\<lambda>p. unat (tp_cpu_millicores p)"]
      u [of "\<lambda>p. unat (tp_memory_megabytes p)"] f
    by (auto simp: covers_def drainable_def pods) (auto simp: update_pod_def)
  then show ?thesis
    using inv p st by (auto simp: drainable_def pending_ok_def pods update_pod_def hm_modify_Some)
qed

lemma retain_pod_drainable:
  assumes "drainable w" "hm_get (wk_pods w) k \<noteq> None"
  shows "outcome X drainable (retain_pod k w)"
  using assms by (auto simp: retain_pod_def intro!: drainable_update)

text \<open>The worker after the pod was released, reported and forgotten.\<close>

definition forget :: "u64 \<Rightarrow> bool \<Rightarrow> worker \<Rightarrow> worker" where
  "forget k was_terminal w =
     (let w1 = w\<lparr>wk_pending_failure_reasons := hm_remove k (wk_pending_failure_reasons w)\<rparr>;
          w2 = (if was_terminal then w1 else release_pod_resources k w1)
      in w2\<lparr>wk_pods := hm_remove k (wk_pods w2)\<rparr>)"

lemma forget_drainable:
  assumes inv: "drainable w" and p: "hm_get (wk_pods w) k = Some p"
  shows "drainable (forget k (is_terminal (tp_state p)) w)"
proof -
  have wf: "hm_wf (wk_pods w)" using inv by (simp add: drainable_def)
  note u = used_remove [OF wf p]
  have "covers (forget k (is_terminal (tp_state p)) w)"
    using inv p u [of "\<lambda>p. unat (tp_gpu_count p)"] u [of "\<lambda>p. unat (tp_cpu_millicores p)"]
      u [of "\<lambda>p. unat (tp_memory_megabytes p)"]
    by (auto simp: covers_def drainable_def forget_def Let_def release_pod_resources_def unat_saturating_sub)
  then show ?thesis
    using inv p by (auto simp: drainable_def pending_ok_def forget_def Let_def release_pod_resources_def)
qed

lemma drainable_terminal_reason:
  "drainable w \<Longrightarrow> hm_get (wk_pods w) k = Some p \<Longrightarrow> is_terminal (tp_state p) \<Longrightarrow> hm_get (wk_pending_failure_reasons w) k = None"
  by (auto simp: drainable_def pending_ok_def)

lemma forget_pod_drainable:
  assumes env: "env_ok X cx" and inv: "drainable (sy_worker s)" and p: "hm_get (wk_pods (sy_worker s)) k = Some p"
  shows "outcome X (\<lambda>s'. drainable (sy_worker s')) (forget_pod cx k (is_terminal (tp_state p)) exit_code s)"
proof (cases "is_terminal (tp_state p)")
  case True
  then show ?thesis
    using forget_drainable [OF inv p] drainable_terminal_reason [OF inv p True]
    by (simp add: forget_pod_def modify_worker_def forget_def Let_def)
next
  case False
  let ?w = "release_pod_resources k (sy_worker s\<lparr>wk_pending_failure_reasons := hm_remove k (wk_pending_failure_reasons (sy_worker s))\<rparr>)"
  have "outcome X (\<lambda>s'. sy_worker s' = ?w) (send cx msg (s\<lparr>sy_worker := ?w\<rparr>))" for msg
    by (rule outcome_send [OF env]) simp
  then show ?thesis
    using False forget_drainable [OF inv p]
    by (auto simp: forget_pod_def modify_worker_def forget_def Let_def intro!: outcome_and_then [where P = "\<lambda>s'. sy_worker s' = ?w"])
qed

lemma release_shutdown_pod_drainable:
  assumes env: "env_ok X cx" and inv: "drainable (sy_worker s)" and p: "hm_get (wk_pods (sy_worker s)) k = Some p"
  shows "outcome X (\<lambda>s'. drainable (sy_worker s')) (release_shutdown_pod cx deadline k (is_terminal (tp_state p)) exit_code s)"
  unfolding release_shutdown_pod_def
  by (rule outcome_call [OF unmount_until_ok [OF env_okD(1) [OF env]]])
     (use inv p in \<open>auto intro!: outcome_on_worker retain_pod_drainable forget_pod_drainable [OF env] split: sum.split\<close>)

lemma stop_attempts_ok: "env_ok X cx \<Longrightarrow> calls_ok X (stop_attempts_loop cx h g d n)"
  by (induction n)
     (auto intro!: yields_bind [where P = "\<lambda>_. True"] simp: Let_def os_okD [OF env_okD(1)] rt_okD [OF env_okD(2)]
        split: sum.split pod_status.split)

lemma verify_exit_code_ok: "env_ok X cx \<Longrightarrow> calls_ok X (verify_exit_code cx d pod)"
  by (auto intro!: yields_bind [where P = "\<lambda>_. True"] stop_attempts_ok
        simp: verify_exit_code_def status_exit_code_def Let_def rt_okD [OF env_okD(2)] split: tracked_pod_state.split option.split)

lemma shutdown_pod_drainable:
  assumes env: "env_ok X cx" and inv: "drainable (sy_worker s)"
  shows "outcome X (\<lambda>s'. drainable (sy_worker s')) (shutdown_pod cx deadline k s)"
proof (cases "hm_get (wk_pods (sy_worker s)) k")
  case None
  then show ?thesis using inv by (simp add: shutdown_pod_def)
next
  case (Some p)
  note p = Some
  have retain: "outcome X (\<lambda>s'. drainable (sy_worker s')) (on_worker (retain_pod k) s1)"
    if "sy_worker s1 = sy_worker s" for s1 :: "('a, 'b) sys"
    using retain_pod_drainable [OF inv] p that by (auto intro!: outcome_on_worker)
  have release: "outcome X (\<lambda>s'. drainable (sy_worker s'))
      (release_shutdown_pod cx deadline k (is_terminal (tp_state p)) c (s1\<lparr>sy_worker := update_pod k (\<lambda>pod. pod\<lparr>tp_handle := None\<rparr>) (sy_worker s)\<rparr>))"
    for c and s1 :: "('a, 'b) sys"
    using release_shutdown_pod_drainable [OF env, of "s1\<lparr>sy_worker := update_pod k (\<lambda>pod. pod\<lparr>tp_handle := None\<rparr>) (sy_worker s)\<rparr>" k
        "p\<lparr>tp_handle := None\<rparr>"] drainable_update [OF inv p, of "\<lambda>pod. pod\<lparr>tp_handle := None\<rparr>"] p
    by (simp add: update_pod_def get_hm_modify)
  have gone: "outcome X (\<lambda>s'. drainable (sy_worker s'))
      (call (rt_remove_pod_until (cx_rt cx) h deadline) (\<lambda>r. case r of
         Inl _ \<Rightarrow> on_worker (retain_pod k)
       | Inr _ \<Rightarrow> (\<lambda>s1. and_then (expect (hm_get (wk_pods (sy_worker s1)) k) ''shutdown pod must remain tracked'') (\<lambda>_.
           release_shutdown_pod cx deadline k (is_terminal (tp_state p)) c
             (s1\<lparr>sy_worker := update_pod k (\<lambda>pod. pod\<lparr>tp_handle := None\<rparr>) (sy_worker s1)\<rparr>)))) (s\<lparr>sy_env := e\<rparr>))" for h c e
    by (rule outcome_call [OF rt_okD(11) [OF env_okD(2) [OF env]]]) (auto simp: p retain release split: sum.split)
  have direct: "outcome X (\<lambda>s'. drainable (sy_worker s'))
      (release_shutdown_pod cx deadline k (is_terminal (tp_state p)) c (s\<lparr>sy_env := e\<rparr>))" for c e
    using release_shutdown_pod_drainable [OF env, of "s\<lparr>sy_env := e\<rparr>" k p] inv p by simp
  show ?thesis
    unfolding shutdown_pod_def p option.case Let_def
  proof (rule outcome_call [OF verify_exit_code_ok [OF env]], goal_cases)
    case (1 verified e)
    show ?case
    proof (cases verified)
      case None
      then show ?thesis using retain inv by simp
    next
      case (Some c)
      show ?thesis
        unfolding Some option.case
        by (cases "tp_handle p") (simp_all only: option.case direct gone)
    qed
  qed
qed

section \<open>The loop\<close>

lemma shutdown_loop_drainable:
  assumes env: "env_ok X cx"
  shows "drainable (sy_worker s) \<Longrightarrow> outcome X (\<lambda>s'. drainable (sy_worker s')) (shutdown_loop cx deadline rest s)"
proof (induction rest arbitrary: s)
  case (Cons k rest)
  have "outcome X (\<lambda>s'. drainable (sy_worker s')) (shutdown_pod cx deadline k (s\<lparr>sy_env := e\<rparr>))" for e
    using shutdown_pod_drainable [OF env, of "s\<lparr>sy_env := e\<rparr>"] Cons.prems by simp
  then show ?case
    unfolding shutdown_loop.simps
    by (intro outcome_call [OF os_okD(1) [OF env_okD(1) [OF env]]])
       (auto simp: Cons.prems intro: outcome_and_then Cons.IH)
qed auto

lemma hm_all_None: "(\<And>k. hm_get m k = None) \<Longrightarrow> m = []"
proof (cases m)
  case (Cons x xs)
  assume "\<And>k. hm_get m k = None"
  then have "hm_get m (fst x) = None" by simp
  with Cons show "m = []" by (simp add: hm_get_def)
qed

definition idle :: "worker \<Rightarrow> bool" where
  "idle w = (wk_pods w = [] \<and> wk_pending_failure_reasons w = [] \<and> wk_gpu_allocated w = 0
     \<and> wk_cpu_allocated_millicores w = 0 \<and> wk_memory_allocated_megabytes w = 0)"

lemma drainable_idle:
  assumes "drainable w" "wk_pods w = []"
  shows "idle w"
proof -
  have "hm_get (wk_pending_failure_reasons w) k = None" for k
    using assms by (cases "hm_get (wk_pending_failure_reasons w) k") (auto simp: drainable_def pending_ok_def)
  then have "wk_pending_failure_reasons w = []" by (rule hm_all_None)
  moreover have "used f [] = 0" for f by (simp add: used_def hm.total_def hm_entries_def)
  ultimately show ?thesis using assms by (simp add: idle_def drainable_def covers_def unsigned_eq_0_iff)
qed

lemmas drainable_empty = drainable_idle [unfolded idle_def, THEN conjunct2]

lemma shutdown_drains:
  assumes "env_ok X cx" and "drainable (sy_worker s)"
  shows "outcome X (\<lambda>(ok, s'). drainable (sy_worker s') \<and> ok = (wk_pods (sy_worker s') = [])) (shutdown cx s)"
proof -
  have loop: "outcome X (\<lambda>s'. drainable (sy_worker s')) (shutdown_loop cx d ks (s\<lparr>sy_env := e\<rparr>))" for d ks e
    by (rule shutdown_loop_drainable [OF assms(1)]) (simp add: assms(2))
  have "outcome X (\<lambda>(r, e'). True) (os_instant_now (cx_os cx) (sy_env s))"
    using os_okD(1) [OF env_okD(1) [OF assms(1)]] by (simp add: yields_def)
  then have clock: "outcome X (\<lambda>_. True) (os_instant_now (cx_os cx) (sy_env s))" by (rule outcome_mono) simp
  have quiet: "drainable w \<Longrightarrow> wk_pods w = [] \<Longrightarrow> wk_pending_failure_reasons w = []" for w
    using drainable_idle by (auto simp: idle_def)
  show ?thesis
    unfolding shutdown_def shutdown_with_deadline_def
    by (auto simp: quiet intro!: outcome_and_then [OF clock] outcome_and_then [OF loop])
qed

text \<open>
  C3. A shutdown never panics by itself and its verdict can be trusted. On any reachable worker, with
  an environment whose panics are among a given set, it returns or panics with one of those; it
  reports success exactly when no pod is tracked any more, and then no failure reason is pending and
  nothing of the node's GPUs, CPU and memory is allocated.
\<close>

theorem shutdown_verdict:
  assumes "env_ok X cx" and "reachable cx s"
  shows "outcome X (\<lambda>(ok, s'). (ok \<longleftrightarrow> wk_pods (sy_worker s') = [])
      \<and> (ok \<longrightarrow> wk_pending_failure_reasons (sy_worker s') = [] \<and> wk_gpu_allocated (sy_worker s') = 0
           \<and> wk_cpu_allocated_millicores (sy_worker s') = 0 \<and> wk_memory_allocated_megabytes (sy_worker s') = 0))
    (shutdown cx s)"
  by (rule outcome_mono [OF shutdown_drains [OF assms(1) worker_inv_drainable [OF reachable_inv [OF assms(2)]]]])
     (auto dest: drainable_idle simp: idle_def)

theorem shutdown_verdict_witness:
  "outcome {} (\<lambda>(ok, s'). ok \<longleftrightarrow> wk_pods (sy_worker s') = []) (shutdown (good_cx StatusRunning) (small_sys1 [status_event 7 ReportCreating]))"
  by (rule outcome_mono [OF shutdown_verdict [OF good_env small_reachable1]]) auto

end
