(* ===== verification/Worker_Limits.thy ===== *)
theory Worker_Limits
  imports Worker_Drain Sim_Checker
begin

text \<open>
  Where the worker's guarantees end: states and inputs on which the code does not do what it is meant
  to. Each is a theorem about the same definitions as everywhere else.
\<close>

section \<open>The scan and the pruning of tombstones\<close>

lemma scan_missing:
  assumes "hm_get (wk_pods (sy_worker s)) j = None" "j \<in> set ks"
    and "\<And>i q. i \<in> set ks \<Longrightarrow> hm_get (wk_pods (sy_worker s)) i = Some q \<Longrightarrow> is_terminal (tp_state q)"
  shows "fold_res (scan_pod cx now) ks (ops, s) = Inl MISSING_KEY"
  using assms(2,3)
proof (induction ks)
  case (Cons i ks)
  show ?case
  proof (cases "hm_get (wk_pods (sy_worker s)) i")
    case None
    then show ?thesis by (simp add: scan_pod_def index_pod_def MISSING_KEY_def)
  next
    case (Some q)
    then have "is_terminal (tp_state q)" using Cons.prems(2) by (meson list.set_intros(1))
    then have "scan_pod cx now i (ops, s) = Inr (ops, s)"
      using Some by (cases "tp_state q") (simp_all add: scan_pod_def index_pod_def)
    moreover have "j \<in> set ks" using Cons.prems(1) Some assms(1) by auto
    moreover have "fold_res (scan_pod cx now) ks (ops, s) = Inl MISSING_KEY"
      by (rule Cons.IH) (use calculation(2) Cons.prems(2) in \<open>auto intro: list.set_intros(2)\<close>)
    ultimately show ?thesis by simp
  qed
qed simp

lemma sort_key_first:
  fixes k :: "'a :: linorder"
  assumes "k \<in> set ks" "\<And>j. j \<in> set ks \<Longrightarrow> k \<le> j" "distinct ks"
  shows "\<exists>rest. sort ks = k # rest \<and> set rest = set ks - {k}"
proof -
  obtain x rest where s: "sort ks = x # rest" using assms(1) by (cases "sort ks") (auto dest: arg_cong [of "sort ks" _ set])
  have st: "set (x # rest) = set ks" "sorted (x # rest)" "distinct (x # rest)"
    unfolding s [symmetric] using assms(3) by simp_all
  have "x \<le> k" using st(1,2) assms(1) by auto
  moreover have "k \<le> x" by (rule assms(2)) (use st(1) in auto)
  ultimately have "x = k" by simp
  then show ?thesis using s st(1,3) by auto
qed

text \<open>A pod that ends when all places for tombstones are taken evicts the oldest tombstone.\<close>

lemma retire_evicts:
  fixes reason :: string and now :: u64
  assumes inv: "core_inv w" "terminal_count w = MAX_TERMINAL_TOMBSTONES"
    and p: "hm_get (wk_pods w) k = Some p" "\<not> is_terminal (tp_state p)" "tp_handle p = None"
      "hm_get (wk_pending_failure_reasons w) k = None"
    and old: "\<And>j q. hm_get (wk_pods w) j = Some q \<Longrightarrow> j \<noteq> k \<Longrightarrow> tp_state_changed_at q < now"
  defines "f \<equiv> \<lambda>pod :: tracked_pod. pod\<lparr>tp_state := Failed reason, tp_state_changed_at := now\<rparr>"
  shows "\<exists>j w'. retire_pod k (update_pod k f w) = Inr w' \<and> j \<noteq> k \<and> hm_get (wk_pods w) j \<noteq> None
    \<and> hm_get (wk_pods w') = (hm_get (wk_pods w))(k \<mapsto> scrub_pod (f p), j := None)"
proof -
  let ?w = "retired k (f p) w"
  have q: "is_terminal (tp_state (f p))" "tp_handle (f p) = None" "tp_pod_id (f p) = tp_pod_id p"
    "tp_gpu_count (f p) = tp_gpu_count p" "tp_cpu_millicores (f p) = tp_cpu_millicores p"
    "tp_memory_megabytes (f p) = tp_memory_megabytes p" "tp_state_changed_at (f p) = now"
    using p by (simp_all add: f_def)
  note ret = retired_core_inv [OF inv(1) p(1,2,4) q(1-6)]
  have pods: "hm_get (wk_pods ?w) = (hm_get (wk_pods w))(k \<mapsto> scrub_pod (f p))" by (simp add: retired_def)
  have "length (sort (terminal_entries ?w)) = Suc MAX_TERMINAL_TOMBSTONES"
    using ret(2) inv(2) by (simp add: terminal_count_def)
  then obtain e es where "sort (terminal_entries ?w) = e # es" by (cases "sort (terminal_entries ?w)") simp_all
  then obtain t j where es: "sort (terminal_entries ?w) = (t, j) # es" by (cases e) simp
  have pr: "pruned MAX_TERMINAL_TOMBSTONES ?w = [j]" using ret(2) inv(2) es by (simp add: pruned_def)
  have srt: "sorted ((t, j) # es)" "set (terminal_entries ?w) = set ((t, j) # es)"
    unfolding es [symmetric] by simp_all
  have first: "(t, j) \<in> set (terminal_entries ?w)" "(t, j) \<le> e'" if "e' \<in> set (terminal_entries ?w)" for e'
    using srt that by auto
  have "terminal_entries w \<noteq> []" using inv(2) by (auto simp: terminal_count_def worker_consts)
  then obtain t0 i where "(t0, i) \<in> set (terminal_entries w)" by (metis list.set_intros(1) neq_Nil_conv surj_pair)
  then obtain q' where i: "hm_get (wk_pods w) i = Some q'" "is_terminal (tp_state q')"
    unfolding in_terminal_entries [OF inv(1)] by blast
  then have ik: "i \<noteq> k" using p by auto
  have e1: "(tp_state_changed_at q', i) \<in> set (terminal_entries ?w)"
    using i ik unfolding in_terminal_entries [OF ret(1)] by (simp add: pods)
  note tj = first(1) [OF e1]
  have "t < now" using first(2) [OF e1] old [OF i(1) ik] by (auto simp: less_eq_prod_def)
  then have jk: "j \<noteq> k" using tj q(7) unfolding in_terminal_entries [OF ret(1)] by (auto simp: pods scrub_pod_def)
  have "hm_get (wk_pods w) j \<noteq> None"
    using tj jk unfolding in_terminal_entries [OF ret(1)] by (auto simp: pods)
  moreover have "retire_pod k (update_pod k f w) = Inr (?w\<lparr>wk_pods := hm_remove j (wk_pods ?w)\<rparr>)"
    using retire_pod_eq [of w k p f] p(1) q(1,2) prune_eq [OF ret(1), of MAX_TERMINAL_TOMBSTONES] pr by simp
  ultimately show ?thesis using jk pods by (intro exI conjI) auto
qed

text \<open>
  C32. A worker with all its tombstones in use can be brought down by one failing mount. The scan runs
  over the keys it saw at its start, but a pod that fails in the scan is retired at once, which evicts
  the oldest tombstone; when the scan comes to that key, the lookup panics. This happens in every state
  that keeps the worker's invariant, with as many tombstones as are kept, all older than this tick, and
  a single pod, of the smallest identifier, whose volume cannot be mounted.
\<close>

theorem scan_panics:
  assumes "worker_inv (sy_worker s)" and "terminal_count (sy_worker s) = MAX_TERMINAL_TOMBSTONES"
    and "hm_get (wk_pods (sy_worker s)) k = Some p" and "tp_state p = Creating" and "tp_lifecycle_retry_after_tick p \<le> now"
    and "\<forall>j q. hm_get (wk_pods (sy_worker s)) j = Some q \<longrightarrow> j \<noteq> k
           \<longrightarrow> is_terminal (tp_state q) \<and> k < j \<and> tp_state_changed_at q < now"
    and "pod_mounts (cx_os cx) k p (sy_env s) = Inr (Inl err, e)" and "unmount_juicefs (cx_os cx) k e = Inr (Inr u, e')"
    and "\<forall>m i. \<exists>i'. io_send (cx_io cx) m i = Inr i'"
  shows "scan_pods cx now s = Inl ''no entry found for key''"
proof -
  let ?w = "sy_worker s"
  let ?reason = "''juicefs mount failed: '' @ err"
  let ?f = "\<lambda>pod :: tracked_pod. pod\<lparr>tp_state := Failed ?reason, tp_state_changed_at := now\<rparr>"
  have core: "core_inv ?w" using assms(1) by (simp add: worker_inv_def)
  have h: "tp_handle p = None" "hm_get (wk_pending_failure_reasons ?w) k = None"
    using core_inv_pod [OF core assms(3)] core_inv_no_pending [OF core, of k] assms(3,4) by (simp_all add: pod_ok_def)
  obtain j w' where r: "retire_pod k (update_pod k ?f ?w) = Inr w'" and j: "j \<noteq> k" "hm_get (wk_pods ?w) j \<noteq> None"
    and pods: "hm_get (wk_pods w') = (hm_get (wk_pods ?w))(k \<mapsto> scrub_pod (?f p), j := None)"
    using retire_evicts [OF core assms(2,3) _ h, of now ?reason] assms(4,6) by auto
  let ?s = "s\<lparr>sy_env := e', sy_worker := w'\<rparr>"
  obtain i where i: "io_send (cx_io cx) (status_event k (ReportFailed ?reason)) (sy_io s) = Inr i" using assms(9) by blast
  define s1 where "s1 = ?s\<lparr>sy_io := i, sy_out := sy_out s @ [status_event k (ReportFailed ?reason)]\<rparr>"
  have s1: "sy_worker s1 = w'" by (simp add: s1_def)
  have "fail_pod cx k ?reason now (s\<lparr>sy_env := e\<rparr>) = Inr s1"
    using assms(3,8) h r i by (simp add: fail_pod_def call_def on_worker_def send_def s1_def)
  then have first: "scan_pod cx now k ([], s) = Inr ([], s1)"
    using assms(3,4,5,7) by (simp add: scan_pod_def scan_creating_def index_pod_def)
  obtain rest where rest: "sort (hm_keys (wk_pods ?w)) = k # rest" "set rest = dom (hm_get (wk_pods ?w)) - {k}"
    using sort_key_first [of k "hm_keys (wk_pods ?w)"] assms(3,6) core by (force simp: core_inv_def)
  have "fold_res (scan_pod cx now) rest ([], s1) = Inl MISSING_KEY"
    by (rule scan_missing [of _ j]) (use j rest(2) s1 pods assms(6) in \<open>auto split: if_splits\<close>)
  then show ?thesis by (simp add: scan_pods_def rest(1) first MISSING_KEY_def)
qed

text \<open>A node with 1024 stopped pods and one about to be created whose volume cannot be mounted.\<close>

definition stopped_pod :: "u64 \<Rightarrow> tracked_pod" where
  "stopped_pod i = (new_pod (small_start\<lparr>sp_pod_id := i, sp_entrypoint := [], sp_juicefs_path := []\<rparr>) 0 [] None)\<lparr>tp_state := Stopped 0\<rparr>"

definition unmountable_pod :: tracked_pod where
  "unmountable_pod = (new_pod (small_start\<lparr>sp_pod_id := 1, sp_gpu_count := 0, sp_cpu_millicores := 0, sp_memory_megabytes := 0,
     sp_juicefs_path := ''v''\<rparr>) 0 [] None)\<lparr>tp_state := Creating\<rparr>"

definition stopped_ids :: "nat list" where
  "stopped_ids = [2..<1026]"

definition full_worker :: worker where
  "full_worker = small_worker\<lparr>wk_pods := (1, unmountable_pod) # map (\<lambda>i. (word_of_nat i, stopped_pod (word_of_nat i))) stopped_ids\<rparr>"

lemma unat_small: "n < 1026 \<Longrightarrow> unat (word_of_nat n :: u64) = n"
  by (simp add: unsigned_of_nat take_bit_nat_eq_self)

lemma stopped_ids: "set stopped_ids = {2..<1026}" "length stopped_ids = 1024" "distinct stopped_ids"
  by (simp_all only: stopped_ids_def set_upt length_upt distinct_upt)

lemma stopped_inj: "inj_on (word_of_nat :: nat \<Rightarrow> u64) {2..<1026}"
  by (rule inj_on_inverseI [where g = unat]) (simp add: unat_small)

lemma full_get:
  "hm_get (wk_pods full_worker) k = Some p
     \<Longrightarrow> k = 1 \<and> p = unmountable_pod \<or> (\<exists>i. 2 \<le> i \<and> i < 1026 \<and> k = word_of_nat i \<and> p = stopped_pod k)"
  by (auto simp: full_worker_def hm_get_def stopped_ids(1) split: if_splits dest!: map_of_SomeD) blast

lemma full_node:
  "wk_pending_failure_reasons full_worker = []" "wk_gpu_allocated full_worker = 0" "wk_cpu_allocated_millicores full_worker = 0"
  "wk_memory_allocated_megabytes full_worker = 0" "node_size_ok full_worker"
  by (simp_all add: full_worker_def small_worker_def new_with_lifecycle_concurrency_def worker_new_def node_size_ok_def
        word_less_nat_alt unat_minus_one)

lemma full_total:
  "hm.total g (wk_pods full_worker) = g unmountable_pod + sum_list (map (\<lambda>i. g (stopped_pod (word_of_nat i))) stopped_ids)"
  by (simp add: hm.total_def hm_entries_def full_worker_def comp_def)

lemma full_pods:
  "tp_state (stopped_pod i) = Stopped 0" "tp_pod_id (stopped_pod i) = i" "pod_ok (stopped_pod i)" "tp_state_changed_at (stopped_pod i) = 0"
  "tp_state unmountable_pod = Creating" "tp_pod_id unmountable_pod = 1" "pod_ok unmountable_pod" "tp_gpu_count unmountable_pod = 0"
  "tp_cpu_millicores unmountable_pod = 0" "tp_memory_megabytes unmountable_pod = 0" "tp_juicefs_path unmountable_pod = ''v''"
  "tp_lifecycle_retry_after_tick unmountable_pod = 0"
  by (simp_all add: pod_ok_def unmountable_pod_def stopped_pod_def new_pod_def)

lemma full_worker_inv: "worker_inv full_worker" "terminal_count full_worker = MAX_TERMINAL_TOMBSTONES"
proof -
  have "(1 :: u64) \<noteq> word_of_nat i" if "i \<in> set stopped_ids" for i
    using that unat_small [of i] by (auto simp: stopped_ids(1) dest: arg_cong [of _ _ unat])
  then have "hm_wf (wk_pods full_worker)"
    using stopped_inj by (auto simp: full_worker_def hm_wf_def comp_def distinct_map stopped_ids)
  moreover have "pods_ok full_worker" unfolding pods_ok_def using full_get by (blast intro: full_pods)
  moreover have "used g (wk_pods full_worker) = g unmountable_pod" for g
    by (simp add: used_def full_total full_pods sum_list_triv)
  ultimately have "core_inv full_worker"
    by (simp add: core_inv_def pending_ok_def accounted_def full_node full_pods)
  moreover show "terminal_count full_worker = MAX_TERMINAL_TOMBSTONES"
    by (simp add: terminal_count_total full_total full_pods sum_list_triv stopped_ids(2) worker_consts)
  moreover have "hm_len (wk_pods full_worker) \<le> MAX_TRACKED_PODS"
    by (simp add: full_worker_def hm_len_def worker_consts stopped_ids(2))
  ultimately show "worker_inv full_worker" by (simp add: worker_inv_def)
qed

theorem scan_panics_witness:
  "scan_pods (good_cx StatusRunning) 7 \<lparr>sy_worker = full_worker, sy_env = 5, sy_io = [], sy_out = []\<rparr> = Inl ''no entry found for key''"
proof -
  let ?s = "\<lparr>sy_worker = full_worker, sy_env = 5, sy_io = [], sy_out = []\<rparr>"
  have m: "\<exists>err. pod_mounts (cx_os (good_cx StatusRunning)) 1 unmountable_pod (sy_env ?s) = Inr (Inl err, 5)"
    by (simp add: pod_mounts_def full_pods mount_juicefs_def ret_def bind_call_def)
  have "list_ex (mount_line (mount_dir 1)) (lines ''36 35 98:0 / /tmp/hivemind/mounts/7/juicefs rw'') = False"
    by code_simp
  then have "\<exists>e'. unmount_juicefs (cx_os (good_cx StatusRunning)) 1 5 = Inr (Inr (), e')"
    by (simp add: unmount_juicefs_def unmount_juicefs_until_def mount_is_active_def remove_pod_dir_def try_call_def
          good_cx_def sample_os_def bind_call_def ret_def Let_def)
  then obtain e' where u: "unmount_juicefs (cx_os (good_cx StatusRunning)) 1 5 = Inr (Inr (), e')" by blast
  have p: "hm_get (wk_pods (sy_worker ?s)) 1 = Some unmountable_pod" by (simp add: full_worker_def hm_get_def)
  have others: "\<forall>j q. hm_get (wk_pods (sy_worker ?s)) j = Some q \<longrightarrow> j \<noteq> 1
      \<longrightarrow> is_terminal (tp_state q) \<and> 1 < j \<and> tp_state_changed_at q < 7"
    by (auto dest!: full_get simp: full_pods word_less_nat_alt unat_small)
  obtain err where "pod_mounts (cx_os (good_cx StatusRunning)) 1 unmountable_pod (sy_env ?s) = Inr (Inl err, 5)" using m by blast
  then show ?thesis
    by (intro scan_panics [OF _ _ p _ _ others _ u]) (simp_all add: full_worker_inv full_pods good_cx_def script_io_def)
qed

section \<open>Shutdown and admission\<close>

text \<open>
  A shutdown that has to keep a terminal pod puts it back into \<open>Stopping\<close> without claiming its
  resources again: the accounting that held before is lost.
\<close>

theorem retain_breaks_accounting:
  assumes "core_inv w" and "hm_get (wk_pods w) k = Some p" and "is_terminal (tp_state p)" and "0 < tp_gpu_count p"
  shows "\<exists>w'. retain_pod k w = Inr w' \<and> wk_gpu_allocated w' = wk_gpu_allocated w \<and> \<not> accounted w'"
proof -
  let ?f = "\<lambda>pod. pod\<lparr>tp_state := Stopping, tp_lifecycle_failures := STOP_ATTEMPT_MAX, tp_lifecycle_retry_after_tick := - 1\<rparr>"
  have "hm_wf (wk_pods w)" "used (\<lambda>p. unat (tp_gpu_count p)) (wk_pods w) = unat (wk_gpu_allocated w)"
    using assms(1) by (simp_all add: inv_defs)
  moreover have "used (\<lambda>p. unat (tp_gpu_count p)) (hm_insert k (?f p) (wk_pods w))
      = used (\<lambda>p. unat (tp_gpu_count p)) (wk_pods w) + unat (tp_gpu_count p)"
    using hm.total_ins_upd [OF calculation(1) assms(2), of "\<lambda>p. if is_terminal (tp_state p) then 0 else unat (tp_gpu_count p)" "?f p"]
      assms(3) by (simp add: used_def)
  moreover have "0 < unat (tp_gpu_count p)" using assms(4) by (simp add: word_less_nat_alt)
  ultimately have "\<not> accounted (update_pod k ?f w)" "retain_pod k w = Inr (update_pod k ?f w)"
    using assms(2) by (simp_all add: accounted_def update_pod_def hm_modify_Some retain_pod_def)
  then show ?thesis by (auto simp: update_pod_def)
qed

text \<open>
  The saturating guard does not protect a node of the largest size: there every request for GPUs passes,
  and the sum that is stored wraps around.
\<close>

theorem largest_node_overflows:
  assumes "wk_gpu_total w = - 1" and "sp_gpu_type cmd = wk_gpu_type w"
    and "saturating_add (wk_cpu_allocated_millicores w) (sp_cpu_millicores cmd) \<le> wk_cpu_millicores w"
    and "saturating_add (wk_memory_allocated_megabytes w) (sp_memory_megabytes cmd) \<le> wk_memory_megabytes w"
    and "256 \<le> unat (wk_gpu_allocated w) + unat (sp_gpu_count cmd)"
  shows "start_rejection cmd w = None \<and> wk_gpu_allocated (allocate cmd w) < wk_gpu_allocated w"
proof -
  have "\<not> saturating_add (wk_gpu_allocated w) (sp_gpu_count cmd) > wk_gpu_total w" using assms(1) by (simp add: not_less)
  moreover have "unat (wk_gpu_allocated (allocate cmd w)) < unat (wk_gpu_allocated w)"
    using assms(5) unsigned_less [of "sp_gpu_count cmd", where ?'a = nat] unsigned_less [of "wk_gpu_allocated w", where ?'a = nat]
    by (simp add: allocate_def unat_word_ariths mod_if) linarith
  ultimately show ?thesis
    using assms(2-4) by (simp add: start_rejection_def not_less word_less_nat_alt [of "wk_gpu_allocated (allocate cmd w)"])
qed

section \<open>The checker\<close>

text \<open>
  A pod that fails while it is starting goes to \<open>Stopping\<close> until its container is removed. The
  simulation checker does not list that transition as legal and reports it.
\<close>

theorem failed_start_reported:
  assumes "core_inv (sy_worker s)" and "hm_get (wk_pods (sy_worker s)) k = Some p" and "tp_state p = Starting"
  shows "\<exists>s' p'. fail_pod cx k reason now s = Inr s' \<and> hm_get (wk_pods (sy_worker s')) k = Some p' \<and> tp_state p' = Stopping
    \<and> transition_violations now i [(k, tp_state p)] [(k, p')] = [IllegalTransition now i k Starting Stopping]"
proof -
  let ?w = "sy_worker s"
  let ?f = "\<lambda>pod. pod\<lparr>tp_state := Stopping, tp_state_changed_at := now, tp_grace_period_ms := 0,
                       tp_lifecycle_failures := 0, tp_lifecycle_retry_after_tick := 0\<rparr>"
  let ?w2 = "(update_pod k ?f ?w)\<lparr>wk_pending_failure_reasons := hm_insert k reason (wk_pending_failure_reasons ?w)\<rparr>"
  have h: "tp_handle p \<noteq> None" "hm_get (wk_pending_failure_reasons ?w) k = None"
    using core_inv_pod [OF assms(1,2)] core_inv_no_pending [OF assms(1), of k] assms(2,3) by (simp_all add: pod_ok_def)
  have "core_inv (update_pod k ?f ?w)"
    by (rule core_inv_update [OF assms(1,2)]) (use assms(3) h in \<open>simp_all add: same_claim_def pod_ok_def\<close>)
  from core_inv_pending_len [OF core_inv_insert_pending [OF this, of k "?f p" reason]]
  have "hm_len (wk_pending_failure_reasons ?w2) \<le> hm_len (wk_pods ?w2)" using assms(2) by (simp add: get_update_pod)
  then have "fail_pod cx k reason now s = Inr (s\<lparr>sy_worker := ?w2\<rparr>)"
    using assms(2) h by (simp add: fail_pod_def call_def ret_def on_worker_def begin_failure_cleanup_def Let_def update_pod_def)
  moreover have "hm_get (wk_pods ?w2) k = Some (?f p)" using assms(2) by (simp add: get_update_pod)
  moreover have "transition_violations now i [(k, tp_state p)] [(k, ?f p)] = [IllegalTransition now i k Starting Stopping]"
    using assms(3) by (simp add: transition_violations_def hm_eval)
  ultimately show ?thesis by (intro exI [of _ "s\<lparr>sy_worker := ?w2\<rparr>"] exI [of _ "?f p"] conjI) simp_all
qed

end
