(* ===== verification/Runtime_Process.thy ===== *)
theory Runtime_Process
  imports Rust_Std Hive_Runtime Hive_Wire
begin

text \<open>
  The runtime that runs pods as child processes, \<^verbatim>\<open>worker/src/runtime/process.rs\<close>. The state of the
  runtime is the table of its processes and the next port; the operating system (clock, child
  processes, one TCP connection) and the HTTP client of the forwarded requests are the functions of
  the record \<open>process_os\<close> over a world. The loops that wait for a child to exit are partial
  functions, since whether they end depends on the clock; that they do end on a clock that a sleep
  moves forward is part of what is proved. A container that is being stopped is out of the table
  while its thread waits, so the two ends of a stop are steps of their own and the ownership of the
  processes is an invariant over all interleavings of those steps.
\<close>

section \<open>State\<close>

definition BASE_PORT :: u16 where "BASE_PORT = 15000"
definition PROBE_DEADLINE :: nat where "PROBE_DEADLINE = 5 * 10 ^ 9"
definition PROBE_PATH_MAX :: nat where "PROBE_PATH_MAX = 1024"
definition HTTP_STATUS_LINE_MAX :: nat where "HTTP_STATUS_LINE_MAX = 1024"
definition POST_KILL_WAIT :: nat where "POST_KILL_WAIT = 2 * 10 ^ 9"
definition TEST_PROCESS_PORT_COUNT :: u16 where "TEST_PROCESS_PORT_COUNT = 4"
definition POLL_INTERVAL :: nat where "POLL_INTERVAL = 10 * 10 ^ 6"

text \<open>A child process: the handle the standard library keeps of it and the process id.\<close>

record child =
  ch_handle :: nat
  ch_id :: u32

record running_process =
  rp_child :: child
  rp_port :: u16

record process_runtime =
  pr_processes :: "(string, running_process) hashmap"
  pr_next_port :: u16
  pr_port_end_exclusive :: "u16 option"
  pr_test_controls_enabled :: bool
  pr_run_deadline :: nat

text \<open>
  The answer to an HTTP request: a transport error, or a response of any status with its
  \<open>Content-Length\<close> header, the bytes of the body and the error that cuts them off, if any.
\<close>

datatype http_reply = Transport string | Response "string option" "u8 list" "string option"

type_synonym ('a, 'w) op = "'w \<Rightarrow> (string + 'a) \<times> 'w"

record 'w process_os =
  po_now :: "'w \<Rightarrow> instant \<times> 'w"
  po_sleep :: "nat \<Rightarrow> 'w \<Rightarrow> 'w"
  po_spawn :: "string list \<Rightarrow> (string \<times> string) list \<Rightarrow> (child, 'w) op"
  po_try_wait :: "child \<Rightarrow> (i32 option option, 'w) op"
  po_sigterm :: "u32 \<Rightarrow> (unit, 'w) op"
  po_kill :: "child \<Rightarrow> (unit, 'w) op"
  po_connect :: "u16 \<Rightarrow> 'w \<Rightarrow> bool \<times> 'w"
  po_connect_timeout :: "u16 \<Rightarrow> nat \<Rightarrow> (unit, 'w) op"
  po_set_write_timeout :: "nat \<Rightarrow> (unit, 'w) op"
  po_set_read_timeout :: "nat \<Rightarrow> (unit, 'w) op"
  po_write_all :: "u8 list \<Rightarrow> (unit, 'w) op"
  po_read :: "nat \<Rightarrow> (u8 list, 'w) op"
  po_post :: "string \<Rightarrow> nat \<Rightarrow> nat \<Rightarrow> u8 list \<Rightarrow> 'w \<Rightarrow> http_reply \<times> 'w"

definition with_base_port :: "u16 \<Rightarrow> process_runtime" where
  "with_base_port base_port =
     \<lparr>pr_processes = [], pr_next_port = base_port, pr_port_end_exclusive = None, pr_test_controls_enabled = False,
      pr_run_deadline = 25 * 10 ^ 9\<rparr>"

definition process_runtime_new :: process_runtime where
  "process_runtime_new = with_base_port BASE_PORT"

definition with_test_controls :: "u16 \<Rightarrow> process_runtime res" where
  "with_test_controls base_port =
     and_then (ensure (base_port > 0) ''test process base port must be nonzero'') (\<lambda>_.
     and_then (expect (checked_add base_port TEST_PROCESS_PORT_COUNT) ''test process port range must fit in u16'')
       (\<lambda>port_end. Inr
         \<lparr>pr_processes = [], pr_next_port = base_port, pr_port_end_exclusive = Some port_end,
          pr_test_controls_enabled = True, pr_run_deadline = 600 * 10 ^ 6\<rparr>))"

definition get_port :: "process_runtime \<Rightarrow> string \<Rightarrow> u16 option" where
  "get_port p container_id = map_option rp_port (hm_get (pr_processes p) container_id)"

section \<open>The HTTP side\<close>

definition op_bind :: "('a, 'w) op \<Rightarrow> ('a \<Rightarrow> ('b, 'w) op) \<Rightarrow> ('b, 'w) op" where
  "op_bind m f w = (case m w of (Inl e, w1) \<Rightarrow> (Inl e, w1) | (Inr x, w1) \<Rightarrow> f x w1)"

definition op_err :: "string \<Rightarrow> ('a, 'w) op \<Rightarrow> ('a, 'w) op" where
  "op_err what m w = (case m w of (r, w1) \<Rightarrow> (map_err (\<lambda>e. what @ e) r, w1))"

definition byte_in :: "nat \<Rightarrow> nat \<Rightarrow> u8 \<Rightarrow> bool" where
  "byte_in lo hi b = (lo \<le> unat b \<and> unat b \<le> hi)"

definition is_digit_byte :: "u8 \<Rightarrow> bool" where
  "is_digit_byte = byte_in 48 57"

definition validate_probe_path :: "string \<Rightarrow> string + unit" where
  "validate_probe_path path =
     (if path = [] \<or> length path > PROBE_PATH_MAX \<or> hd path \<noteq> CHR ''/'' then
        Inl (''probe path must start with '' @ [CHR 0x27] @ ''/'' @ [CHR 0x27] @ '' and contain at most ''
             @ dec PROBE_PATH_MAX @ '' bytes'')
      else if \<not> list_all (byte_in 0x21 0x7E) (as_bytes path) then
        Inl ''probe path contains unsafe request-target bytes''
      else Inr ())"

definition strip_crlf :: "u8 list \<Rightarrow> u8 list option" where
  "strip_crlf line =
     (if 2 \<le> length line \<and> drop (length line - 2) line = [13, 10] then Some (take (length line - 2) line) else None)"

definition parse_http_status_line :: "u8 list \<Rightarrow> string + bool" where
  "parse_http_status_line raw =
     (case strip_crlf raw of
        None \<Rightarrow> Inl ''HTTP status line must end with CRLF''
      | Some line \<Rightarrow>
          if 32 \<notin> set line then Inl ''HTTP status line is missing status code''
          else let version = takeWhile (\<lambda>b. b \<noteq> 32) line in
          if version \<noteq> as_bytes ''HTTP/1.0'' \<and> version \<noteq> as_bytes ''HTTP/1.1'' then
            Inl ''HTTP status line has unsupported version''
          else let status_and_reason = drop (length version + 1) line in
          if length status_and_reason < 3 then Inl ''HTTP status code must contain three digits''
          else let status = take 3 status_and_reason in
          if \<not> list_all is_digit_byte status then Inl ''HTTP status code must contain three digits''
          else let reason = drop 3 status_and_reason in
          if reason = [] \<or> hd reason \<noteq> 32 then Inl ''HTTP status code must be followed by one space''
          else if \<not> list_all (byte_in 0x20 0x7E) (tl reason) then Inl ''HTTP reason phrase contains unsafe bytes''
          else Inr (status = as_bytes ''200''))"

definition probe_time_remaining :: "'w process_os \<Rightarrow> instant \<Rightarrow> (nat, 'w) op" where
  "probe_time_remaining po started w =
     (case po_now po w of (t, w1) \<Rightarrow>
        if t - started < PROBE_DEADLINE then (Inr (PROBE_DEADLINE - (t - started)), w1)
        else (Inl ''HTTP probe exceeded total deadline'', w1))"

definition STATUS_LINE_TOO_LONG :: string where
  "STATUS_LINE_TOO_LONG = ''HTTP status line exceeds '' @ dec HTTP_STATUS_LINE_MAX @ '' bytes''"

text \<open>One round of the read loop: the bytes of one read, none at the end of the stream.\<close>

definition probe_read :: "'w process_os \<Rightarrow> instant \<Rightarrow> nat \<Rightarrow> (u8 list, 'w) op" where
  "probe_read po started room =
     op_bind (probe_time_remaining po started) (\<lambda>remaining.
     op_bind (op_err ''set read timeout: '' (po_set_read_timeout po remaining)) (\<lambda>_.
     op_err ''read status line: '' (po_read po room)))"

function probe_status :: "'w process_os \<Rightarrow> instant \<Rightarrow> u8 list \<Rightarrow> (bool, 'w) op" where
  "probe_status po started got w =
     (if HTTP_STATUS_LINE_MAX + 1 \<le> length got then (Inl STATUS_LINE_TOO_LONG, w)
      else case probe_read po started (HTTP_STATUS_LINE_MAX + 1 - length got) w of
          (Inl e, w1) \<Rightarrow> (Inl e, w1)
        | (Inr bs, w1) \<Rightarrow>
            if bs = [] then (Inl ''HTTP response ended before status line'', w1)
            else if 10 \<in> set (got @ bs) then
              let line = takeWhile (\<lambda>b. b \<noteq> 10) (got @ bs) @ [10] in
              if length line > HTTP_STATUS_LINE_MAX then (Inl STATUS_LINE_TOO_LONG, w1)
              else (parse_http_status_line line, w1)
            else probe_status po started (got @ bs) w1)"
  by pat_completeness auto
termination
  by (relation "measure (\<lambda>(po, started, got, w). HTTP_STATUS_LINE_MAX + 1 - length got)")
     (auto simp: HTTP_STATUS_LINE_MAX_def length_greater_0_conv [symmetric] simp del: length_greater_0_conv)

declare probe_status.simps [simp del]

definition probe_request :: "u16 \<Rightarrow> string \<Rightarrow> string" where
  "probe_request port path =
     ''GET '' @ path @ '' HTTP/1.1'' @ [CR, LF] @ ''Host: 127.0.0.1:'' @ dec (unat port) @ [CR, LF]
       @ ''Connection: close'' @ [CR, LF, CR, LF]"

definition probe_http :: "'w process_os \<Rightarrow> u16 \<Rightarrow> string \<Rightarrow> (bool, 'w) op" where
  "probe_http po port path w0 =
     (case validate_probe_path path of
        Inl e \<Rightarrow> (Inl e, w0)
      | Inr _ \<Rightarrow>
          (case po_now po w0 of (started, w1) \<Rightarrow>
             op_bind (op_err ''connect: '' (po_connect_timeout po port PROBE_DEADLINE)) (\<lambda>_.
             op_bind (probe_time_remaining po started) (\<lambda>remaining.
             op_bind (op_err ''set write timeout: '' (po_set_write_timeout po remaining)) (\<lambda>_.
             op_bind (op_err ''write: '' (po_write_all po (as_bytes (probe_request port path)))) (\<lambda>_.
             probe_status po started [])))) w1))"

definition BODY_TOO_LARGE :: string where
  "BODY_TOO_LARGE = ''body exceeds '' @ dec MAX_RUN_RESPONSE_BODY @ '' bytes''"

text \<open>\<open>read_to_end\<close> on the first \<open>MAX_RUN_RESPONSE_BODY + 1\<close> bytes of the body.\<close>

definition read_body :: "u8 list \<Rightarrow> string option \<Rightarrow> runtime_error + u8 list" where
  "read_body body broken =
     (if MAX_RUN_RESPONSE_BODY < length body then Inl (ResponseTooLarge BODY_TOO_LARGE)
      else case broken of None \<Rightarrow> Inr body | Some e \<Rightarrow> Inl (Internal (''read body: '' @ e)))"

definition forward_run_with_deadline :: "'w process_os \<Rightarrow> u16 \<Rightarrow> u8 list \<Rightarrow> nat \<Rightarrow> (runtime_error + u8 list, 'w) call" where
  "forward_run_with_deadline po port payload hard_deadline w =
     and_then (ensure (hard_deadline \<noteq> 0) ''run deadline must be positive'') (\<lambda>_.
     case po_post po (''http://127.0.0.1:'' @ dec (unat port) @ ''/inference'') hard_deadline
            (min (5 * 10 ^ 9) hard_deadline) payload w of
       (Transport e, w1) \<Rightarrow> Inr (Inl (Internal (''request: '' @ e)), w1)
     | (Response content_length body broken, w1) \<Rightarrow>
         (case content_length of
            None \<Rightarrow> Inr (read_body body broken, w1)
          | Some text \<Rightarrow>
              (case parse_usize text of
                 None \<Rightarrow> Inr (Inl (Internal ''invalid Content-Length''), w1)
               | Some declared \<Rightarrow>
                   if declared > MAX_RUN_RESPONSE_BODY then Inr (Inl (ResponseTooLarge BODY_TOO_LARGE), w1)
                   else Inr (read_body body broken, w1))))"

definition forward_run :: "'w process_os \<Rightarrow> u16 \<Rightarrow> u8 list \<Rightarrow> (runtime_error + u8 list, 'w) call" where
  "forward_run po port payload = forward_run_with_deadline po port payload (25 * 10 ^ 9)"

section \<open>Creating and starting\<close>

text \<open>
  The server a pod runs. Quotes and backslashes of the script are written \<open>^\<close> for the single quote,
  \<open>~\<close> for the double quote and \<open>|\<close> for the backslash; the script itself has none of these three.
\<close>

definition unquote :: "char \<Rightarrow> char" where
  "unquote c = (if c = CHR ''^'' then CHR 0x27 else if c = CHR ''~'' then CHR 0x22
                else if c = CHR ''|'' then CHR 0x5C else c)"

definition server_script :: "string \<Rightarrow> string \<Rightarrow> string \<Rightarrow> string \<Rightarrow> string" where
  "server_script test_controls oversized pod_id port =
     map unquote (LF # concat (map (\<lambda>l. l @ [LF]) [
     ''import http.server, json, os, sys'',
     ''class H(http.server.BaseHTTPRequestHandler):'',
     ''    last_body = None'',
     ''    execution_count = 0'',
     ''    test_controls = '' @ test_controls,
     ''    def do_GET(self):'',
     ''        response = json.dumps(dict(os.environ))'',
     ''        self.send_response(200)'',
     ''        self.send_header(^Content-Type^, ^application/json^)'',
     ''        self.end_headers()'',
     ''        self.wfile.write(response.encode())'',
     ''    def do_POST(self):'',
     ''        length = int(self.headers.get(^content-length^, 0))'',
     ''        body = self.rfile.read(length) if length > 0 else b^^'',
     ''        key = body.decode(^utf-8^, errors=^replace^)'',
     ''        if H.test_controls:'',
     ''            if H.last_body == body:'',
     ''                H.execution_count += 1'',
     ''            else:'',
     ''                H.last_body = body'',
     ''                H.execution_count = 1'',
     ''        if H.test_controls and body == b^__hivemind_test_response_too_large__^:'',
     ''            response = b^x^ * '' @ oversized,
     ''            self.send_response(200)'',
     ''            self.send_header(^Content-Length^, str(len(response)))'',
     ''            self.end_headers()'',
     ''            self.wfile.write(response)'',
     ''            return'',
     ''        if H.test_controls and body == b^__hivemind_test_forwarding_failure__^:'',
     ''            self.connection.shutdown(2)'',
     ''            self.connection.close()'',
     ''            return'',
     ''        if H.test_controls and body == b^__hivemind_test_trickle_deadline__^:'',
     ''            self.send_response(200)'',
     ''            self.send_header(^Transfer-Encoding^, ^chunked^)'',
     ''            self.end_headers()'',
     ''            for _ in range(10):'',
     ''                self.wfile.write(b^1|r|nx|r|n^)'',
     ''                self.wfile.flush()'',
     ''                import time; time.sleep(0.2)'',
     ''            self.wfile.write(b^0|r|n|r|n^)'',
     ''            return'',
     ''        result = {~status~: ~ok~, ~echo~: key, ~pod_id~: '' @ pod_id @ ''}'',
     ''        if H.test_controls:'',
     ''            result[~execution_count~] = H.execution_count'',
     ''        response = json.dumps(result)'',
     ''        self.send_response(200)'',
     ''        self.send_header(^Content-Type^, ^application/json^)'',
     ''        self.send_header(^Content-Length^, str(len(response)))'',
     ''        self.end_headers()'',
     ''        self.wfile.write(response.encode())'',
     ''    def log_message(self, format, *args): pass'',
     ''http.server.HTTPServer((^127.0.0.1^, '' @ port @ ''), H).serve_forever()'']))"

definition container_id_of :: "u64 \<Rightarrow> u16 \<Rightarrow> string" where
  "container_id_of pod_id port = ''proc-pod-'' @ dec (unat pod_id) @ '':'' @ dec (unat port)"

definition spawn_pod :: "'w process_os \<Rightarrow> bool \<Rightarrow> pod_spec \<Rightarrow> u16 \<Rightarrow> (child, 'w) op" where
  "spawn_pod po test_controls spec port =
     po_spawn po
       [''python3'', ''-c'',
        server_script (if test_controls then ''True'' else ''False'') (dec (MAX_RUN_RESPONSE_BODY + 1))
          (dec (unat (ps_pod_id spec))) (dec (unat port))]
       (ps_env_vars spec @ (if ps_port spec > 0 then [(''PORT'', dec (unat (ps_port spec)))] else []))"

definition process_create_pod :: "'w process_os \<Rightarrow> pod_spec \<Rightarrow> (runtime_error + pod_handle, process_runtime \<times> 'w) call" where
  "process_create_pod po spec e =
     (let (p, w) = e; port = pr_next_port p in
      if ps_gpu_count spec > 0 then
        Inr (Inl (ContainerCreate ''GPU workload rejected: process runtime cannot isolate physical devices''), e)
      else if pr_port_end_exclusive p = Some port then
        Inr (Inl (ContainerCreate (''test process port range exhausted after '' @ dec (unat TEST_PROCESS_PORT_COUNT)
               @ '' pods'')), e)
      else case checked_add port 1 of
          None \<Rightarrow> Inr (Inl (ContainerCreate ''process runtime port range exhausted''), e)
        | Some next_port \<Rightarrow>
            let p1 = p\<lparr>pr_next_port := next_port\<rparr>; container_id = container_id_of (ps_pod_id spec) port in
            (case spawn_pod po (pr_test_controls_enabled p) spec port w of
               (Inl err, w1) \<Rightarrow> Inr (Inl (ContainerCreate (''spawn failed: '' @ err)), (p1, w1))
             | (Inr child, w1) \<Rightarrow>
                 Inr (Inr \<lparr>ph_pod_id = ps_pod_id spec, ph_container_id = container_id\<rparr>,
                   (p1\<lparr>pr_processes := hm_insert container_id \<lparr>rp_child = child, rp_port = port\<rparr> (pr_processes p1)\<rparr>, w1))))"

primrec wait_ready :: "'w process_os \<Rightarrow> u16 \<Rightarrow> nat \<Rightarrow> 'w \<Rightarrow> (runtime_error + unit) \<times> 'w" where
  "wait_ready po port 0 w = (Inl (ContainerStart (''server didn'' @ [CHR 0x27] @ ''t become ready in 5s'')), w)"
| "wait_ready po port (Suc n) w =
     (case po_connect po port w of
        (True, w1) \<Rightarrow> (Inr (), w1)
      | (False, w1) \<Rightarrow> wait_ready po port n (po_sleep po (100 * 10 ^ 6) w1))"

definition process_start_pod :: "'w process_os \<Rightarrow> pod_handle \<Rightarrow> (runtime_error + unit, process_runtime \<times> 'w) call" where
  "process_start_pod po handle e =
     (let (p, w) = e in
      case get_port p (ph_container_id handle) of
        None \<Rightarrow> Inr (Inl (ContainerNotFound (ph_container_id handle)), e)
      | Some port \<Rightarrow> (case wait_ready po port 50 w of (r, w1) \<Rightarrow> Inr (r, (p, w1))))"

definition process_forward_run ::
    "'w process_os \<Rightarrow> pod_handle \<Rightarrow> u16 \<Rightarrow> u8 list \<Rightarrow> (runtime_error + u8 list, process_runtime \<times> 'w) call" where
  "process_forward_run po handle container_port payload e =
     (let (p, w) = e in
      case get_port p (ph_container_id handle) of
        None \<Rightarrow> Inr (Inl (ContainerNotFound (ph_container_id handle)), e)
      | Some port \<Rightarrow>
          and_then (forward_run_with_deadline po port payload (pr_run_deadline p) w) (\<lambda>(r, w1). Inr (r, (p, w1))))"

definition process_probe_pod ::
    "'w process_os \<Rightarrow> pod_handle \<Rightarrow> u16 \<Rightarrow> string \<Rightarrow> (runtime_error + bool, process_runtime \<times> 'w) call" where
  "process_probe_pod po handle container_port path e =
     (let (p, w) = e in
      case get_port p (ph_container_id handle) of
        None \<Rightarrow> Inr (Inl (ContainerNotFound (ph_container_id handle)), e)
      | Some port \<Rightarrow> (case probe_http po port path w of (r, w1) \<Rightarrow> Inr (map_err Internal r, (p, w1))))"

section \<open>Stopping and removing\<close>

datatype exit_poll = Exited | StillRunning | PollError string

text \<open>The loop that waits for the child after SIGTERM.\<close>

partial_function (option) term_wait :: "'w process_os \<Rightarrow> instant \<Rightarrow> child \<Rightarrow> 'w \<Rightarrow> (exit_poll \<times> 'w) option" where
  "term_wait po deadline c w =
     (case po_try_wait po c w of
        (Inl err, w1) \<Rightarrow> Some (PollError err, w1)
      | (Inr (Some status), w1) \<Rightarrow> Some (Exited, w1)
      | (Inr None, w1) \<Rightarrow>
          (case po_now po w1 of (t, w2) \<Rightarrow>
             if t < deadline then
               (case po_now po w2 of (t2, w3) \<Rightarrow>
                  term_wait po deadline c (po_sleep po (min POLL_INTERVAL (deadline - t2)) w3))
             else Some (StillRunning, w2)))"

partial_function (option) wait_for_child_exit_until ::
    "'w process_os \<Rightarrow> instant \<Rightarrow> child \<Rightarrow> 'w \<Rightarrow> (exit_poll \<times> 'w) option" where
  "wait_for_child_exit_until po deadline c w =
     (case po_try_wait po c w of
        (Inl err, w1) \<Rightarrow> Some (PollError err, w1)
      | (Inr (Some status), w1) \<Rightarrow> Some (Exited, w1)
      | (Inr None, w1) \<Rightarrow>
          (case po_now po w1 of (t, w2) \<Rightarrow>
             if deadline - t = 0 then Some (StillRunning, w2)
             else wait_for_child_exit_until po deadline c (po_sleep po (min POLL_INTERVAL (deadline - t)) w2)))"

definition stop_error :: "string \<Rightarrow> string \<Rightarrow> runtime_error + unit" where
  "stop_error container_id what = Inl (ContainerStop (container_id @ '' '' @ what))"

text \<open>After a kill, and after the grace period: what the rest of the stop does.\<close>

definition kill_child ::
    "'w process_os \<Rightarrow> string \<Rightarrow> instant \<Rightarrow> child \<Rightarrow> 'w \<Rightarrow> ((runtime_error + unit) \<times> 'w) option" where
  "kill_child po container_id shutdown_deadline c w =
     (case po_kill po c w of
        (Inl err, w1) \<Rightarrow> Some (stop_error container_id (''KILL: '' @ err), w1)
      | (Inr _, w1) \<Rightarrow>
          (case po_now po w1 of (t, w2) \<Rightarrow>
          (case wait_for_child_exit_until po (min (t + POST_KILL_WAIT) shutdown_deadline) c w2 of
             None \<Rightarrow> None
           | Some (Exited, w3) \<Rightarrow> Some (Inr (), w3)
           | Some (StillRunning, w3) \<Rightarrow>
               Some (stop_error container_id (''did not exit within '' @ dec (POST_KILL_WAIT div 10 ^ 6) @ ''ms after KILL''), w3)
           | Some (PollError err, w3) \<Rightarrow> Some (stop_error container_id (''status after KILL: '' @ err), w3))))"

definition terminate_child ::
    "'w process_os \<Rightarrow> string \<Rightarrow> u64 \<Rightarrow> instant \<Rightarrow> child \<Rightarrow> 'w \<Rightarrow> ((runtime_error + unit) \<times> 'w) option" where
  "terminate_child po container_id grace_period_ms shutdown_deadline c w =
     (if \<not> unat (ch_id c) < 2 ^ 31 then
        Some (stop_error container_id ''pid conversion: out of range integral type conversion attempted'', w)
      else case po_sigterm po (ch_id c) w of
          (Inl err, w1) \<Rightarrow> Some (stop_error container_id (''TERM: '' @ err), w1)
        | (Inr _, w1) \<Rightarrow>
            (case po_now po w1 of (t, w2) \<Rightarrow>
            (case term_wait po (min (t + unat (min grace_period_ms MAX_STOP_GRACE_MS) * 10 ^ 6) shutdown_deadline) c w2 of
               None \<Rightarrow> None
             | Some (Exited, w3) \<Rightarrow> Some (Inr (), w3)
             | Some (PollError err, w3) \<Rightarrow> Some (stop_error container_id (''status after TERM: '' @ err), w3)
             | Some (StillRunning, w3) \<Rightarrow> kill_child po container_id shutdown_deadline c w3)))"

definition stop_child ::
    "'w process_os \<Rightarrow> string \<Rightarrow> u64 \<Rightarrow> instant \<Rightarrow> child \<Rightarrow> 'w \<Rightarrow> ((runtime_error + unit) \<times> 'w) option" where
  "stop_child po container_id grace_period_ms shutdown_deadline c w =
     (case po_try_wait po c w of
        (Inl err, w1) \<Rightarrow> Some (stop_error container_id (''status before TERM: '' @ err), w1)
      | (Inr (Some _), w1) \<Rightarrow> Some (Inr (), w1)
      | (Inr None, w1) \<Rightarrow> terminate_child po container_id grace_period_ms shutdown_deadline c w1)"

text \<open>The ends of a stop: the process leaves the table, and is put back.\<close>

definition begin_stop :: "string \<Rightarrow> process_runtime \<Rightarrow> (running_process \<times> process_runtime) option" where
  "begin_stop container_id p =
     (case hm_get (pr_processes p) container_id of
        None \<Rightarrow> None
      | Some process \<Rightarrow> Some (process, p\<lparr>pr_processes := hm_remove container_id (pr_processes p)\<rparr>))"

definition finish_stop :: "string \<Rightarrow> running_process \<Rightarrow> process_runtime \<Rightarrow> process_runtime res" where
  "finish_stop container_id process p =
     and_then (ensure (hm_get (pr_processes p) container_id = None) ''stopped process ownership must be unique'') (\<lambda>_.
       Inr (p\<lparr>pr_processes := hm_insert container_id process (pr_processes p)\<rparr>))"

definition STOP_DIVERGES :: string where "STOP_DIVERGES = ''stop does not return''"

definition process_stop_pod_until ::
    "'w process_os \<Rightarrow> pod_handle \<Rightarrow> u64 \<Rightarrow> instant \<Rightarrow> (runtime_error + unit, process_runtime \<times> 'w) call" where
  "process_stop_pod_until po handle grace_period_ms shutdown_deadline e =
     (let (p, w) = e in
      case po_now po w of (t, w1) \<Rightarrow>
        if t \<ge> shutdown_deadline then Inr (Inl (ContainerStop ''shutdown deadline reached''), (p, w1))
        else case begin_stop (ph_container_id handle) p of
            None \<Rightarrow> Inr (Inl (ContainerNotFound (ph_container_id handle)), (p, w1))
          | Some (process, p1) \<Rightarrow>
              (case stop_child po (ph_container_id handle) grace_period_ms shutdown_deadline (rp_child process) w1 of
                 None \<Rightarrow> Inl STOP_DIVERGES
               | Some (result, w2) \<Rightarrow>
                   and_then (finish_stop (ph_container_id handle) process p1) (\<lambda>p2. Inr (result, (p2, w2)))))"

definition process_stop_pod ::
    "'w process_os \<Rightarrow> pod_handle \<Rightarrow> u64 \<Rightarrow> (runtime_error + unit, process_runtime \<times> 'w) call" where
  "process_stop_pod po handle grace_period_ms e =
     (let (p, w) = e in
      case po_now po w of (t, w1) \<Rightarrow>
        process_stop_pod_until po handle grace_period_ms
          (t + unat (min grace_period_ms MAX_STOP_GRACE_MS) * 10 ^ 6 + POST_KILL_WAIT) (p, w1))"

definition process_pod_status :: "'w process_os \<Rightarrow> pod_handle \<Rightarrow> (runtime_error + pod_status, process_runtime \<times> 'w) call" where
  "process_pod_status po handle e =
     (let (p, w) = e in
      case hm_get (pr_processes p) (ph_container_id handle) of
        None \<Rightarrow> Inr (Inl (ContainerNotFound (ph_container_id handle)), e)
      | Some process \<Rightarrow>
          (case po_try_wait po (rp_child process) w of
             (Inr (Some code), w1) \<Rightarrow> Inr (Inr (StatusStopped (case code of None \<Rightarrow> - 1 | Some c \<Rightarrow> c)), (p, w1))
           | (Inr None, w1) \<Rightarrow> Inr (Inr StatusRunning, (p, w1))
           | (Inl _, w1) \<Rightarrow> Inr (Inr StatusUnknown, (p, w1))))"

definition process_pod_status_until ::
    "'w process_os \<Rightarrow> pod_handle \<Rightarrow> instant \<Rightarrow> (runtime_error + pod_status, process_runtime \<times> 'w) call" where
  "process_pod_status_until po handle deadline e =
     (let (p, w) = e in
      case po_now po w of (t, w1) \<Rightarrow>
        if t \<ge> deadline then Inr (Inl (ContainerNotFound ''shutdown deadline reached''), (p, w1))
        else process_pod_status po handle (p, w1))"

text \<open>The last part of a removal.\<close>

definition drop_process :: "string \<Rightarrow> process_runtime \<Rightarrow> process_runtime res" where
  "drop_process container_id p =
     and_then (ensure (hm_get (pr_processes p) container_id \<noteq> None) ''stopped process must remain owned until removal'')
       (\<lambda>_. Inr (p\<lparr>pr_processes := hm_remove container_id (pr_processes p)\<rparr>))"

definition process_remove_pod_until ::
    "'w process_os \<Rightarrow> pod_handle \<Rightarrow> instant \<Rightarrow> (runtime_error + unit, process_runtime \<times> 'w) call" where
  "process_remove_pod_until po handle deadline =
     try_call (process_stop_pod_until po handle 0 deadline) (\<lambda>_ e.
       let (p, w) = e in
       case po_now po w of (t, w1) \<Rightarrow>
         if t \<ge> deadline then Inr (Inl (ContainerStop ''shutdown deadline reached''), (p, w1))
         else and_then (drop_process (ph_container_id handle) p) (\<lambda>p1. Inr (Inr (), (p1, w1))))"

definition process_remove_pod :: "'w process_os \<Rightarrow> pod_handle \<Rightarrow> (runtime_error + unit, process_runtime \<times> 'w) call" where
  "process_remove_pod po handle e =
     (let (p, w) = e in
      case po_now po w of (t, w1) \<Rightarrow> process_remove_pod_until po handle (t + POST_KILL_WAIT) (p, w1))"

definition process_pod_runtime :: "'w process_os \<Rightarrow> (process_runtime \<times> 'w) runtime" where
  "process_pod_runtime po =
     \<lparr>rt_pull_image = (\<lambda>image auth. ret (Inr ())), rt_create_pod = process_create_pod po,
      rt_start_pod = process_start_pod po, rt_forward_run = process_forward_run po,
      rt_probe_pod = process_probe_pod po, rt_stop_pod = process_stop_pod po,
      rt_pod_status = process_pod_status po, rt_remove_pod = process_remove_pod po,
      rt_stop_pod_until = process_stop_pod_until po, rt_pod_status_until = process_pod_status_until po,
      rt_remove_pod_until = process_remove_pod_until po\<rparr>"

section \<open>The status line\<close>

lemma strip_crlf_Some: "strip_crlf raw = Some line \<longleftrightarrow> raw = line @ [13, 10]"
proof
  assume "strip_crlf raw = Some line"
  then have "line = take (length raw - 2) raw" "drop (length raw - 2) raw = [13, 10]"
    by (auto simp: strip_crlf_def split: if_splits)
  then show "raw = line @ [13, 10]" by (metis append_take_drop_id)
qed (auto simp: strip_crlf_def)

lemma takeWhile_prefix: "x \<notin> set ys \<Longrightarrow> takeWhile (\<lambda>b. b \<noteq> x) (ys @ x # zs) = ys"
  by (induction ys) auto

lemma takeWhile_until: "x \<in> set ys \<Longrightarrow> \<exists>zs. ys = takeWhile (\<lambda>b. b \<noteq> x) ys @ x # zs"
  by (induction ys) auto

definition status_line :: "u8 list \<Rightarrow> u8 list \<Rightarrow> u8 list \<Rightarrow> u8 list" where
  "status_line version code reason = version @ 32 # code @ 32 # reason @ [13, 10]"

definition status_parts_ok :: "u8 list \<Rightarrow> u8 list \<Rightarrow> u8 list \<Rightarrow> bool" where
  "status_parts_ok version code reason =
     (version \<in> {as_bytes ''HTTP/1.0'', as_bytes ''HTTP/1.1''} \<and> length code = 3 \<and> list_all is_digit_byte code
      \<and> list_all (byte_in 0x20 0x7E) reason)"

lemma http_version_no_space: "32 \<notin> set (as_bytes ''HTTP/1.0'')" "32 \<notin> set (as_bytes ''HTTP/1.1'')"
  by (simp_all add: as_bytes_def byte_of_char_def)

lemma parse_http_status_line_iff:
  "parse_http_status_line raw = Inr b \<longleftrightarrow>
     (\<exists>version code reason. raw = status_line version code reason \<and> status_parts_ok version code reason
        \<and> b = (code = as_bytes ''200''))"
proof
  assume "parse_http_status_line raw = Inr b"
  then obtain line where line: "raw = line @ [13, 10]" "32 \<in> set line"
    and rest: "takeWhile (\<lambda>b. b \<noteq> 32) line \<in> {as_bytes ''HTTP/1.0'', as_bytes ''HTTP/1.1''}"
      "\<not> length (drop (length (takeWhile (\<lambda>b. b \<noteq> 32) line) + 1) line) < 3"
      "list_all is_digit_byte (take 3 (drop (length (takeWhile (\<lambda>b. b \<noteq> 32) line) + 1) line))"
      "drop 3 (drop (length (takeWhile (\<lambda>b. b \<noteq> 32) line) + 1) line) \<noteq> []"
      "hd (drop 3 (drop (length (takeWhile (\<lambda>b. b \<noteq> 32) line) + 1) line)) = 32"
      "list_all (byte_in 0x20 0x7E) (tl (drop 3 (drop (length (takeWhile (\<lambda>b. b \<noteq> 32) line) + 1) line)))"
      "b = (take 3 (drop (length (takeWhile (\<lambda>b. b \<noteq> 32) line) + 1) line) = as_bytes ''200'')"
    by (simp add: parse_http_status_line_def strip_crlf_Some Let_def split: option.splits if_splits)
  obtain zs where zs: "line = takeWhile (\<lambda>b. b \<noteq> 32) line @ 32 # zs" using takeWhile_until [OF line(2)] by blast
  define version where "version = takeWhile (\<lambda>b. b \<noteq> 32) line"
  have d: "drop (length version + 1) line = zs" using zs unfolding version_def by (metis One_nat_def add.commute append_eq_conv_conj drop0 drop_Suc_Cons drop_drop plus_1_eq_Suc)
  note r = rest [folded version_def, unfolded d]
  have z: "zs = take 3 zs @ 32 # tl (drop 3 zs)" using r(4,5) by (metis append_take_drop_id list.collapse)
  have "raw = status_line version (take 3 zs) (tl (drop 3 zs))"
    unfolding status_line_def using line(1) zs z unfolding version_def [symmetric] by simp
  moreover have "status_parts_ok version (take 3 zs) (tl (drop 3 zs))"
    using r(1-3,6) by (simp add: status_parts_ok_def)
  ultimately show "\<exists>version code reason. raw = status_line version code reason \<and> status_parts_ok version code reason
      \<and> b = (code = as_bytes ''200'')"
    using r(7) by auto
next
  assume "\<exists>version code reason. raw = status_line version code reason \<and> status_parts_ok version code reason
      \<and> b = (code = as_bytes ''200'')"
  then obtain version code reason where r: "raw = (version @ 32 # code @ 32 # reason) @ [13, 10]"
    and ok: "status_parts_ok version code reason" and b: "b = (code = as_bytes ''200'')"
    by (auto simp: status_line_def)
  have "32 \<notin> set version" using ok http_version_no_space by (auto simp: status_parts_ok_def)
  then have "takeWhile (\<lambda>b. b \<noteq> 32) (version @ 32 # code @ 32 # reason) = version" by (rule takeWhile_prefix)
  then show "parse_http_status_line raw = Inr b"
    using ok b by (auto simp: parse_http_status_line_def strip_crlf_Some [THEN iffD2, OF r] Let_def status_parts_ok_def)
qed

section \<open>A probe\<close>

text \<open>
  What the probe relies on of the connection: a read hands over the next bytes of the stream, and
  nothing else does.
\<close>

definition probe_stream_ok :: "'w process_os \<Rightarrow> ('w \<Rightarrow> u8 list) \<Rightarrow> ('w \<Rightarrow> u8 list) \<Rightarrow> bool" where
  "probe_stream_ok po sent received =
     ((\<forall>w. received (snd (po_now po w)) = received w \<and> sent (snd (po_now po w)) = sent w)
      \<and> (\<forall>w port d. received (snd (po_connect_timeout po port d w)) = received w
           \<and> sent (snd (po_connect_timeout po port d w)) = sent w)
      \<and> (\<forall>w d. received (snd (po_set_write_timeout po d w)) = received w \<and> sent (snd (po_set_write_timeout po d w)) = sent w)
      \<and> (\<forall>w d. received (snd (po_set_read_timeout po d w)) = received w \<and> sent (snd (po_set_read_timeout po d w)) = sent w)
      \<and> (\<forall>w bs. received (snd (po_write_all po bs w)) = received w
           \<and> (fst (po_write_all po bs w) = Inr () \<longrightarrow> sent (snd (po_write_all po bs w)) = sent w @ bs))
      \<and> (\<forall>w n. sent (snd (po_read po n w)) = sent w
           \<and> (\<forall>bs. fst (po_read po n w) = Inr bs \<longrightarrow> received (snd (po_read po n w)) = received w @ bs)))"

lemma op_bind_Inr: "op_bind m f w = (Inr y, w') \<longleftrightarrow> (\<exists>x w1. m w = (Inr x, w1) \<and> f x w1 = (Inr y, w'))"
  by (auto simp: op_bind_def split: prod.splits sum.splits)

lemma op_err_Inr: "op_err what m w = (Inr y, w') \<longleftrightarrow> m w = (Inr y, w')"
  by (cases "m w"; cases "fst (m w)") (auto simp: op_err_def)

lemma probe_time_keeps:
  assumes "probe_stream_ok po sent received" "probe_time_remaining po started w = (r, w')"
  shows "received w' = received w \<and> sent w' = sent w"
proof -
  have "received (snd (po_now po w)) = received w \<and> sent (snd (po_now po w)) = sent w"
    using assms(1) by (simp add: probe_stream_ok_def)
  moreover have "w' = snd (po_now po w)"
    using assms(2) by (auto simp: probe_time_remaining_def split: prod.splits if_splits)
  ultimately show ?thesis by simp
qed

lemma probe_read_appends:
  assumes ok: "probe_stream_ok po sent received" and "probe_read po started room w = (Inr bs, w')"
  shows "received w' = received w @ bs \<and> sent w' = sent w"
proof -
  from assms(2) obtain d w1 u w2 where t: "probe_time_remaining po started w = (Inr d, w1)"
    and s: "po_set_read_timeout po d w1 = (Inr u, w2)" and r: "po_read po room w2 = (Inr bs, w')"
    by (auto simp: probe_read_def op_bind_Inr op_err_Inr)
  have "received (snd (po_set_read_timeout po d w1)) = received w1 \<and> sent (snd (po_set_read_timeout po d w1)) = sent w1"
    "sent (snd (po_read po room w2)) = sent w2
      \<and> (\<forall>bs. fst (po_read po room w2) = Inr bs \<longrightarrow> received (snd (po_read po room w2)) = received w2 @ bs)"
    using ok by (simp_all add: probe_stream_ok_def)
  then show ?thesis using probe_time_keeps [OF ok t] s r by simp
qed

lemma probe_status_line:
  assumes ok: "probe_stream_ok po sent received" and "received w = got" and "10 \<notin> set got"
    and "probe_status po started got w = (Inr b, w')"
  shows "sent w' = sent w \<and> (\<exists>line rest. received w' = line @ rest \<and> length line \<le> HTTP_STATUS_LINE_MAX
    \<and> parse_http_status_line line = Inr b)"
  using assms
proof (induction po started got w rule: probe_status.induct)
  case (1 po started got w)
  note ok = 1(2) and got = 1(3,4)
  let ?room = "HTTP_STATUS_LINE_MAX + 1 - length got"
  from 1(5) have len: "\<not> HTTP_STATUS_LINE_MAX + 1 \<le> length got"
    by (subst (asm) probe_status.simps) (auto split: if_splits)
  from 1(5) obtain bs w1 where bs: "probe_read po started ?room w = (Inr bs, w1)" "bs \<noteq> []"
    using len by (subst (asm) probe_status.simps) (auto split: if_splits prod.splits sum.splits)
  have rd: "received w1 = got @ bs" "sent w1 = sent w"
    using probe_read_appends [OF ok bs(1)] got by simp_all
  have eq: "probe_status po started got w =
      (if 10 \<in> set (got @ bs) then
         let line = takeWhile (\<lambda>b. b \<noteq> 10) (got @ bs) @ [10] in
         if length line > HTTP_STATUS_LINE_MAX then (Inl STATUS_LINE_TOO_LONG, w1)
         else (parse_http_status_line line, w1)
       else probe_status po started (got @ bs) w1)"
    using len bs by (subst probe_status.simps) simp
  show ?case
  proof (cases "10 \<in> set (got @ bs)")
    case True
    let ?line = "takeWhile (\<lambda>b. b \<noteq> 10) (got @ bs) @ [10]"
    obtain zs where "got @ bs = ?line @ zs" using takeWhile_until [OF True] by auto
    moreover have "length ?line \<le> HTTP_STATUS_LINE_MAX \<and> parse_http_status_line ?line = Inr b \<and> w' = w1"
      using 1(5) True unfolding eq by (auto simp: Let_def split: if_splits)
    ultimately show ?thesis using rd by metis
  next
    case False
    then have "probe_status po started (got @ bs) w1 = (Inr b, w')" using 1(5) unfolding eq by simp
    from 1(1) [OF len bs(1) [symmetric] refl bs(2) False ok rd(1) False this] show ?thesis using rd(2) by simp
  qed
qed

text \<open>
  C18. A readiness probe accepts exactly a well-formed 200 status line, however the answer is cut into
  reads. Whenever a probe gives a verdict, the path it was asked for consists of visible characters
  after a slash, so that the request sent is one request for that path and nothing else; the bytes
  received start with a status line of HTTP 1.0 or 1.1 that is complete, at most 1024 bytes long,
  with a three-digit code and a printable reason; and the verdict is whether the code is 200.
\<close>

theorem probe_verdict:
  assumes "probe_stream_ok po sent received" and "received w = []" and "probe_http po port path w = (Inr b, w')"
  shows "hd path = CHR ''/'' \<and> list_all (byte_in 0x21 0x7E) (as_bytes path) \<and> length path \<le> 1024
    \<and> sent w' = sent w @ as_bytes (probe_request port path)
    \<and> (\<exists>version code reason rest. received w' = status_line version code reason @ rest
         \<and> status_parts_ok version code reason \<and> length (status_line version code reason) \<le> 1024
         \<and> b = (code = as_bytes ''200''))"
proof -
  note ok = assms(1)
  have path: "validate_probe_path path = Inr ()"
    using assms(3) by (cases "validate_probe_path path") (simp_all add: probe_http_def)
  obtain started w1 where t: "po_now po w = (started, w1)" by fastforce
  from assms(3) path t obtain u2 w2 d w3 u4 w4 u5 w5 where c: "po_connect_timeout po port PROBE_DEADLINE w1 = (Inr u2, w2)"
    and r: "probe_time_remaining po started w2 = (Inr d, w3)" and s: "po_set_write_timeout po d w3 = (Inr u4, w4)"
    and wr: "po_write_all po (as_bytes (probe_request port path)) w4 = (Inr u5, w5)"
    and p: "probe_status po started [] w5 = (Inr b, w')"
    by (auto simp: probe_http_def op_bind_Inr op_err_Inr)
  have "received (snd (po_now po w)) = received w \<and> sent (snd (po_now po w)) = sent w"
    "received (snd (po_connect_timeout po port PROBE_DEADLINE w1)) = received w1
      \<and> sent (snd (po_connect_timeout po port PROBE_DEADLINE w1)) = sent w1"
    "received (snd (po_set_write_timeout po d w3)) = received w3 \<and> sent (snd (po_set_write_timeout po d w3)) = sent w3"
    "received (snd (po_write_all po (as_bytes (probe_request port path)) w4)) = received w4
      \<and> (fst (po_write_all po (as_bytes (probe_request port path)) w4) = Inr ()
          \<longrightarrow> sent (snd (po_write_all po (as_bytes (probe_request port path)) w4)) = sent w4 @ as_bytes (probe_request port path))"
    using ok by (simp_all add: probe_stream_ok_def)
  then have "received w5 = []" "sent w5 = sent w @ as_bytes (probe_request port path)"
    using probe_time_keeps [OF ok r] t c s wr assms(2) by auto
  then show ?thesis
    using probe_status_line [OF ok _ _ p] path
    by (auto simp: parse_http_status_line_iff validate_probe_path_def PROBE_PATH_MAX_def HTTP_STATUS_LINE_MAX_def
          split: if_splits)
qed

text \<open>
  An operating system for examples. Its world is the time, the bytes sent, those received, and those
  still to come; children exit after 30 milliseconds.
\<close>

definition script_os :: "(nat \<times> u8 list \<times> u8 list \<times> u8 list) process_os" where
  "script_os =
     \<lparr>po_now = (\<lambda>w. (fst w, w)), po_sleep = (\<lambda>d (t, rest). (t + d, rest)),
      po_spawn = (\<lambda>args env w. (Inr \<lparr>ch_handle = 0, ch_id = 42\<rparr>, w)),
      po_try_wait = (\<lambda>c w. (Inr (if fst w < 30 * 10 ^ 6 then None else Some (Some 0)), w)),
      po_sigterm = (\<lambda>pid w. (Inr (), w)), po_kill = (\<lambda>c w. (Inr (), w)),
      po_connect = (\<lambda>port w. (True, w)), po_connect_timeout = (\<lambda>port d w. (Inr (), w)),
      po_set_write_timeout = (\<lambda>d w. (Inr (), w)), po_set_read_timeout = (\<lambda>d w. (Inr (), w)),
      po_write_all = (\<lambda>bs (t, sent, got, pending). (Inr (), (t, sent @ bs, got, pending))),
      po_read = (\<lambda>n (t, sent, got, pending). (Inr (take n pending), (t, sent, got @ take n pending, drop n pending))),
      po_post = (\<lambda>url d1 d2 payload w. (Response None payload None, w))\<rparr>"

theorem probe_verdict_witness:
  "\<exists>w' version code reason rest.
     probe_http script_os 15000 ''/ok'' (0, [], [], as_bytes ''HTTP/1.1 200 OK'' @ [13, 10]) = (Inr True, w')
     \<and> fst (snd (snd w')) = status_line version code reason @ rest \<and> status_parts_ok version code reason
     \<and> code = as_bytes ''200'' \<and> fst (snd w') = as_bytes (probe_request 15000 ''/ok'')"
proof -
  let ?w = "(0, [], [], as_bytes ''HTTP/1.1 200 OK'' @ [13, 10]) :: nat \<times> u8 list \<times> u8 list \<times> u8 list"
  have ok: "probe_stream_ok script_os (\<lambda>w. fst (snd w)) (\<lambda>w. fst (snd (snd w)))"
    by (simp add: probe_stream_ok_def script_os_def)
  have "parse_http_status_line (as_bytes ''HTTP/1.1 200 OK'' @ [13, 10]) = Inr True"
    unfolding parse_http_status_line_iff
    by (rule exI [of _ "as_bytes ''HTTP/1.1''"], rule exI [of _ "as_bytes ''200''"], rule exI [of _ "as_bytes ''OK''"])
       (simp add: status_line_def status_parts_ok_def as_bytes_def byte_of_char_def is_digit_byte_def byte_in_def)
  then have "\<exists>w'. probe_http script_os 15000 ''/ok'' ?w = (Inr True, w')"
    by (simp add: probe_http_def validate_probe_path_def PROBE_PATH_MAX_def as_bytes_def byte_of_char_def byte_in_def
          op_bind_def op_err_def probe_time_remaining_def PROBE_DEADLINE_def probe_status.simps probe_read_def
          HTTP_STATUS_LINE_MAX_def script_os_def Let_def)
  then obtain w' where w': "probe_http script_os 15000 ''/ok'' ?w = (Inr True, w')" by blast
  from probe_verdict [OF ok _ this] w' show ?thesis by (auto simp del: as_bytes_def)
qed

section \<open>Waiting for a child\<close>

text \<open>A clock that is never set back and that a sleep moves forward by at least the time slept.\<close>

definition clock_ok :: "'w process_os \<Rightarrow> ('w \<Rightarrow> nat) \<Rightarrow> bool" where
  "clock_ok po tm =
     ((\<forall>w. tm w \<le> fst (po_now po w) \<and> fst (po_now po w) \<le> tm (snd (po_now po w)))
      \<and> (\<forall>w d. tm w + d \<le> tm (po_sleep po d w))
      \<and> (\<forall>w c. tm w \<le> tm (snd (po_try_wait po c w))))"

lemma clock_now: "clock_ok po tm \<Longrightarrow> po_now po w = (t, w') \<Longrightarrow> tm w \<le> t \<and> t \<le> tm w'"
  unfolding clock_ok_def by (metis fst_conv snd_conv)

lemma clock_try_wait: "clock_ok po tm \<Longrightarrow> po_try_wait po c w = (r, w') \<Longrightarrow> tm w \<le> tm w'"
  unfolding clock_ok_def by (metis snd_conv)

lemma clock_sleep: "clock_ok po tm \<Longrightarrow> tm w + d \<le> tm (po_sleep po d w)"
  by (simp add: clock_ok_def)

text \<open>The last look at the child found it exited.\<close>

definition seen_exited :: "'w process_os \<Rightarrow> child \<Rightarrow> 'w \<Rightarrow> bool" where
  "seen_exited po c w = (\<exists>w0 status. po_try_wait po c w0 = (Inr (Some status), w))"

definition poll_ok :: "'w process_os \<Rightarrow> child \<Rightarrow> (exit_poll \<times> 'w) option \<Rightarrow> bool" where
  "poll_ok po c r = (\<exists>x w'. r = Some (x, w') \<and> (x = Exited \<longrightarrow> seen_exited po c w'))"

lemma poll_ok_intros:
  "x \<noteq> Exited \<Longrightarrow> poll_ok po c (Some (x, w'))"
  "po_try_wait po c w = (Inr (Some status), w') \<Longrightarrow> poll_ok po c (Some (Exited, w'))"
  by (auto simp: poll_ok_def seen_exited_def)

lemma term_wait_ends:
  assumes ok: "clock_ok po tm"
  shows "poll_ok po c (term_wait po deadline c w)"
proof (induction "deadline - tm w" arbitrary: w rule: less_induct)
  case less
  obtain r w1 where tw: "po_try_wait po c w = (r, w1)" by fastforce
  obtain t w2 where n1: "po_now po w1 = (t, w2)" by fastforce
  obtain t2 w3 where n2: "po_now po w2 = (t2, w3)" by fastforce
  let ?w4 = "po_sleep po (min POLL_INTERVAL (deadline - t2)) w3"
  have "poll_ok po c (term_wait po deadline c ?w4)" if "t < deadline"
  proof (rule less)
    have "tm w \<le> t" "t \<le> t2" "t2 + min POLL_INTERVAL (deadline - t2) \<le> tm ?w4"
      using clock_try_wait [OF ok tw] clock_now [OF ok n1] clock_now [OF ok n2]
        clock_sleep [OF ok, of w3 "min POLL_INTERVAL (deadline - t2)"] by linarith+
    then show "deadline - tm ?w4 < deadline - tm w" using that by (simp add: POLL_INTERVAL_def)
  qed
  then show ?case
    using tw n1 n2 by (subst term_wait.simps) (auto intro: poll_ok_intros split: sum.splits option.splits)
qed

lemma wait_for_child_exit_ends:
  assumes ok: "clock_ok po tm"
  shows "poll_ok po c (wait_for_child_exit_until po deadline c w)"
proof (induction "deadline - tm w" arbitrary: w rule: less_induct)
  case less
  obtain r w1 where tw: "po_try_wait po c w = (r, w1)" by fastforce
  obtain t w2 where n1: "po_now po w1 = (t, w2)" by fastforce
  let ?w4 = "po_sleep po (min POLL_INTERVAL (deadline - t)) w2"
  have "poll_ok po c (wait_for_child_exit_until po deadline c ?w4)" if "t < deadline"
  proof (rule less)
    have "tm w \<le> t" "t + min POLL_INTERVAL (deadline - t) \<le> tm ?w4"
      using clock_try_wait [OF ok tw] clock_now [OF ok n1]
        clock_sleep [OF ok, of w2 "min POLL_INTERVAL (deadline - t)"] by linarith+
    then show "deadline - tm ?w4 < deadline - tm w" using that by (simp add: POLL_INTERVAL_def)
  qed
  then show ?case
    using tw n1 by (subst wait_for_child_exit_until.simps) (auto intro: poll_ok_intros split: sum.splits option.splits)
qed

lemma stop_child_ends:
  assumes ok: "clock_ok po tm"
  shows "\<exists>r w'. stop_child po container_id grace deadline c w = Some (r, w') \<and> (r = Inr () \<longrightarrow> seen_exited po c w')"
proof -
  have k: "\<exists>r w'. kill_child po container_id deadline c w = Some (r, w') \<and> (r = Inr () \<longrightarrow> seen_exited po c w')" for w
  proof -
    obtain t w2 where n: "po_now po (snd (po_kill po c w)) = (t, w2)" by fastforce
    from wait_for_child_exit_ends [OF ok, of c "min (t + POST_KILL_WAIT) deadline" w2]
    show ?thesis using n
      by (auto simp: kill_child_def poll_ok_def stop_error_def split: prod.splits sum.splits exit_poll.splits)
  qed
  have t: "\<exists>r w'. terminate_child po container_id grace deadline c w = Some (r, w') \<and> (r = Inr () \<longrightarrow> seen_exited po c w')" for w
  proof -
    obtain t w2 where n: "po_now po (snd (po_sigterm po (ch_id c) w)) = (t, w2)" by fastforce
    obtain x w3 where x: "term_wait po (min (t + unat (min grace MAX_STOP_GRACE_MS) * 10 ^ 6) deadline) c w2 = Some (x, w3)"
      "x = Exited \<longrightarrow> seen_exited po c w3"
      using term_wait_ends [OF ok, of c "min (t + unat (min grace MAX_STOP_GRACE_MS) * 10 ^ 6) deadline" w2]
      by (auto simp: poll_ok_def)
    show ?thesis using n x k [of w3]
      by (cases x) (auto simp: terminate_child_def stop_error_def split: prod.splits sum.splits)
  qed
  show ?thesis
    using t by (auto simp: stop_child_def stop_error_def seen_exited_def split: prod.splits sum.splits option.splits)
qed

text \<open>A stop leaves the table as it found it, whatever its result.\<close>

lemma finish_begin:
  assumes "begin_stop container_id p = Some (process, p1)"
  shows "hm_get (pr_processes p) container_id = Some process"
    and "\<exists>p2. finish_stop container_id process p1 = Inr p2 \<and> hm_get (pr_processes p2) = hm_get (pr_processes p)
      \<and> pr_next_port p2 = pr_next_port p \<and> pr_port_end_exclusive p2 = pr_port_end_exclusive p"
  using assms by (auto simp: begin_stop_def finish_stop_def fun_eq_iff split: option.splits)

definition same_table :: "process_runtime \<Rightarrow> process_runtime \<Rightarrow> bool" where
  "same_table p p' =
     (hm_get (pr_processes p') = hm_get (pr_processes p) \<and> pr_next_port p' = pr_next_port p
      \<and> pr_port_end_exclusive p' = pr_port_end_exclusive p)"

lemma stop_pod_until_ends:
  assumes ok: "clock_ok po tm"
  shows "\<exists>r p' w'. process_stop_pod_until po h grace deadline (p, w) = Inr (r, (p', w')) \<and> same_table p p'
    \<and> (r = Inr () \<longrightarrow> (\<exists>process. hm_get (pr_processes p) (ph_container_id h) = Some process
         \<and> seen_exited po (rp_child process) w'))"
proof (cases "begin_stop (ph_container_id h) p")
  case None
  then show ?thesis by (auto simp: process_stop_pod_until_def same_table_def split: prod.splits)
next
  case (Some x)
  obtain process p1 where x: "begin_stop (ph_container_id h) p = Some (process, p1)" using Some by (cases x) simp
  obtain t w1 where n: "po_now po w = (t, w1)" by fastforce
  obtain r w2 where r: "stop_child po (ph_container_id h) grace deadline (rp_child process) w1 = Some (r, w2)"
    "r = Inr () \<longrightarrow> seen_exited po (rp_child process) w2"
    using stop_child_ends [OF ok] by blast
  obtain p2 where p2: "finish_stop (ph_container_id h) process p1 = Inr p2" "same_table p p2"
    using finish_begin(2) [OF x] by (auto simp: same_table_def)
  show ?thesis
    using x n r p2 finish_begin(1) [OF x] by (auto simp: process_stop_pod_until_def same_table_def)
qed

text \<open>
  C17. Stopping and removing a process ends and is exact. On a clock that a sleep moves forward, both
  operations return without a panic for every table, handle, grace period and deadline, however the
  child behaves; a stop never changes which processes are tracked; a removal that succeeds drops
  exactly the container asked for, after the child was seen exited, and one that fails drops nothing.
\<close>

theorem stop_and_remove:
  assumes "clock_ok po tm"
  shows "(\<exists>r p' w'. process_stop_pod po h grace (p, w) = Inr (r, (p', w')) \<and> same_table p p'
      \<and> (r = Inr () \<longrightarrow> (\<exists>process. hm_get (pr_processes p) (ph_container_id h) = Some process
           \<and> seen_exited po (rp_child process) w')))
    \<and> (\<exists>r p' w'. process_remove_pod po h (p, w) = Inr (r, (p', w'))
      \<and> (if r = Inr () then hm_get (pr_processes p') = (hm_get (pr_processes p))(ph_container_id h := None)
           \<and> (\<exists>process w0. hm_get (pr_processes p) (ph_container_id h) = Some process \<and> seen_exited po (rp_child process) w0)
         else same_table p p'))"
proof
  obtain t w1 where n: "po_now po w = (t, w1)" by fastforce
  show "\<exists>r p' w'. process_stop_pod po h grace (p, w) = Inr (r, (p', w')) \<and> same_table p p'
      \<and> (r = Inr () \<longrightarrow> (\<exists>process. hm_get (pr_processes p) (ph_container_id h) = Some process
           \<and> seen_exited po (rp_child process) w'))"
    using n stop_pod_until_ends [OF assms, of h grace _ p w1] by (simp add: process_stop_pod_def)
  obtain r p' w' where s: "process_stop_pod_until po h 0 (t + POST_KILL_WAIT) (p, w1) = Inr (r, (p', w'))" "same_table p p'"
    "r = Inr () \<longrightarrow> (\<exists>process. hm_get (pr_processes p) (ph_container_id h) = Some process
       \<and> seen_exited po (rp_child process) w')"
    using stop_pod_until_ends [OF assms] by blast
  obtain t2 w2 where n2: "po_now po w' = (t2, w2)" by fastforce
  show "\<exists>r p' w'. process_remove_pod po h (p, w) = Inr (r, (p', w'))
      \<and> (if r = Inr () then hm_get (pr_processes p') = (hm_get (pr_processes p))(ph_container_id h := None)
           \<and> (\<exists>process w0. hm_get (pr_processes p) (ph_container_id h) = Some process \<and> seen_exited po (rp_child process) w0)
         else same_table p p')"
    using n n2 s
    by (cases r) (auto simp: process_remove_pod_def process_remove_pod_until_def try_call_def drop_process_def
          same_table_def fun_eq_iff)
qed

theorem stop_and_remove_witness:
  "\<exists>r p' w'. process_remove_pod script_os \<lparr>ph_pod_id = 1, ph_container_id = ''c''\<rparr>
       ((with_base_port 1)\<lparr>pr_processes := [(''c'', \<lparr>rp_child = \<lparr>ch_handle = 0, ch_id = 42\<rparr>, rp_port = 1\<rparr>)]\<rparr>, (0, [], [], []))
     = Inr (r, (p', w'))"
proof -
  have "clock_ok script_os fst" by (simp add: clock_ok_def script_os_def split: prod.splits)
  from stop_and_remove [OF this] show ?thesis by blast
qed

section \<open>Ownership under interleaving\<close>

text \<open>
  The runtime is shared by the worker's threads. The steps of a thread on the table are a whole
  creation, which holds the port lock, the two ends of a stop, and the end of a removal; between the
  ends of a stop the process is held by its thread.
\<close>

inductive process_reach :: "'w process_os \<Rightarrow> process_runtime \<Rightarrow> (string \<rightharpoonup> running_process) \<Rightarrow> bool"
  for po :: "'w process_os" where
  reach_new: "process_reach po (with_base_port base_port) Map.empty"
| reach_test: "with_test_controls base_port = Inr p \<Longrightarrow> process_reach po p Map.empty"
| reach_create: "process_reach po p held \<Longrightarrow> process_create_pod po spec (p, w) = Inr (r, (p', w'))
    \<Longrightarrow> process_reach po p' held"
| reach_take: "process_reach po p held \<Longrightarrow> begin_stop container_id p = Some (process, p')
    \<Longrightarrow> process_reach po p' (held(container_id \<mapsto> process))"
| reach_put: "process_reach po p held \<Longrightarrow> held container_id = Some process
    \<Longrightarrow> finish_stop container_id process p = Inr p' \<Longrightarrow> process_reach po p' (held(container_id := None))"
| reach_drop: "process_reach po p held \<Longrightarrow> drop_process container_id p = Inr p' \<Longrightarrow> process_reach po p' held"

definition owns :: "process_runtime \<Rightarrow> (string \<rightharpoonup> running_process) \<Rightarrow> string \<Rightarrow> running_process \<Rightarrow> bool" where
  "owns p held container_id process =
     (hm_get (pr_processes p) container_id = Some process \<or> held container_id = Some process)"

definition ownership_inv :: "process_runtime \<Rightarrow> (string \<rightharpoonup> running_process) \<Rightarrow> bool" where
  "ownership_inv p held =
     ((\<forall>i. hm_get (pr_processes p) i = None \<or> held i = None)
      \<and> (\<forall>i q. owns p held i q \<longrightarrow> rp_port q < pr_next_port p \<and> (\<exists>pod_id. i = container_id_of pod_id (rp_port q)))
      \<and> (\<forall>i j q q'. owns p held i q \<longrightarrow> owns p held j q' \<longrightarrow> rp_port q = rp_port q' \<longrightarrow> i = j))"

lemma colon_not_dec: "CHR '':'' \<notin> set (dec n)"
  using dec_digits [of "CHR '':''" n] by auto

lemma container_id_port: "container_id_of a x = container_id_of b y \<Longrightarrow> x = y"
proof -
  assume "container_id_of a x = container_id_of b y"
  then have "dec (unat a) @ CHR '':'' # dec (unat x) = dec (unat b) @ CHR '':'' # dec (unat y)"
    by (simp add: container_id_of_def)
  then have "dec (unat x) = dec (unat y)"
    using append_Cons_eq_iff [of "CHR '':''" "dec (unat a)" "dec (unat x)" "dec (unat b)" "dec (unat y)"] colon_not_dec
    by (metis)
  then show ?thesis by (simp add: word_unat_eq_iff)
qed

lemma process_create_cases:
  assumes "process_create_pod po spec (p, w) = Inr (r, (p', w'))"
  shows "p' = p \<or> (pr_next_port p < pr_next_port p' \<and> pr_processes p' = pr_processes p)
    \<or> (pr_next_port p < pr_next_port p' \<and> (\<exists>child. pr_processes p' =
         hm_insert (container_id_of (ps_pod_id spec) (pr_next_port p)) \<lparr>rp_child = child, rp_port = pr_next_port p\<rparr> (pr_processes p)))"
proof -
  have "x < y" if "checked_add x 1 = Some y" for x y :: u16
    using checked_add_Some [OF that] by (simp add: word_less_nat_alt)
  then show ?thesis
    using assms by (auto simp: process_create_pod_def Let_def split: if_splits option.splits prod.splits sum.splits)
qed

lemma ownership_fresh:
  assumes "ownership_inv p held"
  shows "\<not> owns p held (container_id_of pod_id (pr_next_port p)) q"
  using assms container_id_port [of pod_id "pr_next_port p"] unfolding ownership_inv_def
  by (metis order_less_irrefl)

lemma ownership_create:
  assumes inv: "ownership_inv p held" and "process_create_pod po spec (p, w) = Inr (r, (p', w'))"
  shows "ownership_inv p' held"
proof -
  let ?id = "container_id_of (ps_pod_id spec) (pr_next_port p)"
  have keep: "ownership_inv p' held" if "pr_processes p' = pr_processes p" "pr_next_port p < pr_next_port p'"
  proof -
    have "owns p' held = owns p held" using that(1) by (simp add: owns_def fun_eq_iff)
    then show ?thesis using inv that unfolding ownership_inv_def by (auto intro: order_less_trans)
  qed
  have add: "ownership_inv p' held" if next': "pr_next_port p < pr_next_port p'"
    and "pr_processes p' = hm_insert ?id \<lparr>rp_child = child, rp_port = pr_next_port p\<rparr> (pr_processes p)" for child
  proof -
    let ?q = "\<lparr>rp_child = child, rp_port = pr_next_port p\<rparr>"
    have owns: "owns p' held i q \<longleftrightarrow> (i = ?id \<and> q = ?q) \<or> owns p held i q" for i q
      using that(2) ownership_fresh [OF inv, of "ps_pod_id spec"] by (auto simp: owns_def)
    have old: "rp_port q < pr_next_port p" "\<exists>pod_id. i = container_id_of pod_id (rp_port q)" if "owns p held i q" for i q
      using inv that by (auto simp: ownership_inv_def)
    have one: "i = j" if "owns p held i q" "owns p held j q'" "rp_port q = rp_port q'" for i j q q'
      using inv that unfolding ownership_inv_def by blast
    show ?thesis
      unfolding ownership_inv_def
    proof (intro conjI allI impI)
      show "hm_get (pr_processes p') i = None \<or> held i = None" for i
      proof (cases "i = ?id")
        case True
        then show ?thesis using ownership_fresh [OF inv, of "ps_pod_id spec"] by (cases "held i") (auto simp: owns_def)
      next
        case False
        then show ?thesis using inv that(2) by (simp add: ownership_inv_def)
      qed
      show "rp_port q < pr_next_port p'" "\<exists>pod_id. i = container_id_of pod_id (rp_port q)" if "owns p' held i q" for i q
        using that old [of i q] next' unfolding owns by auto
      show "i = j" if "owns p' held i q" "owns p' held j q'" "rp_port q = rp_port q'" for i j q q'
        using that old(1) [of i q] old(1) [of j q'] one [of i q j q'] unfolding owns by auto
    qed
  qed
  from process_create_cases [OF assms(2)] show ?thesis using inv keep add by blast
qed

lemma ownership_mono:
  assumes "ownership_inv p held" and "pr_next_port p' = pr_next_port p"
    and "\<And>i. hm_get (pr_processes p') i = None \<or> held' i = None" and "\<And>i q. owns p' held' i q \<Longrightarrow> owns p held i q"
  shows "ownership_inv p' held'"
  using assms unfolding ownership_inv_def by metis

lemma ownership_disjoint: "ownership_inv p held \<Longrightarrow> held j = Some q \<Longrightarrow> hm_get (pr_processes p) j = None"
  unfolding ownership_inv_def by (metis option.distinct(1))

lemma ownership_reach: "process_reach po p held \<Longrightarrow> ownership_inv p held"
proof (induction rule: process_reach.induct)
  case (reach_create p held spec w r p' w')
  show ?case by (rule ownership_create [OF reach_create.IH reach_create.hyps(2)])
next
  case (reach_take p held i process p')
  note t = reach_take.hyps(2) [unfolded begin_stop_def]
  note dj = ownership_disjoint [OF reach_take.IH]
  show ?case
    using t by (intro ownership_mono [OF reach_take.IH]) (auto simp: owns_def dj split: option.splits if_splits)
next
  case (reach_put p held i process p')
  note dj = ownership_disjoint [OF reach_put.IH]
  show ?case
    using reach_put.hyps(2,3)
    by (intro ownership_mono [OF reach_put.IH]) (auto simp: finish_stop_def owns_def and_then_Inr dj split: if_splits)
next
  case (reach_drop p held i p')
  note dj = ownership_disjoint [OF reach_drop.IH]
  show ?case
    using reach_drop.hyps(2)
    by (intro ownership_mono [OF reach_drop.IH]) (auto simp: drop_process_def owns_def and_then_Inr dj split: if_splits)
qed (auto simp: ownership_inv_def owns_def with_base_port_def with_test_controls_def and_then_Inr)

text \<open>
  C10. Ownership of processes is unique in every interleaving of the threads that create, stop and
  remove pods. Whoever holds a process in the middle of a stop can always put it back: the assertion
  on unique ownership never fails. No two processes that are tracked or held share a port, and a
  container is never tracked and held at the same time.
\<close>

theorem process_ownership:
  assumes "process_reach po p held"
  shows "(\<forall>i q. held i = Some q \<longrightarrow> (\<exists>p'. finish_stop i q p = Inr p' \<and> hm_get (pr_processes p') i = Some q))
    \<and> (\<forall>i j q q'. owns p held i q \<longrightarrow> owns p held j q' \<longrightarrow> rp_port q = rp_port q' \<longrightarrow> i = j)"
  using ownership_reach [OF assms] by (auto simp: ownership_inv_def finish_stop_def and_then_Inr)

theorem process_ownership_witness:
  "\<exists>p held. process_reach script_os p held
     \<and> (\<exists>i q. held i = Some q \<and> (\<exists>p'. finish_stop i q p = Inr p' \<and> hm_get (pr_processes p') i = Some q))"
proof -
  let ?spec = "\<lparr>ps_pod_id = 1, ps_deployment_id = 1, ps_image = [], ps_entrypoint = [], ps_port = 0, ps_gpu_count = 0,
    ps_gpu_type = GpuNone, ps_cpu_millicores = 0, ps_memory_megabytes = 0, ps_env_vars = [], ps_mounts = []\<rparr>"
  let ?id = "container_id_of 1 15000"
  let ?q = "\<lparr>rp_child = \<lparr>ch_handle = 0, ch_id = 42\<rparr>, rp_port = 15000\<rparr>"
  let ?p = "(with_base_port 15000)\<lparr>pr_next_port := 15001, pr_processes := [(?id, ?q)]\<rparr>"
  have "\<exists>r w'. process_create_pod script_os ?spec (with_base_port 15000, (0, [], [], [])) = Inr (r, (?p, w'))"
    by (simp add: process_create_pod_def with_base_port_def spawn_pod_def script_os_def checked_add_def Let_def hm_eval)
  then have "process_reach script_os ?p Map.empty" by (auto intro: process_reach.intros)
  moreover have "begin_stop ?id ?p = Some (?q, ?p\<lparr>pr_processes := []\<rparr>)" by (simp add: begin_stop_def hm_eval)
  ultimately have r: "process_reach script_os (?p\<lparr>pr_processes := []\<rparr>) (Map.empty(?id \<mapsto> ?q))"
    by (rule reach_take)
  from process_ownership [OF r] r show ?thesis by (metis fun_upd_same)
qed

end
