(* ===== verification/Runtime_Containerd.thy ===== *)
theory Runtime_Containerd
  imports Runtime_Process
begin

unbundle bit_operations_syntax

text \<open>
  The runtime that drives containerd through the \<open>ctr\<close> command, \<^verbatim>\<open>worker/src/runtime/containerd.rs\<close>.
  Everything it knows comes from the text \<open>ctr\<close> prints, so the model keeps the listings as text and
  parses them as the code does. The operating system, the SHA-256 hash and the JSON reader are the
  functions of the record \<open>ctr_os\<close>; the HTTP code is shared with the process runtime. The fixed
  settings are a record of their own, and the two counters are the state.
\<close>

section \<open>State and environment\<close>

definition DEFAULT_SOCKET :: string where "DEFAULT_SOCKET = ''/run/containerd/containerd.sock''"
definition DEFAULT_NAMESPACE :: string where "DEFAULT_NAMESPACE = ''hivemind''"
definition CTR_TIMEOUT_SECS :: nat where "CTR_TIMEOUT_SECS = 30"
definition AUTH_CONFIG_MAX_BYTES :: nat where "AUTH_CONFIG_MAX_BYTES = 4096"
definition WORKLOAD_IDENTITY_LABEL :: string where "WORKLOAD_IDENTITY_LABEL = ''hivemind.workload.identity''"

abbreviation SECOND :: nat where "SECOND \<equiv> 10 ^ 9"

record containerd_runtime =
  cd_socket_path :: string
  cd_namespace :: string
  cd_runtime_name :: string
  cd_snapshotter :: string

record ctr_counters =
  cc_container_sequence :: u64
  cc_auth_config_sequence :: u64

record registry_hosts =
  rh_root :: string
  rh_redactions :: "string list"

text \<open>
  \<open>co_label\<close> reads the workload identity label of a container's JSON description: an error if the
  text is not JSON, \<open>None\<close> if there is no such label or it is not a string.
\<close>

record 'w ctr_os =
  co_process :: "'w process_os"
  co_command :: "string list \<Rightarrow> (command_output, 'w) op"
  co_create_dir :: "string \<Rightarrow> (unit, 'w) op"
  co_set_mode :: "string \<Rightarrow> nat \<Rightarrow> (unit, 'w) op"
  co_create_new :: "string \<Rightarrow> nat \<Rightarrow> (unit, 'w) op"
  co_write_all :: "string \<Rightarrow> string \<Rightarrow> (unit, 'w) op"
  co_sync_all :: "string \<Rightarrow> (unit, 'w) op"
  co_remove_dir_all :: "string \<Rightarrow> 'w \<Rightarrow> (remove_error + unit) \<times> 'w"
  co_path_exists :: "string \<Rightarrow> 'w \<Rightarrow> bool"
  co_write_file :: "string \<Rightarrow> string \<Rightarrow> 'w \<Rightarrow> 'w"
  co_open_netns :: "string \<Rightarrow> (nat, 'w) op"
  co_setns :: "nat \<Rightarrow> (unit, 'w) op"
  co_temp_dir :: string
  co_process_id :: u32
  co_arch :: string
  co_sha256 :: "u8 list \<Rightarrow> u8 list"
  co_label :: "string \<Rightarrow> string + string option"

type_synonym ('a, 'w) ctr_call = "('a, ctr_counters \<times> 'w) call"

definition containerd_new :: "string option \<Rightarrow> string option \<Rightarrow> string option \<Rightarrow> string option \<Rightarrow> containerd_runtime" where
  "containerd_new socket_path namespace runtime_name snapshotter =
     \<lparr>cd_socket_path = (case socket_path of None \<Rightarrow> DEFAULT_SOCKET | Some s \<Rightarrow> s),
      cd_namespace = (case namespace of None \<Rightarrow> DEFAULT_NAMESPACE | Some s \<Rightarrow> s),
      cd_runtime_name = (case runtime_name of None \<Rightarrow> ''io.containerd.runc.v2'' | Some s \<Rightarrow> s),
      cd_snapshotter = (case snapshotter of None \<Rightarrow> ''overlayfs'' | Some s \<Rightarrow> s)\<rparr>"

definition on_world :: "('w \<Rightarrow> 'a \<times> 'w) \<Rightarrow> ('a, 'w) ctr_call" where
  "on_world f e = (let (x, w) = f (snd e) in Inr (x, (fst e, w)))"

definition now :: "'w ctr_os \<Rightarrow> (instant, 'w) ctr_call" where
  "now co = on_world (po_now (co_process co))"

definition err_call :: "('x \<Rightarrow> 'y) \<Rightarrow> ('x + 'a, 'w) ctr_call \<Rightarrow> ('y + 'a, 'w) ctr_call" where
  "err_call f c = bind_call c (\<lambda>r. ret (map_err f r))"

definition err_of :: "'x + 'a \<Rightarrow> 'x option" where
  "err_of r = (case r of Inl x \<Rightarrow> Some x | Inr _ \<Rightarrow> None)"

definition or_ok :: "string option \<Rightarrow> string" where
  "or_ok x = (case x of None \<Rightarrow> ''ok'' | Some m \<Rightarrow> m)"

section \<open>Names and identities\<close>

definition container_id_prefix :: "u64 \<Rightarrow> string" where
  "container_id_prefix pod_id = ''hivemind-pod-'' @ dec (unat pod_id)"

definition next_container_id :: "u64 \<Rightarrow> (string, 'w) ctr_call" where
  "next_container_id pod_id e =
     (let sequence = cc_container_sequence (fst e) + 1 in
      Inr (container_id_prefix pod_id @ ''-'' @ dec (unat sequence),
           ((fst e)\<lparr>cc_container_sequence := sequence\<rparr>, snd e)))"

definition be_bytes :: "nat \<Rightarrow> nat \<Rightarrow> u8 list" where
  "be_bytes k n = rev (le_bytes k n)"

definition sized :: "u8 list \<Rightarrow> u8 list" where
  "sized bs = be_bytes 8 (length bs) @ bs"

definition identity_bytes :: "containerd_runtime \<Rightarrow> pod_spec \<Rightarrow> u8 list" where
  "identity_bytes cd spec =
     sized (as_bytes ''hivemind-containerd-workload-v1'')
     @ be_bytes 8 (unat (ps_pod_id spec)) @ be_bytes 8 (unat (ps_deployment_id spec))
     @ sized (as_bytes (ps_image spec)) @ sized (as_bytes (ps_entrypoint spec))
     @ be_bytes 2 (unat (ps_port spec)) @ [ps_gpu_count spec] @ [gpu_code (ps_gpu_type spec)]
     @ be_bytes 4 (unat (ps_cpu_millicores spec)) @ be_bytes 4 (unat (ps_memory_megabytes spec))
     @ be_bytes 8 (length (ps_env_vars spec))
     @ concat (map (\<lambda>(name, val). sized (as_bytes name) @ sized (as_bytes val)) (ps_env_vars spec))
     @ be_bytes 8 (length (ps_mounts spec))
     @ concat (map (\<lambda>m. sized (as_bytes (bm_host_path m)) @ sized (as_bytes (bm_container_path m))) (ps_mounts spec))
     @ sized (as_bytes (cd_runtime_name cd)) @ sized (as_bytes (cd_snapshotter cd))"

definition workload_identity :: "'w ctr_os \<Rightarrow> containerd_runtime \<Rightarrow> pod_spec \<Rightarrow> string" where
  "workload_identity co cd spec = concat (map hex02 (co_sha256 co (identity_bytes cd spec)))"

definition is_ascii_hexdigit :: "char \<Rightarrow> bool" where
  "is_ascii_hexdigit c = (to_digit 16 c \<noteq> None)"

definition to_ascii_lowercase :: "string \<Rightarrow> string" where
  "to_ascii_lowercase s =
     map (\<lambda>c. if 65 \<le> (of_char c :: nat) \<and> (of_char c :: nat) \<le> 90 then char_of ((of_char c :: nat) + 32) else c) s"

definition workload_identity_from_container_info :: "'w ctr_os \<Rightarrow> string \<Rightarrow> runtime_error + string" where
  "workload_identity_from_container_info co info =
     (case co_label co info of
        Inl error \<Rightarrow> Inl (ContainerCreate (''container identity metadata is invalid: '' @ error))
      | Inr None \<Rightarrow> Inl (ContainerCreate ''container lacks immutable workload identity metadata'')
      | Inr (Some identity) \<Rightarrow>
          if length identity \<noteq> 64 \<or> \<not> list_all is_ascii_hexdigit identity then
            Inl (ContainerCreate ''container workload identity metadata is malformed'')
          else Inr (to_ascii_lowercase identity))"

definition gpu_env :: "pod_spec \<Rightarrow> string list" where
  "gpu_env spec =
     (if ps_gpu_count spec = 0 then [''NVIDIA_VISIBLE_DEVICES=none'']
      else [''NVIDIA_VISIBLE_DEVICES='' @ join '','' (map dec [0..<unat (ps_gpu_count spec)]),
            ''NVIDIA_DRIVER_CAPABILITIES=compute,utility''])"

definition gpu_device_args :: "pod_spec \<Rightarrow> string list" where
  "gpu_device_args spec =
     concat (map (\<lambda>gpu_idx. [''--device'', ''nvidia.com/gpu='' @ dec gpu_idx]) [0..<unat (ps_gpu_count spec)])"

definition default_platform :: "string \<Rightarrow> string" where
  "default_platform arch =
     (if arch = ''x86_64'' then ''linux/amd64'' else if arch = ''aarch64'' then ''linux/arm64''
      else if arch = ''arm'' then ''linux/arm/v7'' else ''linux/amd64'')"

section \<open>Registry credentials\<close>

definition ALPHABET :: string where
  "ALPHABET = ''ABCDEFGHIJKLMNOPQRSTUVWXYZabcdefghijklmnopqrstuvwxyz0123456789+/''"

definition b64_value :: "u8 \<Rightarrow> u8 \<Rightarrow> u8 \<Rightarrow> u32" where
  "b64_value a b c = push_bit 16 (ucast a) OR push_bit 8 (ucast b) OR ucast c"

definition b64_char :: "u32 \<Rightarrow> char" where
  "b64_char v = ALPHABET ! unat (v AND 0x3f)"

fun base64 :: "u8 list \<Rightarrow> string" where
  "base64 [] = []"
| "base64 [a] = (let v = b64_value a 0 0 in [b64_char (drop_bit 18 v), b64_char (drop_bit 12 v), CHR ''='', CHR ''=''])"
| "base64 [a, b] =
     (let v = b64_value a b 0 in [b64_char (drop_bit 18 v), b64_char (drop_bit 12 v), b64_char (drop_bit 6 v), CHR ''=''])"
| "base64 (a # b # c # rest) =
     (let v = b64_value a b c in
      [b64_char (drop_bit 18 v), b64_char (drop_bit 12 v), b64_char (drop_bit 6 v), b64_char v] @ base64 rest)"

definition registry_char :: "char \<Rightarrow> bool" where
  "registry_char c =
     (let n = of_char c :: nat in
      48 \<le> n \<and> n \<le> 57 \<or> 65 \<le> n \<and> n \<le> 90 \<or> 97 \<le> n \<and> n \<le> 122 \<or> c \<in> set ''.-:[]'')"

definition credentials :: "image_pull_auth \<Rightarrow> string" where
  "credentials auth = ipa_username auth @ '':'' @ ipa_password auth"

definition quoted :: "string \<Rightarrow> string" where
  "quoted s = [CHR 0x22] @ s @ [CHR 0x22]"

definition registry_hosts_toml :: "image_pull_auth \<Rightarrow> runtime_error + string" where
  "registry_hosts_toml auth =
     (if ipa_registry auth = [] \<or> \<not> list_all registry_char (ipa_registry auth) then
        Inl (ImagePull ''registry host contains unsupported characters'')
      else
        let authorization = base64 (as_bytes (credentials auth));
            url = quoted (''https://'' @ ipa_registry auth);
            config = ''server = '' @ url @ [LF, LF] @ ''[host.'' @ url @ '']'' @ [LF]
              @ ''  capabilities = ['' @ quoted ''pull'' @ '', '' @ quoted ''resolve'' @ '']'' @ [LF]
              @ ''  [host.'' @ url @ ''.header]'' @ [LF]
              @ ''    authorization = '' @ quoted (''Basic '' @ authorization) @ [LF]
        in if length config > AUTH_CONFIG_MAX_BYTES then
             Inl (ImagePull ''registry authentication configuration exceeds size limit'')
           else Inr config)"

text \<open>A step of the preparation: if it fails the whole directory is removed again.\<close>

definition guarded :: "'w ctr_os \<Rightarrow> string \<Rightarrow> string \<Rightarrow> (unit, 'w) op \<Rightarrow> (runtime_error + unit, 'w) ctr_call" where
  "guarded co root what f =
     bind_call (on_world f) (\<lambda>r. case r of
       Inr u \<Rightarrow> ret (Inr u)
     | Inl error \<Rightarrow> bind_call (on_world (co_remove_dir_all co root)) (\<lambda>_. ret (Inl (ImagePull (what @ '': '' @ error)))))"

definition take_auth_sequence :: "(u64, 'w) ctr_call" where
  "take_auth_sequence e =
     Inr (cc_auth_config_sequence (fst e),
          ((fst e)\<lparr>cc_auth_config_sequence := cc_auth_config_sequence (fst e) + 1\<rparr>, snd e))"

definition prepare_registry_hosts :: "'w ctr_os \<Rightarrow> image_pull_auth \<Rightarrow> (runtime_error + registry_hosts, 'w) ctr_call" where
  "prepare_registry_hosts co auth =
     try_call (ret (registry_hosts_toml auth)) (\<lambda>config.
     bind_call take_auth_sequence (\<lambda>sequence.
       let root = co_temp_dir co @ ''/hivemind-registry-auth-'' @ dec (unat (co_process_id co)) @ ''-'' @ dec (unat sequence);
           host_dir = root @ ''/'' @ ipa_registry auth;
           config_path = host_dir @ ''/hosts.toml''
       in try_call (err_call (\<lambda>error. ImagePull (''create protected registry config: '' @ error)) (on_world (co_create_dir co root))) (\<lambda>_.
          try_call (guarded co root ''protect registry config directory'' (co_set_mode co root 448)) (\<lambda>_.
          try_call (guarded co root ''create registry host config'' (co_create_dir co host_dir)) (\<lambda>_.
          try_call (guarded co root ''create registry hosts config'' (co_create_new co config_path 384)) (\<lambda>_.
          try_call (guarded co root ''write registry hosts config'' (co_write_all co config_path config)) (\<lambda>_.
          try_call (guarded co root ''sync registry hosts config'' (co_sync_all co config_path)) (\<lambda>_.
            ret (Inr \<lparr>rh_root = root,
                      rh_redactions = [ipa_username auth, ipa_password auth, base64 (as_bytes (credentials auth))]\<rparr>)))))))))"

text \<open>Dropping the configuration removes its directory; a failure is only logged.\<close>

definition drop_registry_hosts :: "'w ctr_os \<Rightarrow> registry_hosts option \<Rightarrow> (unit, 'w) ctr_call" where
  "drop_registry_hosts co hosts =
     (case hosts of
        None \<Rightarrow> ret ()
      | Some h \<Rightarrow> bind_call (on_world (co_remove_dir_all co (rh_root h))) (\<lambda>_. ret ()))"

definition pull_image_args :: "containerd_runtime \<Rightarrow> string \<Rightarrow> string option \<Rightarrow> string option \<Rightarrow> string list" where
  "pull_image_args cd img hosts_dir platform =
     [''images'', ''pull'', ''--snapshotter'', cd_snapshotter cd]
     @ (case platform of None \<Rightarrow> [] | Some p \<Rightarrow> [''--platform'', p])
     @ (case hosts_dir of None \<Rightarrow> [] | Some d \<Rightarrow> [''--hosts-dir'', d]) @ [img]"

section \<open>Running ctr\<close>

definition redact :: "string list \<Rightarrow> string \<Rightarrow> string" where
  "redact redactions text =
     foldl (\<lambda>t secret. if secret = [] then t else replace_all secret ''[REDACTED]'' t) text redactions"

definition format_ctr_error :: "string list \<Rightarrow> int \<Rightarrow> nat \<Rightarrow> string \<Rightarrow> string \<Rightarrow> string list \<Rightarrow> string" where
  "format_ctr_error args code timeout_ms stdout stderr redactions =
     (let command = redact redactions (join '' '' args) in
      if code = 124 then ''ctr '' @ command @ '': timed out after '' @ dec timeout_ms @ ''ms''
      else
        let out = redact redactions (trim stdout);
            err = redact redactions (trim stderr);
            head = ''ctr '' @ command @ '': exit code '' @ dec_signed code
        in if out = [] \<and> err = [] then head
           else if out = [] then head @ '': stderr: '' @ err
           else if err = [] then head @ '': stdout: '' @ out
           else head @ '': stdout: '' @ out @ ''; stderr: '' @ err)"

definition ctr_argv :: "containerd_runtime \<Rightarrow> string list \<Rightarrow> nat \<Rightarrow> string list" where
  "ctr_argv cd args timeout_ms =
     [''timeout'', dec timeout_ms @ ''ms'', ''ctr'', ''-n'', cd_namespace cd, ''-a'', cd_socket_path cd] @ args"

definition run_ctr_duration ::
    "'w ctr_os \<Rightarrow> containerd_runtime \<Rightarrow> string list \<Rightarrow> nat \<Rightarrow> string list \<Rightarrow> (string + string, 'w) ctr_call" where
  "run_ctr_duration co cd args timeout redactions e =
     and_then (ensure (timeout \<noteq> 0) ''ctr timeout must be positive'') (\<lambda>_.
       let timeout_ms = min (max (timeout div 10 ^ 6) 1) (2 ^ 64 - 1) in
       try_call (err_call (\<lambda>error. ''ctr exec: '' @ error) (on_world (co_command co (ctr_argv cd args timeout_ms)))) (\<lambda>output.
         if \<not> out_success output then
           ret (Inl (format_ctr_error args (case out_code output of None \<Rightarrow> - 1 | Some c \<Rightarrow> c) timeout_ms
                       (from_utf8_lossy (out_stdout output)) (from_utf8_lossy (out_stderr output)) redactions))
         else ret (Inr (from_utf8_lossy (out_stdout output)))) e)"

definition run_ctr_timeout :: "'w ctr_os \<Rightarrow> containerd_runtime \<Rightarrow> string list \<Rightarrow> nat \<Rightarrow> (string + string, 'w) ctr_call" where
  "run_ctr_timeout co cd args timeout_secs = run_ctr_duration co cd args (timeout_secs * SECOND) []"

definition run_ctr :: "'w ctr_os \<Rightarrow> containerd_runtime \<Rightarrow> string list \<Rightarrow> (string + string, 'w) ctr_call" where
  "run_ctr co cd args = run_ctr_timeout co cd args CTR_TIMEOUT_SECS"

definition run_ctr_until :: "'w ctr_os \<Rightarrow> containerd_runtime \<Rightarrow> string list \<Rightarrow> instant \<Rightarrow> (string + string, 'w) ctr_call" where
  "run_ctr_until co cd args deadline =
     bind_call (now co) (\<lambda>t.
       if deadline - t = 0 then ret (Inl ''ctr shutdown deadline reached'')
       else run_ctr_duration co cd args (deadline - t) [])"

section \<open>Listings\<close>

text \<open>The first columns of the rows of a listing, without its header.\<close>

definition first_columns :: "string \<Rightarrow> string list" where
  "first_columns listing =
     List.map_filter (\<lambda>line. case split_whitespace line of [] \<Rightarrow> None | c # _ \<Rightarrow> Some c) (drop 1 (lines listing))"

definition image_present_in_listing :: "string \<Rightarrow> string \<Rightarrow> bool" where
  "image_present_in_listing listing img = list_ex (\<lambda>c. c = img) (first_columns listing)"

definition image_present :: "'w ctr_os \<Rightarrow> containerd_runtime \<Rightarrow> string \<Rightarrow> (string + bool, 'w) ctr_call" where
  "image_present co cd img =
     try_call (run_ctr co cd [''images'', ''ls'']) (\<lambda>listing. ret (Inr (image_present_in_listing listing img)))"

definition status_of_column :: "string \<Rightarrow> pod_status" where
  "status_of_column col =
     (if col = ''CREATED'' then StatusCreated else if col = ''RUNNING'' then StatusRunning
      else if col = ''STOPPED'' then StatusStopped 0 else StatusUnknown)"

fun status_in_lines :: "string list \<Rightarrow> string \<Rightarrow> pod_status option" where
  "status_in_lines [] container_id = None"
| "status_in_lines (line # rest) container_id =
     (let cols = split_whitespace line in
      if 3 \<le> length cols \<and> cols ! 0 = container_id then Some (status_of_column (cols ! 2))
      else status_in_lines rest container_id)"

definition task_status_from_listing :: "string \<Rightarrow> string \<Rightarrow> pod_status option" where
  "task_status_from_listing listing container_id = status_in_lines (drop 1 (lines listing)) container_id"

definition task_status_by_id :: "'w ctr_os \<Rightarrow> containerd_runtime \<Rightarrow> string \<Rightarrow> (runtime_error + pod_status option, 'w) ctr_call" where
  "task_status_by_id co cd container_id =
     try_call (err_call (\<lambda>e. ContainerNotFound (container_id @ '': '' @ e)) (run_ctr co cd [''tasks'', ''list''])) (\<lambda>output.
       ret (Inr (task_status_from_listing output container_id)))"

definition task_shim_dir :: "containerd_runtime \<Rightarrow> string \<Rightarrow> string" where
  "task_shim_dir cd container_id =
     ''/run/containerd/io.containerd.runtime.v2.task/'' @ cd_namespace cd @ ''/'' @ container_id"

definition listing_contains_exact_id :: "string \<Rightarrow> string \<Rightarrow> bool" where
  "listing_contains_exact_id listing container_id = list_ex (\<lambda>i. i = container_id) (first_columns listing)"

definition show_bool :: "bool \<Rightarrow> string" where
  "show_bool b = (if b then ''true'' else ''false'')"

definition remove_shim :: "'w ctr_os \<Rightarrow> string \<Rightarrow> (string option, 'w) ctr_call" where
  "remove_shim co shim_dir =
     bind_call (on_world (co_remove_dir_all co shim_dir)) (\<lambda>r. ret (case r of
       Inr _ \<Rightarrow> None | Inl NotFoundError \<Rightarrow> None | Inl (OtherError m) \<Rightarrow> Some m))"

definition cleanup_task_state_until ::
    "'w ctr_os \<Rightarrow> containerd_runtime \<Rightarrow> string \<Rightarrow> instant \<Rightarrow> (runtime_error + unit, 'w) ctr_call" where
  "cleanup_task_state_until co cd container_id deadline =
     bind_call (run_ctr_until co cd [''tasks'', ''kill'', ''--signal'', ''9'', container_id] deadline) (\<lambda>kill.
     bind_call (run_ctr_until co cd [''tasks'', ''delete'', ''--force'', container_id] deadline) (\<lambda>task_delete.
     bind_call (run_ctr_until co cd [''containers'', ''delete'', container_id] deadline) (\<lambda>container_delete.
     bind_call (remove_shim co (task_shim_dir cd container_id)) (\<lambda>shim_remove_error.
     try_call (err_call (\<lambda>error. ContainerStop (container_id @ '' cleanup task verification failed: '' @ error))
                 (run_ctr_until co cd [''tasks'', ''list''] deadline)) (\<lambda>tasks.
     try_call (err_call (\<lambda>error. ContainerStop (container_id @ '' cleanup container verification failed: '' @ error))
                 (run_ctr_until co cd [''containers'', ''list''] deadline)) (\<lambda>containers e.
       let task_remains = listing_contains_exact_id tasks container_id;
           container_remains = listing_contains_exact_id containers container_id;
           shim_remains = co_path_exists co (task_shim_dir cd container_id) (snd e)
       in if task_remains \<or> container_remains \<or> shim_remains then
            ret (Inl (ContainerStop (container_id @ '' cleanup remains unverified: task_remains='' @ show_bool task_remains
              @ '' container_remains='' @ show_bool container_remains @ '' shim_remains='' @ show_bool shim_remains
              @ ''; kill='' @ or_ok (err_of kill) @ ''; task_delete='' @ or_ok (err_of task_delete)
              @ ''; container_delete='' @ or_ok (err_of container_delete) @ ''; shim_remove='' @ or_ok shim_remove_error))) e
          else ret (Inr ()) e))))))"

definition cleanup_task_state :: "'w ctr_os \<Rightarrow> containerd_runtime \<Rightarrow> string \<Rightarrow> (runtime_error + unit, 'w) ctr_call" where
  "cleanup_task_state co cd container_id =
     bind_call (now co) (\<lambda>t. cleanup_task_state_until co cd container_id (t + CTR_TIMEOUT_SECS * 5 * SECOND))"

definition in_family :: "string \<Rightarrow> string \<Rightarrow> bool" where
  "in_family family i = (i = family \<or> prefix (family @ ''-'') i)"

fun family_ids :: "string list \<Rightarrow> string \<Rightarrow> nat \<Rightarrow> string list \<Rightarrow> string list" where
  "family_ids [] family max_ids ids = ids"
| "family_ids (line # rest) family max_ids ids =
     (if max_ids \<le> length ids then ids
      else case split_whitespace line of
          [] \<Rightarrow> family_ids rest family max_ids ids
        | i # _ \<Rightarrow> family_ids rest family max_ids (if in_family family i then ids @ [i] else ids))"

definition ids_with_prefix :: "string \<Rightarrow> string \<Rightarrow> nat \<Rightarrow> string list" where
  "ids_with_prefix listing family max_ids = family_ids (drop 1 (lines listing)) family max_ids []"

section \<open>Adoption and cleanup of a pod's containers\<close>

definition task_adoptable :: "pod_status \<Rightarrow> bool" where
  "task_adoptable status = (status = StatusRunning \<or> status = StatusCreated)"

definition adoptable_container_id_from_listings :: "u64 \<Rightarrow> string \<Rightarrow> string \<Rightarrow> runtime_error + string option" where
  "adoptable_container_id_from_listings pod_id task_listing container_listing =
     (let family = container_id_prefix pod_id;
          task_ids = ids_with_prefix task_listing family (64 + 1);
          container_ids = ids_with_prefix container_listing family (64 + 1)
      in if 64 < length task_ids \<or> 64 < length container_ids then
           Inl (ContainerCreate (family @ '' runtime family exceeds '' @ dec 64 @ '' entries''))
         else
           let adoptable = filter (\<lambda>i. i \<in> set container_ids
                 \<and> (case task_status_from_listing task_listing i of None \<Rightarrow> False | Some status \<Rightarrow> task_adoptable status)) task_ids
           in case adoptable of
                [] \<Rightarrow> Inr None
              | [candidate] \<Rightarrow> Inr (Some candidate)
              | _ \<Rightarrow> Inl (ContainerCreate (family @ '' has multiple adoptable owned tasks'')))"

definition inventory :: "'w ctr_os \<Rightarrow> containerd_runtime \<Rightarrow> string \<Rightarrow> (runtime_error + string \<times> string, 'w) ctr_call" where
  "inventory co cd family =
     try_call (err_call (\<lambda>error. ContainerCreate (family @ '' task inventory failed: '' @ error)) (run_ctr co cd [''tasks'', ''list'']))
       (\<lambda>tasks.
     try_call (err_call (\<lambda>error. ContainerCreate (family @ '' container inventory failed: '' @ error)) (run_ctr co cd [''containers'', ''list'']))
       (\<lambda>containers. ret (Inr (tasks, containers))))"

definition find_adoptable_container ::
    "'w ctr_os \<Rightarrow> containerd_runtime \<Rightarrow> pod_spec \<Rightarrow> (runtime_error + string option, 'w) ctr_call" where
  "find_adoptable_container co cd spec =
     try_call (inventory co cd (container_id_prefix (ps_pod_id spec))) (\<lambda>(tasks, containers).
     try_call (ret (adoptable_container_id_from_listings (ps_pod_id spec) tasks containers)) (\<lambda>candidate.
       case candidate of
         None \<Rightarrow> ret (Inr None)
       | Some container_id \<Rightarrow>
           try_call (err_call (\<lambda>error. ContainerCreate (container_id @ '' workload identity inspection failed: '' @ error))
                      (run_ctr co cd [''containers'', ''info'', container_id])) (\<lambda>info.
           try_call (ret (workload_identity_from_container_info co info)) (\<lambda>actual_identity.
             if actual_identity \<noteq> workload_identity co cd spec then
               ret (Inl (ContainerCreate (container_id @ '' workload identity mismatch; refusing stale task adoption'')))
             else ret (Inr (Some container_id))))))"

text \<open>The identifiers to clean up: those of the tasks, then the containers without a task.\<close>

fun merge_ids :: "string list \<Rightarrow> string list \<Rightarrow> string list option" where
  "merge_ids ids [] = Some ids"
| "merge_ids ids (i # rest) =
     (if i \<in> set ids then merge_ids ids rest
      else if 64 \<le> length ids then None
      else merge_ids (ids @ [i]) rest)"

fun cleanup_all :: "'w ctr_os \<Rightarrow> containerd_runtime \<Rightarrow> string list \<Rightarrow> (runtime_error + unit, 'w) ctr_call" where
  "cleanup_all co cd [] = ret (Inr ())"
| "cleanup_all co cd (i # rest) = try_call (cleanup_task_state co cd i) (\<lambda>_. cleanup_all co cd rest)"

definition cleanup_container_family :: "'w ctr_os \<Rightarrow> containerd_runtime \<Rightarrow> u64 \<Rightarrow> (runtime_error + unit, 'w) ctr_call" where
  "cleanup_container_family co cd pod_id =
     (let family = container_id_prefix pod_id;
          too_many = ret (Inl (ContainerCreate (family @ '' stale runtime family exceeds '' @ dec 64 @ '' entries'')))
      in try_call (inventory co cd family) (\<lambda>(tasks, containers).
           let ids = ids_with_prefix tasks family (64 + 1);
               container_ids = ids_with_prefix containers family (64 + 1)
           in if 64 < length ids \<or> 64 < length container_ids then too_many
              else case merge_ids ids container_ids of None \<Rightarrow> too_many | Some all_ids \<Rightarrow> cleanup_all co cd all_ids))"

definition task_already_exists_error :: "string \<Rightarrow> bool" where
  "task_already_exists_error error = contains ''already exists'' error"

section \<open>The network namespace of a task\<close>

text \<open>The message of a failed \<open>parse\<close> of an \<open>i32\<close>, in the order the digits are read.\<close>

fun digits_error :: "nat \<Rightarrow> nat \<Rightarrow> string \<Rightarrow> string \<Rightarrow> string" where
  "digits_error bound acc overflow [] = []"
| "digits_error bound acc overflow (c # cs) =
     (case to_digit 10 c of
        None \<Rightarrow> ''invalid digit found in string''
      | Some d \<Rightarrow> if bound < 10 * acc + d then overflow else digits_error bound (10 * acc + d) overflow cs)"

definition parse_i32_error :: "string \<Rightarrow> string" where
  "parse_i32_error s =
     (if s = [] then ''cannot parse integer from empty string''
      else if s = ''+'' \<or> s = ''-'' then ''invalid digit found in string''
      else if hd s = CHR ''-'' then digits_error (2 ^ 31) 0 ''number too small to fit in target type'' (tl s)
      else digits_error (2 ^ 31 - 1) 0 ''number too large to fit in target type'' (strip_plus s))"

fun pid_in_lines :: "string list \<Rightarrow> string \<Rightarrow> runtime_error + int" where
  "pid_in_lines [] container_id = Inl (ContainerNotFound container_id)"
| "pid_in_lines (line # rest) container_id =
     (let cols = split_whitespace line in
      if 2 \<le> length cols \<and> cols ! 0 = container_id then
        (case parse_i32 (cols ! 1) of
           Some pid \<Rightarrow> Inr pid
         | None \<Rightarrow> Inl (Internal (''parse pid for '' @ container_id @ '': '' @ parse_i32_error (cols ! 1))))
      else pid_in_lines rest container_id)"

definition task_pid :: "'w ctr_os \<Rightarrow> containerd_runtime \<Rightarrow> string \<Rightarrow> (runtime_error + int, 'w) ctr_call" where
  "task_pid co cd container_id =
     try_call (err_call (\<lambda>e. ContainerNotFound (container_id @ '': '' @ e)) (run_ctr co cd [''tasks'', ''list''])) (\<lambda>output.
       ret (pid_in_lines (drop 1 (lines output)) container_id))"

text \<open>The body of the thread that enters the namespace, and the result once it was left again.\<close>

definition merge_results :: "runtime_error + 'a \<Rightarrow> runtime_error + unit \<Rightarrow> runtime_error + 'a" where
  "merge_results run_result restore_result =
     (case (run_result, restore_result) of
        (Inr val, Inr _) \<Rightarrow> Inr val
      | (Inl err, Inr _) \<Rightarrow> Inl err
      | (Inr _, Inl err) \<Rightarrow> Inl err
      | (Inl run_err, Inl restore_err) \<Rightarrow>
          Inl (Internal (show_runtime_error run_err @ ''; '' @ show_runtime_error restore_err)))"

definition in_task_netns :: "'w ctr_os \<Rightarrow> int \<Rightarrow> (runtime_error + 'a, 'w) ctr_call \<Rightarrow> (runtime_error + 'a, 'w) ctr_call" where
  "in_task_netns co pid f =
     try_call (err_call (\<lambda>e. Internal (''open current netns: '' @ e)) (on_world (co_open_netns co ''/proc/self/ns/net'')))
       (\<lambda>current_ns.
     try_call (err_call (\<lambda>e. Internal (''open task netns for pid '' @ dec_signed pid @ '': '' @ e))
                 (on_world (co_open_netns co (''/proc/'' @ dec_signed pid @ ''/ns/net'')))) (\<lambda>target_ns.
     try_call (err_call (\<lambda>e. Internal (''setns enter pid '' @ dec_signed pid @ '': '' @ e)) (on_world (co_setns co target_ns))) (\<lambda>_.
     bind_call f (\<lambda>run_result.
     bind_call (err_call (\<lambda>e. Internal (''setns restore: '' @ e)) (on_world (co_setns co current_ns))) (\<lambda>restore_result.
       ret (merge_results run_result restore_result))))))"

definition with_task_netns :: "'w ctr_os \<Rightarrow> int \<Rightarrow> (runtime_error + 'a, 'w) ctr_call \<Rightarrow> (runtime_error + 'a, 'w) ctr_call" where
  "with_task_netns co pid f e =
     (case in_task_netns co pid f e of
        Inl _ \<Rightarrow> Inl ''network namespace worker panicked''
      | Inr r \<Rightarrow> Inr r)"

section \<open>The runtime operations\<close>

definition pull_with_hosts ::
    "'w ctr_os \<Rightarrow> containerd_runtime \<Rightarrow> string \<Rightarrow> string option \<Rightarrow> string list \<Rightarrow> (runtime_error + unit, 'w) ctr_call" where
  "pull_with_hosts co cd img hosts_dir redactions =
     bind_call (run_ctr_duration co cd (pull_image_args cd img hosts_dir None) (300 * SECOND) redactions) (\<lambda>r. case r of
       Inr _ \<Rightarrow> ret (Inr ())
     | Inl e \<Rightarrow>
         if contains ''no unpack platforms defined'' e then
           bind_call (run_ctr_duration co cd (pull_image_args cd img hosts_dir (Some (default_platform (co_arch co))))
                        (300 * SECOND) redactions) (\<lambda>r2. case r2 of
             Inr _ \<Rightarrow> ret (Inr ())
           | Inl retry_err \<Rightarrow>
               bind_call (image_present co cd img) (\<lambda>present.
                 ret (if present = Inr True then Inr () else Inl (ImagePull (img @ '': '' @ retry_err)))))
         else ret (Inl (ImagePull (img @ '': '' @ e))))"

text \<open>Whatever the pull returns, the registry configuration is dropped at its end.\<close>

definition ctr_pull_image ::
    "'w ctr_os \<Rightarrow> containerd_runtime \<Rightarrow> string \<Rightarrow> image_pull_auth option \<Rightarrow> (runtime_error + unit, 'w) ctr_call" where
  "ctr_pull_image co cd img auth =
     try_call (err_call (\<lambda>e. ImagePull (img @ '': '' @ e)) (image_present co cd img)) (\<lambda>present.
       if present then ret (Inr ())
       else try_call (case auth of None \<Rightarrow> ret (Inr None)
                      | Some a \<Rightarrow> try_call (prepare_registry_hosts co a) (\<lambda>h. ret (Inr (Some h)))) (\<lambda>hosts.
            bind_call (if (case hosts of None \<Rightarrow> False | Some h \<Rightarrow> \<not> utf8_valid (as_bytes (rh_root h))) then
                         ret (Inl (ImagePull ''registry hosts path is not UTF-8''))
                       else pull_with_hosts co cd img (map_option rh_root hosts)
                              (case hosts of None \<Rightarrow> [] | Some h \<Rightarrow> rh_redactions h)) (\<lambda>result.
            bind_call (drop_registry_hosts co hosts) (\<lambda>_. ret result))))"

definition create_args :: "'w ctr_os \<Rightarrow> containerd_runtime \<Rightarrow> pod_spec \<Rightarrow> string \<Rightarrow> string list" where
  "create_args co cd spec container_id =
     (let env = gpu_env spec @ map (\<lambda>(name, val). name @ ''='' @ val) (ps_env_vars spec)
            @ (if ps_port spec > 0 then [''PORT='' @ dec (unat (ps_port spec))] else [])
      in [''containers'', ''create'', ''--runtime'', cd_runtime_name cd, ''--snapshotter'', cd_snapshotter cd]
         @ gpu_device_args spec
         @ [''--label'', WORKLOAD_IDENTITY_LABEL @ ''='' @ workload_identity co cd spec]
         @ concat (map (\<lambda>v. [''--env'', v]) env)
         @ concat (map (\<lambda>m. [''--mount'', ''type=bind,src='' @ bm_host_path m @ '',dst='' @ bm_container_path m
                               @ '',options=rbind:rw'']) (ps_mounts spec))
         @ [ps_image spec, container_id] @ split_whitespace (ps_entrypoint spec))"

definition apply_cgroup_limits :: "'w ctr_os \<Rightarrow> pod_spec \<Rightarrow> string \<Rightarrow> (unit, 'w) ctr_call" where
  "apply_cgroup_limits co spec container_id e =
     (let cgroup_base = ''/sys/fs/cgroup/system.slice/containerd-'' @ container_id @ ''.scope'';
          w1 = (if ps_cpu_millicores spec > 0 then
                  co_write_file co (cgroup_base @ ''/cpu.max'') (dec (unat (ps_cpu_millicores spec) * 100) @ '' 100000'') (snd e)
                else snd e);
          w2 = (if ps_memory_megabytes spec > 0 then
                  co_write_file co (cgroup_base @ ''/memory.max'') (dec (unat (ps_memory_megabytes spec) * 1024 * 1024)) w1
                else w1)
      in Inr ((), (fst e, w2)))"

text \<open>The part of a creation after no container was found to adopt.\<close>

definition create_container :: "'w ctr_os \<Rightarrow> containerd_runtime \<Rightarrow> pod_spec \<Rightarrow> (runtime_error + pod_handle, 'w) ctr_call" where
  "create_container co cd spec =
     try_call (cleanup_container_family co cd (ps_pod_id spec)) (\<lambda>_.
     bind_call (next_container_id (ps_pod_id spec)) (\<lambda>container_id.
     try_call (err_call (\<lambda>e. ContainerCreate (container_id @ '': '' @ e)) (run_ctr co cd (create_args co cd spec container_id))) (\<lambda>_.
     bind_call (apply_cgroup_limits co spec container_id) (\<lambda>_.
       ret (Inr \<lparr>ph_pod_id = ps_pod_id spec, ph_container_id = container_id\<rparr>)))))"

definition ctr_create_pod :: "'w ctr_os \<Rightarrow> containerd_runtime \<Rightarrow> pod_spec \<Rightarrow> (runtime_error + pod_handle, 'w) ctr_call" where
  "ctr_create_pod co cd spec =
     (if ps_gpu_count spec > 0 then
        ret (Inl (ContainerCreate ''GPU workload rejected: physical device reservation is not implemented''))
      else try_call (find_adoptable_container co cd spec) (\<lambda>adopted. case adopted of
          Some container_id \<Rightarrow> ret (Inr \<lparr>ph_pod_id = ps_pod_id spec, ph_container_id = container_id\<rparr>)
        | None \<Rightarrow> create_container co cd spec))"

definition ctr_start_pod :: "'w ctr_os \<Rightarrow> containerd_runtime \<Rightarrow> pod_handle \<Rightarrow> (runtime_error + unit, 'w) ctr_call" where
  "ctr_start_pod co cd handle =
     bind_call (run_ctr co cd [''tasks'', ''start'', ''--detach'', ph_container_id handle]) (\<lambda>r. case r of
       Inr _ \<Rightarrow> ret (Inr ())
     | Inl error \<Rightarrow>
         if task_already_exists_error error then
           try_call (task_status_by_id co cd (ph_container_id handle)) (\<lambda>status.
             if status = Some StatusRunning then ret (Inr ())
             else ret (Inl (ContainerStart (ph_container_id handle @ '': '' @ error @ ''; existing task is not proven running''))))
         else ret (Inl (ContainerStart (ph_container_id handle @ '': '' @ error))))"

definition lift_process :: "('a, 'w) call \<Rightarrow> ('a, 'w) ctr_call" where
  "lift_process c e = and_then (c (snd e)) (\<lambda>(x, w). Inr (x, (fst e, w)))"

definition ctr_forward_run ::
    "'w ctr_os \<Rightarrow> containerd_runtime \<Rightarrow> pod_handle \<Rightarrow> u16 \<Rightarrow> u8 list \<Rightarrow> (runtime_error + u8 list, 'w) ctr_call" where
  "ctr_forward_run co cd handle port payload =
     try_call (task_pid co cd (ph_container_id handle)) (\<lambda>pid.
       err_call (\<lambda>e. case e of
           ResponseTooLarge _ \<Rightarrow> e
         | other \<Rightarrow> Internal (''forward run '' @ ph_container_id handle @ '': '' @ show_runtime_error other))
         (with_task_netns co pid (lift_process (forward_run (co_process co) port payload))))"

definition ctr_probe_pod ::
    "'w ctr_os \<Rightarrow> containerd_runtime \<Rightarrow> pod_handle \<Rightarrow> u16 \<Rightarrow> string \<Rightarrow> (runtime_error + bool, 'w) ctr_call" where
  "ctr_probe_pod co cd handle port path =
     try_call (task_pid co cd (ph_container_id handle)) (\<lambda>pid.
       err_call (\<lambda>error. Internal (''probe pod '' @ ph_container_id handle @ '': '' @ show_runtime_error error))
         (with_task_netns co pid (err_call Internal (on_world (probe_http (co_process co) port path)))))"

definition ctr_pod_status :: "'w ctr_os \<Rightarrow> containerd_runtime \<Rightarrow> pod_handle \<Rightarrow> (runtime_error + pod_status, 'w) ctr_call" where
  "ctr_pod_status co cd handle =
     try_call (err_call (\<lambda>e. ContainerNotFound (ph_container_id handle @ '': '' @ e)) (run_ctr co cd [''tasks'', ''list''])) (\<lambda>output.
       ret (expect (task_status_from_listing output (ph_container_id handle)) (ContainerNotFound (ph_container_id handle))))"

definition ctr_pod_status_until ::
    "'w ctr_os \<Rightarrow> containerd_runtime \<Rightarrow> pod_handle \<Rightarrow> instant \<Rightarrow> (runtime_error + pod_status, 'w) ctr_call" where
  "ctr_pod_status_until co cd handle deadline =
     try_call (err_call (\<lambda>e. ContainerNotFound (ph_container_id handle @ '': '' @ e))
                 (run_ctr_until co cd [''tasks'', ''list''] deadline)) (\<lambda>output.
       ret (expect (task_status_from_listing output (ph_container_id handle)) (ContainerNotFound (ph_container_id handle))))"

definition is_stopped :: "runtime_error + pod_status \<Rightarrow> bool" where
  "is_stopped r = (case r of Inr (StatusStopped _) \<Rightarrow> True | _ \<Rightarrow> False)"

text \<open>The loop of the grace period: whether the task was seen stopped in it.\<close>

partial_function (option) grace_wait ::
    "'w ctr_os \<Rightarrow> containerd_runtime \<Rightarrow> pod_handle \<Rightarrow> instant \<Rightarrow> instant \<Rightarrow> ctr_counters \<times> 'w \<Rightarrow> (bool \<times> (ctr_counters \<times> 'w)) res option" where
  "grace_wait co cd handle deadline grace_deadline e =
     (case ctr_pod_status_until co cd handle deadline e of
        Inl m \<Rightarrow> Some (Inl m)
      | Inr (r, e1) \<Rightarrow>
          if is_stopped r then Some (Inr (True, e1))
          else (case po_now (co_process co) (snd e1) of (t, w2) \<Rightarrow>
                  if grace_deadline \<le> t then Some (Inr (False, (fst e1, w2)))
                  else grace_wait co cd handle deadline grace_deadline
                         (fst e1, po_sleep (co_process co) (min (grace_deadline - t) (100 * 10 ^ 6)) w2)))"

definition show_pod_status :: "pod_status \<Rightarrow> string" where
  "show_pod_status status =
     (case status of StatusCreated \<Rightarrow> ''Created'' | StatusRunning \<Rightarrow> ''Running'' | StatusUnknown \<Rightarrow> ''Unknown''
      | StatusStopped c \<Rightarrow> ''Stopped { exit_code: '' @ dec_signed (sint c) @ '' }'')"

definition ctr_kill_and_verify ::
    "'w ctr_os \<Rightarrow> containerd_runtime \<Rightarrow> pod_handle \<Rightarrow> instant \<Rightarrow> string option \<Rightarrow> (runtime_error + unit, 'w) ctr_call" where
  "ctr_kill_and_verify co cd handle deadline terminate_error =
     bind_call (run_ctr_until co cd [''tasks'', ''kill'', ''--signal'', ''9'', ph_container_id handle] deadline) (\<lambda>kill.
     bind_call (ctr_pod_status_until co cd handle deadline) (\<lambda>status.
       let errors = ''; TERM='' @ or_ok terminate_error @ ''; KILL='' @ or_ok (err_of kill)
       in ret (if is_stopped status then Inr ()
               else case status of
                   Inr st \<Rightarrow> Inl (ContainerStop (ph_container_id handle @ '' remains '' @ show_pod_status st
                                @ '' after TERM/KILL'' @ errors))
                 | Inl status_error \<Rightarrow> Inl (ContainerStop (ph_container_id handle
                                @ '' terminal status unverified after TERM/KILL: '' @ show_runtime_error status_error @ errors)))))"

definition ctr_stop_pod_until ::
    "'w ctr_os \<Rightarrow> containerd_runtime \<Rightarrow> pod_handle \<Rightarrow> u64 \<Rightarrow> instant \<Rightarrow> (runtime_error + unit, 'w) ctr_call" where
  "ctr_stop_pod_until co cd handle grace_period_ms deadline =
     bind_call (run_ctr_until co cd [''tasks'', ''kill'', ''--signal'', ''15'', ph_container_id handle] deadline) (\<lambda>terminate.
     bind_call (now co) (\<lambda>t.
     bind_call (\<lambda>e. case grace_wait co cd handle deadline
                          (min (t + unat (min grace_period_ms MAX_STOP_GRACE_MS) * 10 ^ 6) deadline) e of
                      None \<Rightarrow> Inl STOP_DIVERGES | Some r \<Rightarrow> r) (\<lambda>stopped.
       if stopped then ret (Inr ()) else ctr_kill_and_verify co cd handle deadline (err_of terminate))))"

definition ctr_stop_pod :: "'w ctr_os \<Rightarrow> containerd_runtime \<Rightarrow> pod_handle \<Rightarrow> u64 \<Rightarrow> (runtime_error + unit, 'w) ctr_call" where
  "ctr_stop_pod co cd handle grace_period_ms =
     bind_call (now co) (\<lambda>t. ctr_stop_pod_until co cd handle grace_period_ms
       (t + unat (min grace_period_ms MAX_STOP_GRACE_MS) * 10 ^ 6 + CTR_TIMEOUT_SECS * 4 * SECOND))"

definition containerd_pod_runtime :: "'w ctr_os \<Rightarrow> containerd_runtime \<Rightarrow> (ctr_counters \<times> 'w) runtime" where
  "containerd_pod_runtime co cd =
     \<lparr>rt_pull_image = ctr_pull_image co cd, rt_create_pod = ctr_create_pod co cd, rt_start_pod = ctr_start_pod co cd,
      rt_forward_run = ctr_forward_run co cd, rt_probe_pod = ctr_probe_pod co cd, rt_stop_pod = ctr_stop_pod co cd,
      rt_pod_status = ctr_pod_status co cd, rt_remove_pod = (\<lambda>h. cleanup_task_state co cd (ph_container_id h)),
      rt_stop_pod_until = ctr_stop_pod_until co cd, rt_pod_status_until = ctr_pod_status_until co cd,
      rt_remove_pod_until = (\<lambda>h. cleanup_task_state_until co cd (ph_container_id h))\<rparr>"

section \<open>What a result tells\<close>

lemma try_call_ok: "try_call c f e = Inr (Inr y, e') \<longleftrightarrow> (\<exists>x e1. c e = Inr (Inr x, e1) \<and> f x e1 = Inr (Inr y, e'))"
proof -
  have "(case r of Inl x \<Rightarrow> ret (Inl x) | Inr a \<Rightarrow> f a) e1 = Inr (Inr y, e') \<longleftrightarrow> (\<exists>x. r = Inr x \<and> f x e1 = Inr (Inr y, e'))" for r e1
    by (cases r) (auto simp: ret_def)
  then show ?thesis unfolding try_call_def bind_call_Inr by metis
qed

lemma try_ret_ok: "try_call (ret r) f e = Inr (Inr y, e') \<longleftrightarrow> (\<exists>x. r = Inr x \<and> f x e = Inr (Inr y, e'))"
  by (auto simp: try_call_ok)

lemma err_call_ok: "err_call f c e = Inr (Inr y, e') \<longleftrightarrow> c e = Inr (Inr y, e')"
  by (auto simp: err_call_def bind_call_Inr map_err_Inr) (metis map_err_Inr)

text \<open>Both listings were read without the container, and its directory is gone.\<close>

definition verified_absent :: "'w ctr_os \<Rightarrow> containerd_runtime \<Rightarrow> string \<Rightarrow> ctr_counters \<times> 'w \<Rightarrow> bool" where
  "verified_absent co cd i e' =
     (\<exists>deadline tasks containers e1 e2.
        run_ctr_until co cd [''tasks'', ''list''] deadline e1 = Inr (Inr tasks, e2)
        \<and> run_ctr_until co cd [''containers'', ''list''] deadline e2 = Inr (Inr containers, e')
        \<and> i \<notin> set (first_columns tasks) \<and> i \<notin> set (first_columns containers)
        \<and> \<not> co_path_exists co (task_shim_dir cd i) (snd e'))"

lemma cleanup_until_verified:
  assumes "cleanup_task_state_until co cd i deadline e = Inr (Inr (), e')"
  shows "verified_absent co cd i e'"
  using assms unfolding cleanup_task_state_until_def verified_absent_def
  by (auto simp: bind_call_Inr try_call_ok err_call_ok listing_contains_exact_id_def list_ex_iff Let_def split: if_splits) blast

lemma cleanup_verified: "cleanup_task_state co cd i e = Inr (Inr (), e') \<Longrightarrow> verified_absent co cd i e'"
  unfolding cleanup_task_state_def bind_call_Inr using cleanup_until_verified by blast

lemma cleanup_all_verified:
  "cleanup_all co cd ids e = Inr (Inr (), e') \<Longrightarrow> \<forall>i \<in> set ids. \<exists>e1. verified_absent co cd i e1"
proof (induction ids arbitrary: e)
  case (Cons i ids)
  then obtain e1 where c: "cleanup_task_state co cd i e = Inr (Inr (), e1)" "cleanup_all co cd ids e1 = Inr (Inr (), e')"
    by (auto simp: try_call_ok)
  show ?case using Cons.IH [OF c(2)] cleanup_verified [OF c(1)] by (metis set_ConsD)
qed simp

lemma merge_ids_set: "merge_ids ids more_ids = Some all_ids \<Longrightarrow> set all_ids = set ids \<union> set more_ids"
  by (induction ids more_ids rule: merge_ids.induct) (auto split: if_splits)

text \<open>A family that was not cut off is the whole family of the listing.\<close>

lemma family_ids_all:
  "length (family_ids ls family n ids) < n
   \<Longrightarrow> family_ids ls family n ids = ids @ filter (in_family family)
         (List.map_filter (\<lambda>line. case split_whitespace line of [] \<Rightarrow> None | c # _ \<Rightarrow> Some c) ls)"
  by (induction ls family n ids rule: family_ids.induct)
     (auto simp: map_filter_simps split: if_splits list.splits)

lemma ids_with_prefix_all:
  "length (ids_with_prefix listing family n) < n
   \<Longrightarrow> ids_with_prefix listing family n = filter (in_family family) (first_columns listing)"
  unfolding ids_with_prefix_def first_columns_def using family_ids_all [of _ family n "[]"] by simp

lemma cleanup_family_verified:
  assumes "cleanup_container_family co cd pod_id e = Inr (Inr (), e')"
  shows "\<exists>tasks containers e1. inventory co cd (container_id_prefix pod_id) e = Inr (Inr (tasks, containers), e1)
    \<and> (\<forall>i \<in> set (first_columns tasks) \<union> set (first_columns containers).
         in_family (container_id_prefix pod_id) i \<longrightarrow> (\<exists>e2. verified_absent co cd i e2))"
proof -
  let ?f = "container_id_prefix pod_id"
  from assms obtain lists e1 where 1: "inventory co cd ?f e = Inr (Inr lists, e1)"
    and 2: "(case lists of (tasks, containers) \<Rightarrow>
        let ids = ids_with_prefix tasks ?f (64 + 1); container_ids = ids_with_prefix containers ?f (64 + 1)
        in if 64 < length ids \<or> 64 < length container_ids then
             ret (Inl (ContainerCreate (?f @ '' stale runtime family exceeds '' @ dec 64 @ '' entries'')))
           else case merge_ids ids container_ids of
               None \<Rightarrow> ret (Inl (ContainerCreate (?f @ '' stale runtime family exceeds '' @ dec 64 @ '' entries'')))
             | Some all_ids \<Rightarrow> cleanup_all co cd all_ids) e1 = Inr (Inr (), e')"
    unfolding cleanup_container_family_def Let_def [of "container_id_prefix _"] Let_def [of "ret _"] try_call_ok by blast
  obtain tasks containers where lists: "lists = (tasks, containers)" by (cases lists)
  have inv: "inventory co cd ?f e = Inr (Inr (tasks, containers), e1)" using 1 lists by simp
  from 2 have few: "\<not> 64 < length (ids_with_prefix tasks ?f 65)" "\<not> 64 < length (ids_with_prefix containers ?f 65)"
    unfolding lists Let_def by (auto split: if_splits)
  with 2 obtain all_ids where all: "merge_ids (ids_with_prefix tasks ?f 65) (ids_with_prefix containers ?f 65) = Some all_ids"
    "cleanup_all co cd all_ids e1 = Inr (Inr (), e')"
    unfolding lists Let_def by (auto split: option.splits)
  have "set all_ids = set (filter (in_family ?f) (first_columns tasks)) \<union> set (filter (in_family ?f) (first_columns containers))"
    using merge_ids_set [OF all(1)] few ids_with_prefix_all [of tasks ?f 65] ids_with_prefix_all [of containers ?f 65]
    by simp
  then have "i \<in> set all_ids" if "i \<in> set (first_columns tasks) \<union> set (first_columns containers)" "in_family ?f i" for i
    using that by auto
  then have "\<exists>e2. verified_absent co cd i e2" if "i \<in> set (first_columns tasks) \<union> set (first_columns containers)" "in_family ?f i" for i
    using that bspec [OF cleanup_all_verified [OF all(2)]] by metis
  with inv show ?thesis by blast
qed

lemma family_ids_members: "i \<in> set (family_ids ls family n ids) \<Longrightarrow> i \<in> set ids \<or> in_family family i"
  by (induction ls family n ids rule: family_ids.induct) (auto split: if_splits list.splits)

lemma adoptable_member:
  assumes "adoptable_container_id_from_listings pod_id tasks containers = Inr (Some i)"
  shows "in_family (container_id_prefix pod_id) i \<and> task_status_from_listing tasks i \<in> {Some StatusRunning, Some StatusCreated}"
proof -
  let ?ids = "ids_with_prefix tasks (container_id_prefix pod_id) (64 + 1)"
  from assms have "i \<in> set ?ids \<and> (case task_status_from_listing tasks i of None \<Rightarrow> False | Some status \<Rightarrow> task_adoptable status)"
    unfolding adoptable_container_id_from_listings_def Let_def
    by (auto split: if_splits list.splits dest!: arg_cong [where f = set])
  then show ?thesis
    by (auto simp: ids_with_prefix_def task_adoptable_def split: option.splits dest: family_ids_members)
qed

text \<open>An adopted container is live, of the pod, and carries the identity of the specification.\<close>

definition adopted :: "'w ctr_os \<Rightarrow> containerd_runtime \<Rightarrow> pod_spec \<Rightarrow> string \<Rightarrow> bool" where
  "adopted co cd spec i =
     ((\<exists>tasks. task_status_from_listing tasks i \<in> {Some StatusRunning, Some StatusCreated})
      \<and> (\<exists>info identity e1 e2. run_ctr co cd [''containers'', ''info'', i] e1 = Inr (Inr info, e2)
           \<and> co_label co info = Inr (Some identity) \<and> to_ascii_lowercase identity = workload_identity co cd spec))"

lemma find_adoptable_ok:
  assumes "find_adoptable_container co cd spec e = Inr (Inr (Some i), e')"
  shows "in_family (container_id_prefix (ps_pod_id spec)) i \<and> adopted co cd spec i"
proof -
  from assms obtain lists e1 where 2: "(case lists of (tasks, containers) \<Rightarrow>
      try_call (ret (adoptable_container_id_from_listings (ps_pod_id spec) tasks containers)) (\<lambda>candidate. case candidate of
         None \<Rightarrow> ret (Inr None)
       | Some container_id \<Rightarrow>
           try_call (err_call (\<lambda>error. ContainerCreate (container_id @ '' workload identity inspection failed: '' @ error))
                      (run_ctr co cd [''containers'', ''info'', container_id])) (\<lambda>info.
           try_call (ret (workload_identity_from_container_info co info)) (\<lambda>actual_identity.
             if actual_identity \<noteq> workload_identity co cd spec then
               ret (Inl (ContainerCreate (container_id @ '' workload identity mismatch; refusing stale task adoption'')))
             else ret (Inr (Some container_id)))))) e1 = Inr (Inr (Some i), e')"
    unfolding find_adoptable_container_def try_call_ok [of "inventory _ _ _"] by blast
  obtain tasks containers where lists: "lists = (tasks, containers)" by (cases lists)
  from 2 obtain candidate where cand: "adoptable_container_id_from_listings (ps_pod_id spec) tasks containers = Inr candidate"
    and 3: "(case candidate of
         None \<Rightarrow> ret (Inr None)
       | Some container_id \<Rightarrow>
           try_call (err_call (\<lambda>error. ContainerCreate (container_id @ '' workload identity inspection failed: '' @ error))
                      (run_ctr co cd [''containers'', ''info'', container_id])) (\<lambda>info.
           try_call (ret (workload_identity_from_container_info co info)) (\<lambda>actual_identity.
             if actual_identity \<noteq> workload_identity co cd spec then
               ret (Inl (ContainerCreate (container_id @ '' workload identity mismatch; refusing stale task adoption'')))
             else ret (Inr (Some container_id))))) e1 = Inr (Inr (Some i), e')"
    unfolding lists prod.case try_ret_ok [of "adoptable_container_id_from_listings _ _ _"] by blast
  from 3 obtain c where c: "candidate = Some c" by (cases candidate) auto
  from 3 obtain info e3 identity where info: "run_ctr co cd [''containers'', ''info'', c] e1 = Inr (Inr info, e3)"
    and identity: "workload_identity_from_container_info co info = Inr identity"
    and 4: "(if identity \<noteq> workload_identity co cd spec then
               ret (Inl (ContainerCreate (c @ '' workload identity mismatch; refusing stale task adoption'')))
             else ret (Inr (Some c))) e3 = Inr (Inr (Some i), e')"
    unfolding c option.case try_call_ok err_call_ok ret_Inr [of "workload_identity_from_container_info _ _"] by metis
  from 4 have i: "identity = workload_identity co cd spec" "i = c" by (auto split: if_splits)
  from identity obtain raw where "co_label co info = Inr (Some raw)" "to_ascii_lowercase raw = identity"
    by (auto simp: workload_identity_from_container_info_def split: sum.splits option.splits if_splits)
  then show ?thesis
    using adoptable_member [OF cand [unfolded c]] info i unfolding adopted_def by metis
qed

lemma create_container_ok:
  assumes "create_container co cd spec e = Inr (Inr h, e')"
  shows "\<exists>n tasks containers e1. ph_pod_id h = ps_pod_id spec
    \<and> ph_container_id h = (container_id_prefix (ps_pod_id spec) @ ''-'') @ dec n
    \<and> inventory co cd (container_id_prefix (ps_pod_id spec)) e = Inr (Inr (tasks, containers), e1)
    \<and> (\<forall>i \<in> set (first_columns tasks) \<union> set (first_columns containers).
         in_family (container_id_prefix (ps_pod_id spec)) i \<longrightarrow> (\<exists>e3. verified_absent co cd i e3))"
proof -
  from assms obtain u e2 where c: "cleanup_container_family co cd (ps_pod_id spec) e = Inr (Inr u, e2)"
    and 2: "bind_call (next_container_id (ps_pod_id spec)) (\<lambda>container_id.
     try_call (err_call (\<lambda>e. ContainerCreate (container_id @ '': '' @ e)) (run_ctr co cd (create_args co cd spec container_id))) (\<lambda>_.
     bind_call (apply_cgroup_limits co spec container_id) (\<lambda>_.
       ret (Inr \<lparr>ph_pod_id = ps_pod_id spec, ph_container_id = container_id\<rparr>)))) e2 = Inr (Inr h, e')"
    unfolding create_container_def try_call_ok [of "cleanup_container_family _ _ _"] by blast
  from 2 obtain i e3 where i: "next_container_id (ps_pod_id spec) e2 = Inr (i, e3)" "h = \<lparr>ph_pod_id = ps_pod_id spec, ph_container_id = i\<rparr>"
    unfolding bind_call_Inr try_call_ok ret_Inr by blast
  have "cleanup_container_family co cd (ps_pod_id spec) e = Inr (Inr (), e2)" using c by simp
  from cleanup_family_verified [OF this] i show ?thesis
    by (auto simp: next_container_id_def Let_def simp del: split_paired_Ex)
qed


text \<open>For examples: a \<open>ctr\<close> that succeeds and prints nothing, and files that are never there.\<close>

definition sample_ctr :: "(nat \<times> u8 list \<times> u8 list \<times> u8 list) ctr_os" where
  "sample_ctr =
     \<lparr>co_process = script_os,
      co_command = (\<lambda>argv w. (Inr \<lparr>out_success = True, out_code = Some 0, out_stdout = [], out_stderr = []\<rparr>, w)),
      co_create_dir = (\<lambda>path w. (Inr (), w)), co_set_mode = (\<lambda>path mode w. (Inr (), w)),
      co_create_new = (\<lambda>path mode w. (Inr (), w)), co_write_all = (\<lambda>path text w. (Inr (), w)),
      co_sync_all = (\<lambda>path w. (Inr (), w)), co_remove_dir_all = (\<lambda>path w. (Inl NotFoundError, w)),
      co_path_exists = (\<lambda>path w. False), co_write_file = (\<lambda>path text w. w),
      co_open_netns = (\<lambda>path w. (Inr 3, w)), co_setns = (\<lambda>fd w. (Inr (), w)), co_temp_dir = ''/tmp'',
      co_process_id = 1, co_arch = ''x86_64'', co_sha256 = (\<lambda>bs. replicate 32 0), co_label = (\<lambda>info. Inr None)\<rparr>"

abbreviation sample_spec :: pod_spec where
  "sample_spec \<equiv> \<lparr>ps_pod_id = 7, ps_deployment_id = 1, ps_image = ''i'', ps_entrypoint = [], ps_port = 0, ps_gpu_count = 0,
     ps_gpu_type = GpuNone, ps_cpu_millicores = 0, ps_memory_megabytes = 0, ps_env_vars = [], ps_mounts = []\<rparr>"

abbreviation sample_settings :: containerd_runtime where
  "sample_settings \<equiv> containerd_new None None None None"

abbreviation sample_env :: "ctr_counters \<times> nat \<times> u8 list \<times> u8 list \<times> u8 list" where
  "sample_env \<equiv> (\<lparr>cc_container_sequence = 0, cc_auth_config_sequence = 0\<rparr>, (0, [], [], []))"

lemma from_utf8_lossy_Nil [simp]: "from_utf8_lossy [] = []"
  using from_utf8_lossy_as_bytes [of "[]"] utf8_valid_ascii [of "[]"] by (simp add: as_bytes_def)

lemma sample_run_ctr: "run_ctr sample_ctr cd args e = Inr (Inr [], e)"
  by (simp add: run_ctr_def run_ctr_timeout_def run_ctr_duration_def CTR_TIMEOUT_SECS_def sample_ctr_def err_call_def
        try_call_def bind_call_def on_world_def ret_def Let_def)


section \<open>Families\<close>

lemma dash_not_dec: "CHR ''-'' \<notin> set (dec n)"
  using dec_digits [of "CHR ''-''" n] by auto

lemma in_family_container:
  "in_family (container_id_prefix a) (container_id_prefix b @ ''-'' @ dec n) \<longleftrightarrow> a = b"
proof
  assume "in_family (container_id_prefix a) (container_id_prefix b @ ''-'' @ dec n)"
  then consider "dec (unat a) = dec (unat b) @ ''-'' @ dec n" | "prefix (dec (unat a) @ ''-'') (dec (unat b) @ ''-'' @ dec n)"
    unfolding in_family_def container_id_prefix_def by auto
  then show "a = b"
  proof cases
    case 1
    then show ?thesis using dash_not_dec [of "unat a"] by auto
  next
    case 2
    then obtain zs where "dec (unat b) @ CHR ''-'' # dec n = dec (unat a) @ CHR ''-'' # zs"
      by (auto simp: prefix_def)
    then have "dec (unat a) = dec (unat b)"
      using append_Cons_eq_iff [of "CHR ''-''" "dec (unat b)" "dec n" "dec (unat a)" zs] dash_not_dec
      by (metis append_eq_append_conv2 append_Cons in_set_conv_decomp)
    then show ?thesis by (simp add: word_unat_eq_iff)
  qed
qed (simp add: in_family_def)

section \<open>Identities\<close>

lemma length_be_bytes [simp]: "length (be_bytes k n) = k"
  by (simp add: be_bytes_def)

lemma be_bytes_inject: "m < 256 ^ k \<Longrightarrow> n < 256 ^ k \<Longrightarrow> be_bytes k m = be_bytes k n \<longleftrightarrow> m = n"
  by (metis be_bytes_def le_nat_le_bytes mod_less rev_rev_ident)

lemma be_word_inject:
  "be_bytes 8 (unat (a :: u64)) = be_bytes 8 (unat b) \<longleftrightarrow> a = b"
  "be_bytes 4 (unat (c :: u32)) = be_bytes 4 (unat d) \<longleftrightarrow> c = d"
  "be_bytes 2 (unat (p :: u16)) = be_bytes 2 (unat q) \<longleftrightarrow> p = q"
  using unat_less_pow [of a] unat_less_pow [of b] unat_less_pow [of c] unat_less_pow [of d] unat_less_pow [of p] unat_less_pow [of q]
  by (simp_all add: be_bytes_inject word_unat_eq_iff)

text \<open>A length that fits its eight bytes; no string or list in memory is longer.\<close>

definition fits :: "'a list \<Rightarrow> bool" where
  "fits xs = (length xs < 2 ^ 64)"

lemma sized_inject:
  assumes "fits xs" "fits ys" "sized xs @ us = sized ys @ vs"
  shows "xs = ys \<and> us = vs"
proof -
  have "be_bytes 8 (length xs) = be_bytes 8 (length ys)" "xs @ us = ys @ vs"
    using assms(3) by (simp_all add: sized_def)
  then show ?thesis using assms(1,2) by (simp add: fits_def be_bytes_inject)
qed

lemma fits_as_bytes [simp]: "fits (as_bytes s) = fits s"
  by (simp add: fits_def)

lemma as_bytes_inject [simp]: "as_bytes s = as_bytes t \<longleftrightarrow> s = t"
  by (metis of_bytes_as_bytes)

text \<open>Lists of pairs of sized strings.\<close>

definition sized_pairs :: "(string \<times> string) list \<Rightarrow> u8 list" where
  "sized_pairs ps = concat (map (\<lambda>(a, b). sized (as_bytes a) @ sized (as_bytes b)) ps)"

lemma sized_pairs_inject:
  assumes "length ps = length qs" "\<forall>(a, b) \<in> set ps \<union> set qs. fits a \<and> fits b" "sized_pairs ps @ us = sized_pairs qs @ vs"
  shows "ps = qs \<and> us = vs"
  using assms
proof (induction ps qs rule: list_induct2)
  case (Cons p ps q qs)
  obtain a b c d where pq: "p = (a, b)" "q = (c, d)" by (cases p; cases q)
  have fits: "fits (as_bytes a)" "fits (as_bytes b)" "fits (as_bytes c)" "fits (as_bytes d)" using Cons.prems(1) pq by auto
  have "sized (as_bytes a) @ (sized (as_bytes b) @ sized_pairs ps @ us) = sized (as_bytes c) @ (sized (as_bytes d) @ sized_pairs qs @ vs)"
    using Cons.prems(2) pq by (simp add: sized_pairs_def)
  from sized_inject [OF fits(1,3) this] have "a = c"
    and 1: "sized (as_bytes b) @ (sized_pairs ps @ us) = sized (as_bytes d) @ (sized_pairs qs @ vs)" by auto
  from sized_inject [OF fits(2,4) 1] have "b = d" "sized_pairs ps @ us = sized_pairs qs @ vs" by auto
  with Cons pq \<open>a = c\<close> show ?case by auto
qed (simp add: sized_pairs_def)

definition mount_pairs :: "pod_spec \<Rightarrow> (string \<times> string) list" where
  "mount_pairs spec = map (\<lambda>m. (bm_host_path m, bm_container_path m)) (ps_mounts spec)"

lemma mount_pairs_inject: "mount_pairs a = mount_pairs b \<Longrightarrow> ps_mounts a = ps_mounts b"
  unfolding mount_pairs_def by (rule map_injective [where f = "\<lambda>m. (bm_host_path m, bm_container_path m)"]) (auto intro: injI)

definition spec_fits :: "pod_spec \<Rightarrow> bool" where
  "spec_fits spec =
     (fits (ps_image spec) \<and> fits (ps_entrypoint spec) \<and> fits (ps_env_vars spec) \<and> fits (ps_mounts spec)
      \<and> (\<forall>(a, b) \<in> set (ps_env_vars spec) \<union> set (mount_pairs spec). fits a \<and> fits b))"

text \<open>The end of the hashed bytes, from the environment on.\<close>

definition identity_lists :: "containerd_runtime \<Rightarrow> pod_spec \<Rightarrow> u8 list" where
  "identity_lists cd spec =
     be_bytes 8 (length (ps_env_vars spec)) @ sized_pairs (ps_env_vars spec)
     @ be_bytes 8 (length (ps_mounts spec)) @ sized_pairs (mount_pairs spec)
     @ sized (as_bytes (cd_runtime_name cd)) @ sized (as_bytes (cd_snapshotter cd))"

lemma identity_bytes_eq:
  "identity_bytes cd spec =
     sized (as_bytes ''hivemind-containerd-workload-v1'')
     @ be_bytes 8 (unat (ps_pod_id spec)) @ be_bytes 8 (unat (ps_deployment_id spec))
     @ sized (as_bytes (ps_image spec)) @ sized (as_bytes (ps_entrypoint spec))
     @ be_bytes 2 (unat (ps_port spec)) @ ps_gpu_count spec # gpu_code (ps_gpu_type spec)
     # be_bytes 4 (unat (ps_cpu_millicores spec)) @ be_bytes 4 (unat (ps_memory_megabytes spec))
     @ identity_lists cd spec"
  by (simp add: identity_bytes_def identity_lists_def sized_pairs_def mount_pairs_def comp_def)

lemma identity_lists_inject:
  assumes "spec_fits a" "spec_fits b" "fits (cd_runtime_name cd)" "fits (cd_snapshotter cd)"
    "fits (cd_runtime_name cd')" "fits (cd_snapshotter cd')" "identity_lists cd a = identity_lists cd' b"
  shows "ps_env_vars a = ps_env_vars b \<and> ps_mounts a = ps_mounts b
    \<and> cd_runtime_name cd = cd_runtime_name cd' \<and> cd_snapshotter cd = cd_snapshotter cd'"
proof -
  have pf: "\<forall>(x, y) \<in> set (ps_env_vars a) \<union> set (ps_env_vars b). fits x \<and> fits y"
    "\<forall>(x, y) \<in> set (mount_pairs a) \<union> set (mount_pairs b). fits x \<and> fits y"
    using assms(1,2) by (auto simp: spec_fits_def)
  have le: "length (ps_env_vars a) = length (ps_env_vars b)"
    and r: "sized_pairs (ps_env_vars a) @ (be_bytes 8 (length (ps_mounts a)) @ sized_pairs (mount_pairs a)
      @ sized (as_bytes (cd_runtime_name cd)) @ sized (as_bytes (cd_snapshotter cd)))
    = sized_pairs (ps_env_vars b) @ (be_bytes 8 (length (ps_mounts b)) @ sized_pairs (mount_pairs b)
      @ sized (as_bytes (cd_runtime_name cd')) @ sized (as_bytes (cd_snapshotter cd')))"
    using assms(1,2,7) by (simp_all add: identity_lists_def be_bytes_inject spec_fits_def fits_def)
  note s1 = sized_pairs_inject [OF le pf(1) r]
  have lm: "length (mount_pairs a) = length (mount_pairs b)"
    and r2: "sized_pairs (mount_pairs a) @ (sized (as_bytes (cd_runtime_name cd)) @ sized (as_bytes (cd_snapshotter cd)))
      = sized_pairs (mount_pairs b) @ (sized (as_bytes (cd_runtime_name cd')) @ sized (as_bytes (cd_snapshotter cd')))"
    using s1 [THEN conjunct2] assms(1,2) by (simp_all add: mount_pairs_def be_bytes_inject spec_fits_def fits_def)
  note s2 = sized_pairs_inject [OF lm pf(2) r2]
  have "cd_runtime_name cd = cd_runtime_name cd' \<and> cd_snapshotter cd = cd_snapshotter cd'"
    using sized_inject [of "as_bytes (cd_runtime_name cd)" "as_bytes (cd_runtime_name cd')"]
      sized_inject [of "as_bytes (cd_snapshotter cd)" "as_bytes (cd_snapshotter cd')" "[]" "[]"] s2 assms(3-6) by auto
  with s1 s2 mount_pairs_inject show ?thesis by blast
qed

text \<open>
  C24. The identity of a workload covers the whole specification: the bytes that are hashed determine
  every field of the pod specification and the runtime and snapshotter they are created with, so
  that two specifications share an identity only if they are the same or the hash collides. It is
  enough that no string or list is longer than memory can hold.
\<close>

theorem workload_identity_injective:
  assumes "spec_fits a" "spec_fits b" "fits (cd_runtime_name cd)" "fits (cd_snapshotter cd)"
    "fits (cd_runtime_name cd')" "fits (cd_snapshotter cd')" "identity_bytes cd a = identity_bytes cd' b"
  shows "a = b \<and> cd_runtime_name cd = cd_runtime_name cd' \<and> cd_snapshotter cd = cd_snapshotter cd'"
proof -
  have fa: "fits (as_bytes (ps_image a))" "fits (as_bytes (ps_entrypoint a))" "fits (as_bytes (ps_image b))" "fits (as_bytes (ps_entrypoint b))"
    using assms(1,2) by (simp_all add: spec_fits_def)
  let ?t = "\<lambda>c s. be_bytes 2 (unat (ps_port s)) @ ps_gpu_count s # gpu_code (ps_gpu_type s)
     # be_bytes 4 (unat (ps_cpu_millicores s)) @ be_bytes 4 (unat (ps_memory_megabytes s)) @ identity_lists c s"
  have e1: "ps_pod_id a = ps_pod_id b" "ps_deployment_id a = ps_deployment_id b"
    and r1: "sized (as_bytes (ps_image a)) @ (sized (as_bytes (ps_entrypoint a)) @ ?t cd a)
      = sized (as_bytes (ps_image b)) @ (sized (as_bytes (ps_entrypoint b)) @ ?t cd' b)"
    using assms(7) unfolding identity_bytes_eq by (simp_all add: be_word_inject)
  note s1 = sized_inject [OF fa(1,3) r1]
  note s2 = sized_inject [OF fa(2,4) s1 [THEN conjunct2]]
  have e2: "ps_port a = ps_port b" "ps_gpu_count a = ps_gpu_count b" "ps_gpu_type a = ps_gpu_type b"
    "ps_cpu_millicores a = ps_cpu_millicores b" "ps_memory_megabytes a = ps_memory_megabytes b"
    and r2: "identity_lists cd a = identity_lists cd' b"
    using s2 [THEN conjunct2] by (simp_all add: be_word_inject)
  from identity_lists_inject [OF assms(1-6) r2] e1 e2 s1 s2 show ?thesis by (auto intro: pod_spec.equality)
qed

theorem workload_identity_injective_witness:
  "identity_bytes (containerd_new None None None None)
     \<lparr>ps_pod_id = 1, ps_deployment_id = 1, ps_image = ''i'', ps_entrypoint = [], ps_port = 0, ps_gpu_count = 0,
      ps_gpu_type = GpuNone, ps_cpu_millicores = 0, ps_memory_megabytes = 0, ps_env_vars = [(''A'', ''B'')], ps_mounts = []\<rparr>
   \<noteq> identity_bytes (containerd_new None None None None)
     \<lparr>ps_pod_id = 1, ps_deployment_id = 1, ps_image = ''i'', ps_entrypoint = [], ps_port = 0, ps_gpu_count = 0,
      ps_gpu_type = GpuNone, ps_cpu_millicores = 0, ps_memory_megabytes = 0, ps_env_vars = [(''AB'', [])], ps_mounts = []\<rparr>"
  (is "identity_bytes ?cd ?a \<noteq> identity_bytes ?cd ?b")
proof
  assume "identity_bytes ?cd ?a = identity_bytes ?cd ?b"
  then have "?a = ?b"
    by (intro conjunct1 [OF workload_identity_injective [of ?a ?b ?cd ?cd]])
       (simp_all add: spec_fits_def fits_def mount_pairs_def containerd_new_def)
  then show False by simp
qed

section \<open>Base64\<close>

text \<open>The standard decoder.\<close>

fun index_of :: "char \<Rightarrow> string \<Rightarrow> nat" where
  "index_of c [] = 0"
| "index_of c (x # xs) = (if c = x then 0 else Suc (index_of c xs))"

definition b64_digit :: "char \<Rightarrow> u32" where
  "b64_digit c = word_of_nat (index_of c ALPHABET)"

definition b64_join :: "char \<Rightarrow> char \<Rightarrow> char \<Rightarrow> char \<Rightarrow> u32" where
  "b64_join a b c d =
     push_bit 18 (b64_digit a) OR push_bit 12 (b64_digit b) OR push_bit 6 (b64_digit c) OR b64_digit d"

fun unbase64 :: "string \<Rightarrow> u8 list" where
  "unbase64 (a # b # c # d # rest) =
     (if c = CHR ''='' then [ucast (drop_bit 16 (b64_join a b CHR ''A'' CHR ''A''))]
      else if d = CHR ''='' then
        let v = b64_join a b c CHR ''A'' in [ucast (drop_bit 16 v), ucast (drop_bit 8 v)]
      else let v = b64_join a b c d in [ucast (drop_bit 16 v), ucast (drop_bit 8 v), ucast v] @ unbase64 rest)"
| "unbase64 _ = []"

lemma index_of_nth: "distinct xs \<Longrightarrow> i < length xs \<Longrightarrow> index_of (xs ! i) xs = i"
  by (induction xs arbitrary: i) (auto simp: nth_Cons' split: if_splits)

lemma alphabet: "distinct ALPHABET" "length ALPHABET = 64" "CHR ''='' \<notin> set ALPHABET" "ALPHABET ! 0 = CHR ''A''"
  by (simp_all add: ALPHABET_def)

lemma b64_index: "unat (v AND 0x3f :: u32) < 64"
proof -
  have "v AND 0x3f = take_bit 6 v" by (simp add: take_bit_eq_mask mask_eq_exp_minus_1)
  then show ?thesis using take_bit_nat_less_exp [of 6 "unat v"] by (simp add: unsigned_take_bit_eq)
qed

lemma b64_digit_char [simp]: "b64_digit (b64_char v) = v AND 0x3f"
  unfolding b64_digit_def b64_char_def using index_of_nth [OF alphabet(1)] b64_index [of v] alphabet(2) by simp

lemma b64_char_not_pad [simp]: "b64_char v \<noteq> CHR ''=''"
  unfolding b64_char_def using b64_index [of v] alphabet(2,3) by (metis nth_mem)

lemma b64_digit_A [simp]: "b64_digit CHR ''A'' = 0"
  by (simp add: b64_digit_def ALPHABET_def)

lemma and_63: "v AND 0x3f = take_bit 6 (v :: u32)"
  by (simp add: take_bit_eq_mask mask_eq_exp_minus_1)

lemma bit_b64_value:
  "bit (b64_value a b c) n \<longleftrightarrow> (if n < 8 then bit c n else if n < 16 then bit b (n - 8) else n < 24 \<and> bit a (n - 16))"
  using bit_imp_le_length [of a "n - 16"] bit_imp_le_length [of b "n - 8"] bit_imp_le_length [of c n]
  by (auto simp: b64_value_def bit_simps)

lemma b64_join_value:
  "b64_join (b64_char (drop_bit 18 v)) (b64_char (drop_bit 12 v)) (b64_char (drop_bit 6 v)) (b64_char v) = take_bit 24 v"
proof (rule bit_eqI)
  fix n :: nat
  consider "n < 6" | "6 \<le> n" "n < 12" | "12 \<le> n" "n < 18" | "18 \<le> n" "n < 24" | "24 \<le> n" by linarith
  then show "bit (b64_join (b64_char (drop_bit 18 v)) (b64_char (drop_bit 12 v)) (b64_char (drop_bit 6 v)) (b64_char v)) n
      = bit (take_bit 24 v) n"
    by cases (auto simp: b64_join_def and_63 bit_simps)
qed

lemma b64_parts:
  "ucast (drop_bit 16 (take_bit 24 (b64_value a b c))) = a" "ucast (drop_bit 8 (take_bit 24 (b64_value a b c))) = b"
  "ucast (take_bit 24 (b64_value a b c)) = c"
  by (rule bit_eqI; auto simp: bit_simps bit_b64_value)+

lemma b64_char_A: "v AND 0x3f = 0 \<Longrightarrow> b64_char v = CHR ''A''"
  by (simp add: b64_char_def alphabet(4))

lemma b64_value_low:
  "drop_bit 6 (b64_value a 0 0) AND 0x3f = 0" "b64_value a b 0 AND 0x3f = 0"
  unfolding and_63 by (rule bit_eqI; auto simp: bit_simps bit_b64_value)+

text \<open>
  C33. Credentials survive their encoding: the standard base64 decoder reads back exactly the bytes that
  were encoded, whatever they are and for every length modulo three.
\<close>

theorem base64_roundtrip: "unbase64 (base64 bs) = bs"
proof (induction bs rule: base64.induct)
  case (2 a)
  have "b64_char (drop_bit 6 (b64_value a 0 0)) = CHR ''A''" "b64_char (b64_value a 0 0) = CHR ''A''"
    by (simp_all add: b64_char_A b64_value_low)
  then show ?case using b64_join_value [of "b64_value a 0 0"] by (simp add: Let_def b64_parts)
next
  case (3 a b)
  have "b64_char (b64_value a b 0) = CHR ''A''" by (simp add: b64_char_A b64_value_low)
  then show ?case using b64_join_value [of "b64_value a b 0"] by (simp add: Let_def b64_parts)
next
  case (4 a b c rest)
  then show ?case by (simp add: Let_def b64_join_value b64_parts)
qed simp

section \<open>What goes wrong\<close>

lemma replace_all_absent: "\<not> sublist pat t \<Longrightarrow> replace_all pat new t = t"
proof (induction t)
  case (Cons c t)
  then have "\<not> prefix pat (c # t)" "\<not> sublist pat t" by (auto simp: sublist_Cons_right)
  with Cons.IH show ?case by (simp add: replace_all.simps [of pat new "c # t"])
qed (simp add: replace_all.simps)



text \<open>
  The duration syntax of the \<open>timeout\<close> command (GNU coreutils) has no suffix for milliseconds: such a
  duration is refused before the command is run, with an error status and no other effect.
\<close>

definition refuses_milliseconds :: "'w ctr_os \<Rightarrow> bool" where
  "refuses_milliseconds co =
     (\<forall>n args w. \<exists>out. co_command co (''timeout'' # (dec n @ ''ms'') # args) w = (Inr out, w) \<and> \<not> out_success out)"

lemma refused_run_ctr:
  assumes "refuses_milliseconds co" "t \<noteq> 0"
  shows "\<exists>m. run_ctr_duration co cd args t redactions e = Inr (Inl m, e)"
proof -
  let ?ms = "min (max (t div 10 ^ 6) 1) (2 ^ 64 - 1)"
  obtain out where "co_command co (ctr_argv cd args ?ms) (snd e) = (Inr out, snd e)" "\<not> out_success out"
    using assms(1) unfolding refuses_milliseconds_def ctr_argv_def by (metis append_Cons)
  then show ?thesis
    using assms(2) unfolding run_ctr_duration_def Let_def
    by (simp add: try_call_def err_call_def bind_call_def on_world_def ret_def)
qed

text \<open>
  C35. Under a \<open>timeout\<close> command that refuses durations in milliseconds, the containerd runtime never
  runs \<open>ctr\<close>: every pull of an image and every creation of a pod fails, and neither changes anything.
\<close>

theorem ctr_never_runs:
  assumes "refuses_milliseconds co"
  shows "(\<exists>m. ctr_pull_image co cd img auth e = Inr (Inl m, e)) \<and> (\<exists>m. ctr_create_pod co cd spec e = Inr (Inl m, e))"
proof
  have run: "\<exists>m. run_ctr co cd args e = Inr (Inl m, e)" for args
    using refused_run_ctr [OF assms] by (simp add: run_ctr_def run_ctr_timeout_def CTR_TIMEOUT_SECS_def)
  obtain m where "run_ctr co cd [''images'', ''ls''] e = Inr (Inl m, e)" using run by blast
  then show "\<exists>m. ctr_pull_image co cd img auth e = Inr (Inl m, e)"
    by (simp add: ctr_pull_image_def image_present_def try_call_def err_call_def bind_call_def ret_def)
  obtain m2 where "run_ctr co cd [''tasks'', ''list''] e = Inr (Inl m2, e)" using run by blast
  then show "\<exists>m. ctr_create_pod co cd spec e = Inr (Inl m, e)"
    by (simp add: ctr_create_pod_def find_adoptable_container_def inventory_def try_call_def err_call_def bind_call_def ret_def)
qed

theorem ctr_never_runs_witness:
  "\<exists>m. ctr_create_pod (sample_ctr\<lparr>co_command := (\<lambda>argv w.
       (Inr \<lparr>out_success = False, out_code = Some 125, out_stdout = [], out_stderr = []\<rparr>, w))\<rparr>)
     sample_settings sample_spec sample_env = Inr (Inl m, sample_env)"
  by (rule ctr_never_runs [THEN conjunct2]) (simp add: refuses_milliseconds_def)

end
