(* ===== verification/Hive_Main.thy ===== *)
theory Hive_Main
  imports Worker_Drain Worker_Metrics Hive_Fingerprint Real_Io Runtime_Process Runtime_Containerd Sim_Runtime
begin

text \<open>
  The worker program, \<^verbatim>\<open>worker/src/main.rs\<close>: its command line, the checks before it starts, the
  session loop that connects to one replica after the other, and the shutdown. The loops may run for
  ever, so they are partial functions into an option; within it a panic is the left result. The
  signal flag, the clock and sleeping are functions over a control state, the network is the TCP
  parameter of the socket link, and the operating system and the runtime are those of the worker.
  Log lines are left out.
\<close>

section \<open>The command line\<close>

definition MAX_REPLICA_ADDRS :: nat where "MAX_REPLICA_ADDRS = 64"
definition MAX_SHUTDOWN_RECONCILIATION_ATTEMPTS :: nat where "MAX_SHUTDOWN_RECONCILIATION_ATTEMPTS = 1"
definition REPLICA_CONNECT_TIMEOUT :: nat where "REPLICA_CONNECT_TIMEOUT = 10 ^ 9"

record run_config =
  rc_replica_addr :: string
  rc_runtime_mode :: string
  rc_snapshotter :: string
  rc_metrics_port :: "u16 option"
  rc_encryption_key_hex :: string
  rc_test_process_controls :: bool
  rc_test_process_base_port :: u16
  rc_test_process_base_port_explicit :: bool

fun add_replica_addrs :: "string list \<Rightarrow> string list \<Rightarrow> string list" where
  "add_replica_addrs [] addrs = addrs"
| "add_replica_addrs (part # parts) addrs =
     (let addr = trim part in
      if addr = [] then add_replica_addrs parts addrs
      else if MAX_REPLICA_ADDRS \<le> length addrs then addrs
      else add_replica_addrs parts (addrs @ [addr]))"

definition parse_replica_addrs :: "string \<Rightarrow> string list" where
  "parse_replica_addrs replica_addr = add_replica_addrs (split_on CHR '','' replica_addr) []"

fun validate_replica_addrs :: "string list \<Rightarrow> string + unit" where
  "validate_replica_addrs [] = Inr ()"
| "validate_replica_addrs (addr # addrs) =
     (case parse_socket_addr addr of
        None \<Rightarrow> Inl (''replica address must be an IP socket address: '' @ addr)
      | Some _ \<Rightarrow> validate_replica_addrs addrs)"

definition run_config_default :: run_config where
  "run_config_default =
     \<lparr>rc_replica_addr = [], rc_runtime_mode = ''process'', rc_snapshotter = ''overlayfs'', rc_metrics_port = None,
      rc_encryption_key_hex = [], rc_test_process_controls = False, rc_test_process_base_port = 15000,
      rc_test_process_base_port_explicit = False\<rparr>"

fun parse_run_args :: "string list \<Rightarrow> run_config \<Rightarrow> run_config" where
  "parse_run_args [] rc = rc"
| "parse_run_args (x # rest) rc =
     (if x = ''--runtime'' \<and> rest \<noteq> [] then parse_run_args (tl rest) (rc\<lparr>rc_runtime_mode := hd rest\<rparr>)
      else if x = ''--snapshotter'' \<and> rest \<noteq> [] then parse_run_args (tl rest) (rc\<lparr>rc_snapshotter := hd rest\<rparr>)
      else if x = ''--metrics-port'' \<and> rest \<noteq> [] then parse_run_args (tl rest) (rc\<lparr>rc_metrics_port := parse_u16 (hd rest)\<rparr>)
      else if x = ''--encryption-key'' \<and> rest \<noteq> [] then parse_run_args (tl rest) (rc\<lparr>rc_encryption_key_hex := hd rest\<rparr>)
      else if x = ''--test-process-controls'' then parse_run_args rest (rc\<lparr>rc_test_process_controls := True\<rparr>)
      else if x = ''--test-process-base-port'' \<and> rest \<noteq> [] then
        parse_run_args (tl rest) (rc\<lparr>rc_test_process_base_port := (case parse_u16 (hd rest) of None \<Rightarrow> 0 | Some p \<Rightarrow> p),
                                     rc_test_process_base_port_explicit := True\<rparr>)
      else if rc_replica_addr rc = [] then parse_run_args rest (rc\<lparr>rc_replica_addr := x\<rparr>)
      else parse_run_args rest rc)"

definition parse_run_config :: "string list \<Rightarrow> (string \<Rightarrow> string option) \<Rightarrow> run_config" where
  "parse_run_config args env =
     (let rc = parse_run_args args run_config_default;
          rc1 = (if rc_snapshotter rc = ''overlayfs'' then
                   (case env ''HIVEMIND_SNAPSHOTTER'' of
                      None \<Rightarrow> rc | Some v \<Rightarrow> if v \<noteq> [] then rc\<lparr>rc_snapshotter := v\<rparr> else rc)
                 else rc);
          rc2 = (if rc_metrics_port rc1 = None then
                   (case env ''HIVEMIND_AGENT_METRICS_PORT'' of None \<Rightarrow> rc1 | Some v \<Rightarrow> rc1\<lparr>rc_metrics_port := parse_u16 v\<rparr>)
                 else rc1)
      in if rc_encryption_key_hex rc2 = [] then
           (case env ''HIVEMIND_ENCRYPTION_KEY'' of None \<Rightarrow> rc2 | Some v \<Rightarrow> rc2\<lparr>rc_encryption_key_hex := v\<rparr>)
         else rc2)"

section \<open>Before the first session\<close>

text \<open>An exit of the process with a code, before anything was started.\<close>

datatype process_end = Completed | Exited nat

datatype runtime_choice = UseProcess process_runtime | UseSimulated sim_runtime | UseContainerd containerd_runtime

definition check_test_options :: "run_config \<Rightarrow> process_end + unit" where
  "check_test_options cfg =
     (if rc_test_process_controls cfg \<and> rc_runtime_mode cfg \<noteq> ''process'' then Inl (Exited 2)
      else if \<not> rc_test_process_controls cfg \<and> rc_test_process_base_port_explicit cfg then Inl (Exited 2)
      else if rc_test_process_base_port cfg = 0 then Inl (Exited 2)
      else if rc_test_process_controls cfg
              \<and> checked_add (rc_test_process_base_port cfg) TEST_PROCESS_PORT_COUNT = None then Inl (Exited 2)
      else Inr ())"

type_synonym hkdf = "u8 list \<Rightarrow> u8 list \<Rightarrow> u8 list \<Rightarrow> u8 list option"

definition load_key :: "hkdf \<Rightarrow> run_config \<Rightarrow> (process_end + u8 list option) res" where
  "load_key hkdf_expand cfg =
     (if rc_encryption_key_hex cfg \<noteq> [] then
        and_then (from_hex hkdf_expand (rc_encryption_key_hex cfg)) (\<lambda>r.
          Inr (case r of Inl _ \<Rightarrow> Inl (Exited 1) | Inr state \<Rightarrow> Inr (Some (es_worker_key state))))
      else Inr (Inr None))"

definition load_addrs :: "run_config \<Rightarrow> process_end + string list" where
  "load_addrs cfg =
     (let addrs = parse_replica_addrs (rc_replica_addr cfg) in
      if addrs = [] then Inl (Exited 1)
      else case validate_replica_addrs addrs of Inl _ \<Rightarrow> Inl (Exited 1) | Inr _ \<Rightarrow> Inr addrs)"

definition build_runtime :: "run_config \<Rightarrow> (process_end + runtime_choice) res" where
  "build_runtime cfg =
     (if rc_runtime_mode cfg = ''process'' then
        if rc_test_process_controls cfg then
          and_then (with_test_controls (rc_test_process_base_port cfg)) (\<lambda>p. Inr (Inr (UseProcess p)))
        else Inr (Inr (UseProcess process_runtime_new))
      else if rc_runtime_mode cfg = ''simulated'' then Inr (Inr (UseSimulated (sim_runtime_new 0 fault_config_default)))
      else if rc_runtime_mode cfg = ''containerd'' then
        Inr (Inr (UseContainerd (containerd_new None None None
          (if rc_snapshotter cfg = ''overlayfs'' then None else Some (rc_snapshotter cfg)))))
      else Inr (Inl (Exited 1)))"

text \<open>The description of the node, with conservative defaults if it cannot be read.\<close>

definition node_description ::
    "'e os \<Rightarrow> nvml \<Rightarrow> string + u8 list \<Rightarrow> string + u8 list \<Rightarrow> (node_fingerprint, 'e) call" where
  "node_description os nv hostname_buf hostname_again =
     bind_call (fingerprint os nv hostname_buf) (\<lambda>r. ret (case r of
       Inr fp \<Rightarrow> fp
     | Inl _ \<Rightarrow>
         \<lparr>nf_node_name = (case hostname_again of Inl _ \<Rightarrow> ''unknown'' | Inr bs \<Rightarrow> hostname_of bs),
          nf_cpu_millicores = 1000, nf_memory_megabytes = 1024, nf_gpu_type = GpuNone, nf_gpu_count = 0,
          nf_gpu_memory_megabytes = 0\<rparr>))"

definition worker_of :: "secret_resolver \<Rightarrow> node_fingerprint \<Rightarrow> worker" where
  "worker_of resolver fp =
     worker_new resolver (nf_node_name fp) (nf_gpu_type fp) (nf_gpu_count fp) (nf_cpu_millicores fp) (nf_memory_megabytes fp)"

text \<open>All that is decided before the first connection.\<close>

definition start_up ::
    "hkdf \<Rightarrow> run_config \<Rightarrow> (process_end + u8 list option \<times> string list \<times> runtime_choice) res" where
  "start_up hkdf_expand cfg =
     (case check_test_options cfg of
        Inl x \<Rightarrow> Inr (Inl x)
      | Inr _ \<Rightarrow>
          and_then (load_key hkdf_expand cfg) (\<lambda>k. case k of
            Inl x \<Rightarrow> Inr (Inl x)
          | Inr key \<Rightarrow>
              (case load_addrs cfg of
                 Inl x \<Rightarrow> Inr (Inl x)
               | Inr addrs \<Rightarrow>
                   and_then (build_runtime cfg) (\<lambda>b. Inr (case b of
                     Inl x \<Rightarrow> Inl x
                   | Inr choice \<Rightarrow> Inr (key, addrs, choice))))))"

section \<open>Shutdown\<close>

fun reconcile_attempts :: "('s \<Rightarrow> (bool \<times> 's) res) \<Rightarrow> ('s \<Rightarrow> 's) \<Rightarrow> nat \<Rightarrow> 's \<Rightarrow> (bool \<times> 's) res" where
  "reconcile_attempts shut wait 0 s = Inr (False, s)"
| "reconcile_attempts shut wait (Suc n) s =
     and_then (shut s) (\<lambda>(ok, s1).
       if ok then Inr (True, s1) else reconcile_attempts shut wait n (if 0 < n then wait s1 else s1))"

definition reconcile_shutdown :: "('s \<Rightarrow> (bool \<times> 's) res) \<Rightarrow> ('s \<Rightarrow> 's) \<Rightarrow> 's \<Rightarrow> (bool \<times> 's) res" where
  "reconcile_shutdown shut wait = reconcile_attempts shut wait MAX_SHUTDOWN_RECONCILIATION_ATTEMPTS"

definition disconnected_io :: "unit io" where
  "disconnected_io =
     \<lparr>io_now = (\<lambda>_. 0), io_send = (\<lambda>msg i. Inr i), io_recv = ret None, io_random_u64 = ret 0\<rparr>"

section \<open>The node\<close>

text \<open>What the program runs on, and what it owns between two sessions.\<close>

record ('e, 'w, 'n, 'c) machine =
  mc_os :: "'e os"
  mc_rt :: "'e runtime"
  mc_aead :: aead
  mc_tcp :: "'w tcp"
  mc_metrics :: "'n metrics_net option"
  mc_uptime :: "'c \<Rightarrow> u64"
  mc_flag :: "'c \<Rightarrow> bool \<times> 'c"
  mc_now :: "'c \<Rightarrow> instant \<times> 'c"
  mc_sleep :: "nat \<Rightarrow> 'c \<Rightarrow> 'c"
  mc_sched :: "'c \<Rightarrow> nat \<Rightarrow> nat list"

record ('e, 'w, 'n, 'c) node =
  nd_worker :: worker
  nd_env :: 'e
  nd_net :: 'w
  nd_listener :: 'n
  nd_ctl :: 'c
  nd_backoff_ms :: u64
  nd_replica_idx :: nat

definition session_ctx :: "('e, 'w, 'n, 'c) machine \<Rightarrow> ('e, 'w real_io) ctx" where
  "session_ctx m = \<lparr>cx_os = mc_os m, cx_rt = mc_rt m, cx_io = real_link (mc_aead m) (mc_tcp m)\<rparr>"

definition offline_ctx :: "('e, 'w, 'n, 'c) machine \<Rightarrow> ('e, unit) ctx" where
  "offline_ctx m = \<lparr>cx_os = mc_os m, cx_rt = mc_rt m, cx_io = disconnected_io\<rparr>"

definition enter :: "'i \<Rightarrow> ('e, 'w, 'n, 'c) node \<Rightarrow> ('e, 'i) sys" where
  "enter i nd = \<lparr>sy_worker = nd_worker nd, sy_env = nd_env nd, sy_io = i, sy_out = []\<rparr>"

definition leave :: "('e, 'i) sys \<Rightarrow> ('e, 'w, 'n, 'c) node \<Rightarrow> ('e, 'w, 'n, 'c) node" where
  "leave s nd = nd\<lparr>nd_worker := sy_worker s, nd_env := sy_env s\<rparr>"

definition poll_metrics :: "('e, 'w, 'n, 'c) machine \<Rightarrow> ('e, 'w, 'n, 'c) node \<Rightarrow> ('e, 'w, 'n, 'c) node" where
  "poll_metrics m nd =
     (case mc_metrics m of
        None \<Rightarrow> nd
      | Some net \<Rightarrow> nd\<lparr>nd_listener := metrics_poll net (mc_uptime m (nd_ctl nd)) (nd_worker nd) (nd_listener nd)\<rparr>)"

text \<open>One turn of the loop of a session.\<close>

definition session_turn ::
    "('e, 'w, 'n, 'c) machine \<Rightarrow> 'w real_io \<Rightarrow> ('e, 'w, 'n, 'c) node \<Rightarrow> ('w real_io \<times> ('e, 'w, 'n, 'c) node) res option" where
  "session_turn m r nd =
     map_option (\<lambda>t. and_then t (\<lambda>s.
         let nd1 = poll_metrics m (leave s nd) in Inr (sy_io s, nd1\<lparr>nd_ctl := mc_sleep m (10 ^ 6) (nd_ctl nd1)\<rparr>)))
       (tick (session_ctx m) (mc_sched m (nd_ctl nd)) (enter r nd))"

partial_function (option) session_turns ::
    "('e, 'w, 'n, 'c) machine \<Rightarrow> 'w real_io \<Rightarrow> ('e, 'w, 'n, 'c) node \<Rightarrow> ('w real_io \<times> ('e, 'w, 'n, 'c) node) res option" where
  "session_turns m r nd =
     (if \<not> ri_connected r then Some (Inr (r, nd))
      else case mc_flag m (nd_ctl nd) of (stop, c) \<Rightarrow>
        if stop then Some (Inr (r, nd\<lparr>nd_ctl := c\<rparr>))
        else (case session_turn m r (nd\<lparr>nd_ctl := c\<rparr>) of
                None \<Rightarrow> None
              | Some (Inl e) \<Rightarrow> Some (Inl e)
              | Some (Inr x) \<Rightarrow> session_turns m (fst x) (snd x)))"

definition session_shutdown ::
    "('e, 'w, 'n, 'c) machine \<Rightarrow> 'w real_io \<times> ('e, 'w, 'n, 'c) node \<Rightarrow> (bool \<times> 'w real_io \<times> ('e, 'w, 'n, 'c) node) res" where
  "session_shutdown m x =
     and_then (shutdown (session_ctx m) (enter (fst x) (snd x))) (\<lambda>(ok, s). Inr (ok, sy_io s, leave s (snd x)))"

definition pause :: "('e, 'w, 'n, 'c) machine \<Rightarrow> ('e, 'w, 'n, 'c) node \<Rightarrow> ('e, 'w, 'n, 'c) node" where
  "pause m nd = nd\<lparr>nd_ctl := mc_sleep m (10 ^ 9) (nd_ctl nd)\<rparr>"

text \<open>A session: its end, if the process exits in it, and the state it leaves.\<close>

definition run_worker_loop ::
    "('e, 'w, 'n, 'c) machine \<Rightarrow> 'w real_io \<Rightarrow> ('e, 'w, 'n, 'c) node \<Rightarrow> (process_end option \<times> ('e, 'w, 'n, 'c) node) res option" where
  "run_worker_loop m r nd =
     bind_run (session_turns m r nd) (\<lambda>(r1, nd1).
       case mc_flag m (nd_ctl nd1) of (stop, c) \<Rightarrow>
         let nd2 = nd1\<lparr>nd_ctl := c\<rparr> in
         if stop then
           Some (and_then (reconcile_shutdown (session_shutdown m) (\<lambda>x. (fst x, pause m (snd x))) (r1, nd2)) (\<lambda>(ok, r3, nd3).
             Inr (if ok then None else Some (Exited 1), nd3\<lparr>nd_net := ri_stream r3\<rparr>)))
         else Some (Inr (None, nd2\<lparr>nd_net := ri_stream r1\<rparr>)))"

partial_function (option) wait_for_reconnect_or_shutdown ::
    "('e, 'w, 'n, 'c) machine \<Rightarrow> instant \<Rightarrow> 'c \<Rightarrow> (bool \<times> 'c) option" where
  "wait_for_reconnect_or_shutdown m deadline c =
     (case mc_flag m c of (stop, c1) \<Rightarrow>
        if stop then Some (True, c1)
        else (case mc_now m c1 of (t, c2) \<Rightarrow>
                if deadline - t = 0 then Some (False, c2)
                else wait_for_reconnect_or_shutdown m deadline (mc_sleep m (min (deadline - t) (50 * 10 ^ 6)) c2)))"

definition next_replica :: "string list \<Rightarrow> ('e, 'w, 'n, 'c) node \<Rightarrow> ('e, 'w, 'n, 'c) node" where
  "next_replica addrs nd = nd\<lparr>nd_replica_idx := (nd_replica_idx nd + 1) mod length addrs\<rparr>"

text \<open>One attempt: connect to the current replica and, if that works, run the session.\<close>

definition attempt_session ::
    "('e, 'w, 'n, 'c) machine \<Rightarrow> u8 list option \<Rightarrow> string list \<Rightarrow> ('e, 'w, 'n, 'c) node
       \<Rightarrow> (process_end option \<times> ('e, 'w, 'n, 'c) node) res option" where
  "attempt_session m key addrs nd =
     bind_run (Some (index_at addrs (nd_replica_idx nd))) (\<lambda>addr.
       case connect_timeout (mc_tcp m) addr key REPLICA_CONNECT_TIMEOUT (nd_net nd) of
         (Inl e, w) \<Rightarrow> Some (Inr (None, next_replica addrs (nd\<lparr>nd_net := w\<rparr>)))
       | (Inr r, w) \<Rightarrow>
           bind_run (run_worker_loop m r (nd\<lparr>nd_net := w, nd_backoff_ms := 100\<rparr>)) (\<lambda>(fin, nd1).
             if fin \<noteq> None then Some (Inr (fin, nd1))
             else case mc_flag m (nd_ctl nd1) of (stop, c) \<Rightarrow>
               let nd2 = nd1\<lparr>nd_ctl := c\<rparr> in
               Some (Inr (None, if stop then nd2
                                else next_replica addrs (nd2\<lparr>nd_worker := on_connection_lost (nd_worker nd2)\<rparr>)))))"

text \<open>The wait before the next attempt.\<close>

definition back_off :: "('e, 'w, 'n, 'c) machine \<Rightarrow> ('e, 'w, 'n, 'c) node \<Rightarrow> ('e, 'w, 'n, 'c) node option" where
  "back_off m nd =
     (case mc_now m (nd_ctl nd) of (t, c) \<Rightarrow>
        map_option (\<lambda>(_, c1). nd\<lparr>nd_ctl := c1, nd_backoff_ms := min (nd_backoff_ms nd * 2) 10000\<rparr>)
          (wait_for_reconnect_or_shutdown m (t + unat (nd_backoff_ms nd) * 10 ^ 6) c))"

partial_function (option) session_loop ::
    "('e, 'w, 'n, 'c) machine \<Rightarrow> u8 list option \<Rightarrow> string list \<Rightarrow> ('e, 'w, 'n, 'c) node
       \<Rightarrow> (process_end option \<times> ('e, 'w, 'n, 'c) node) res option" where
  "session_loop m key addrs nd =
     (case mc_flag m (nd_ctl nd) of (stop, c) \<Rightarrow>
        if stop then Some (Inr (None, nd\<lparr>nd_ctl := c\<rparr>))
        else case attempt_session m key addrs (nd\<lparr>nd_ctl := c\<rparr>) of
            None \<Rightarrow> None
          | Some (Inl e) \<Rightarrow> Some (Inl e)
          | Some (Inr x) \<Rightarrow>
              if fst x \<noteq> None then Some (Inr x)
              else case mc_flag m (nd_ctl (snd x)) of (stop2, c2) \<Rightarrow>
                if stop2 then Some (Inr (None, (snd x)\<lparr>nd_ctl := c2\<rparr>))
                else case back_off m ((snd x)\<lparr>nd_ctl := c2\<rparr>) of
                    None \<Rightarrow> None
                  | Some nd1 \<Rightarrow> session_loop m key addrs nd1)"

definition offline_shutdown :: "('e, 'w, 'n, 'c) machine \<Rightarrow> ('e, 'w, 'n, 'c) node \<Rightarrow> (bool \<times> ('e, 'w, 'n, 'c) node) res" where
  "offline_shutdown m nd = and_then (shutdown (offline_ctx m) (enter () nd)) (\<lambda>(ok, s). Inr (ok, leave s nd))"

definition shutdown_disconnected_worker ::
    "('e, 'w, 'n, 'c) machine \<Rightarrow> ('e, 'w, 'n, 'c) node \<Rightarrow> (bool \<times> ('e, 'w, 'n, 'c) node) res" where
  "shutdown_disconnected_worker m = reconcile_shutdown (offline_shutdown m) (pause m)"

definition run_node ::
    "('e, 'w, 'n, 'c) machine \<Rightarrow> u8 list option \<Rightarrow> string list \<Rightarrow> ('e, 'w, 'n, 'c) node
       \<Rightarrow> (process_end \<times> ('e, 'w, 'n, 'c) node) res option" where
  "run_node m key addrs nd =
     bind_run (session_loop m key addrs (nd\<lparr>nd_backoff_ms := 100, nd_replica_idx := 0\<rparr>)) (\<lambda>(fin, nd1).
       case fin of
         Some x \<Rightarrow> Some (Inr (x, nd1))
       | None \<Rightarrow>
           Some (and_then (shutdown_disconnected_worker m nd1) (\<lambda>(ok, nd2). Inr (if ok then Completed else Exited 1, nd2))))"

section \<open>Start-up\<close>

lemma with_test_controls_total: "base_port \<noteq> 0 \<Longrightarrow> checked_add base_port TEST_PROCESS_PORT_COUNT \<noteq> None \<Longrightarrow> \<exists>p. with_test_controls base_port = Inr p"
  by (auto simp: with_test_controls_def word_neq_0_conv)

lemma build_runtime_total: "check_test_options cfg = Inr () \<Longrightarrow> \<exists>b. build_runtime cfg = Inr b"
  using with_test_controls_total [of "rc_test_process_base_port cfg"]
  by (auto simp: check_test_options_def build_runtime_def split: if_splits)

lemma validate_replica_addrs_iff: "validate_replica_addrs addrs = Inr () \<longleftrightarrow> (\<forall>a \<in> set addrs. parse_socket_addr a \<noteq> None)"
  by (induction addrs) (auto split: option.splits)

lemma add_replica_addrs_length: "length addrs \<le> MAX_REPLICA_ADDRS \<Longrightarrow> length (add_replica_addrs parts addrs) \<le> MAX_REPLICA_ADDRS"
  by (induction parts addrs rule: add_replica_addrs.induct) (auto simp: Let_def)

lemma load_addrs_ok:
  assumes "load_addrs cfg = Inr addrs"
  shows "addrs \<noteq> [] \<and> length addrs \<le> MAX_REPLICA_ADDRS \<and> (\<forall>a \<in> set addrs. parse_socket_addr a \<noteq> None)"
proof -
  have "validate_replica_addrs addrs = Inr ()" "addrs = parse_replica_addrs (rc_replica_addr cfg)" "addrs \<noteq> []"
    using assms by (auto simp: load_addrs_def Let_def split: if_splits sum.splits)
  then show ?thesis
    using add_replica_addrs_length [of "[]"] by (auto simp: validate_replica_addrs_iff parse_replica_addrs_def)
qed

text \<open>
  C25. Start-up either ends the process with an error code or leaves a configuration that can be run.
  The only panic possible is that of decoding the key text. When it succeeds there are between 1
  and 64 replica addresses, each of which is an IP socket address, and a key is in use exactly when a
  key text was given, so that a worker told to encrypt never falls back to plain frames.
\<close>

theorem start_up_checked:
  "case start_up hkdf_expand cfg of
     Inl e \<Rightarrow> from_hex hkdf_expand (rc_encryption_key_hex cfg) = Inl e
   | Inr (Inl fin) \<Rightarrow> fin \<in> {Exited 1, Exited 2}
   | Inr (Inr (key, addrs, choice)) \<Rightarrow>
       0 < length addrs \<and> length addrs \<le> 64 \<and> list_all (\<lambda>a. parse_socket_addr a \<noteq> None) addrs
       \<and> (key = None \<longleftrightarrow> rc_encryption_key_hex cfg = [])"
proof (cases "check_test_options cfg")
  case (Inl fin)
  then have "fin = Exited 2" by (auto simp: check_test_options_def split: if_splits)
  with Inl show ?thesis by (simp add: start_up_def)
next
  case (Inr u)
  obtain b where b: "build_runtime cfg = Inr b" using build_runtime_total Inr by fastforce
  have b1: "b = Inl fin \<Longrightarrow> fin = Exited 1" for fin
    using b by (auto simp: build_runtime_def and_then_Inr split: if_splits)
  have a1: "load_addrs cfg = Inl fin \<Longrightarrow> fin = Exited 1" for fin
    by (auto simp: load_addrs_def Let_def split: if_splits sum.splits)
  have k1: "load_key hkdf_expand cfg = Inr k \<Longrightarrow>
      (case k of Inl fin \<Rightarrow> fin = Exited 1 | Inr key \<Rightarrow> key = None \<longleftrightarrow> rc_encryption_key_hex cfg = [])" for k
    by (cases "from_hex hkdf_expand (rc_encryption_key_hex cfg)")
       (auto simp: load_key_def split: if_splits sum.splits)
  have k2: "load_key hkdf_expand cfg = Inl e \<Longrightarrow> from_hex hkdf_expand (rc_encryption_key_hex cfg) = Inl e" for e
    by (auto simp: load_key_def and_then_Inl split: if_splits)
  show ?thesis
  proof (cases "load_key hkdf_expand cfg")
    case (Inl e)
    then show ?thesis using k2 Inr by (simp add: start_up_def)
  next
    case key: (Inr k)
    show ?thesis
      using Inr key b b1 a1 k1 [OF key] load_addrs_ok [of cfg]
      by (cases k; cases "load_addrs cfg"; cases b) (auto simp: start_up_def MAX_REPLICA_ADDRS_def list_all_iff)
  qed
qed

section \<open>Sessions\<close>

text \<open>The signal handler only ever sets the flag: once it is set, it stays set.\<close>

definition raised :: "('e, 'w, 'n, 'c) machine \<Rightarrow> 'c \<Rightarrow> bool" where
  "raised m c = fst (mc_flag m c)"

definition sticky :: "('e, 'w, 'n, 'c) machine \<Rightarrow> bool" where
  "sticky m = (\<forall>c. raised m c \<longrightarrow> raised m (snd (mc_flag m c)) \<and> (\<forall>n. raised m (mc_sleep m n c)))"

lemma stickyD:
  "sticky m \<Longrightarrow> mc_flag m c = (True, c') \<Longrightarrow> raised m c'" "sticky m \<Longrightarrow> raised m c \<Longrightarrow> raised m (mc_sleep m n c)"
  by (metis fst_conv snd_conv raised_def sticky_def) (simp add: sticky_def)

definition same_place :: "('e, 'w, 'n, 'c) node \<Rightarrow> ('e, 'w, 'n, 'c) node \<Rightarrow> bool" where
  "same_place nd nd' = (nd_replica_idx nd' = nd_replica_idx nd \<and> nd_backoff_ms nd' = nd_backoff_ms nd)"

lemma same_place_leave: "same_place nd (nd1\<lparr>nd_ctl := c\<rparr>) = same_place nd nd1" "same_place nd (leave s nd1) = same_place nd nd1"
  "same_place nd (poll_metrics m nd1) = same_place nd nd1" "same_place nd (nd1\<lparr>nd_net := w\<rparr>) = same_place nd nd1"
  "same_place (nd\<lparr>nd_ctl := c\<rparr>) nd1 = same_place nd nd1"
  by (simp_all add: same_place_def leave_def poll_metrics_def split: option.splits)

lemma worker_simps:
  "nd_worker (poll_metrics m nd) = nd_worker nd" "nd_worker (leave s nd) = sy_worker s" "sy_worker (enter i nd) = nd_worker nd"
  "nd_worker (pause m nd) = nd_worker nd"
  by (simp_all add: poll_metrics_def leave_def enter_def pause_def split: option.splits)

definition session_inv :: "('e, 'w, 'n, 'c) node \<Rightarrow> 'w real_io \<times> ('e, 'w, 'n, 'c) node \<Rightarrow> bool" where
  "session_inv nd x = (worker_inv (nd_worker (snd x)) \<and> same_place nd (snd x))"

lemma session_turn_inv:
  assumes "session_turn m r nd = Some res" "env_ok X (session_ctx m)" "MISSING_KEY \<in> X" "worker_inv (nd_worker nd)"
  shows "outcome X (session_inv nd) res"
proof -
  from assms(1) obtain t where t: "tick (session_ctx m) (mc_sched m (nd_ctl nd)) (enter r nd) = Some t"
    and res: "res = and_then t (\<lambda>s. let nd1 = poll_metrics m (leave s nd) in
      Inr (sy_io s, nd1\<lparr>nd_ctl := mc_sleep m (10 ^ 6) (nd_ctl nd1)\<rparr>))"
    by (auto simp: session_turn_def)
  have "outcome X (\<lambda>s. worker_inv (sy_worker s)) t"
    by (rule tick_inv [OF t assms(2,3)]) (use assms(4) in \<open>simp add: worker_simps\<close>)
  then show ?thesis
    unfolding res by (rule outcome_and_then) (simp add: session_inv_def Let_def same_place_leave worker_simps, simp add: same_place_def)
qed

lemma session_turns_inv:
  assumes "session_turns m r nd = Some res" "env_ok X (session_ctx m)" "MISSING_KEY \<in> X" "worker_inv (nd_worker nd)"
  shows "outcome X (session_inv nd) res"
  using assms
proof (induction rule: session_turns.raw_induct [rotated, consumes 1, case_names step])
  case (step session_turns m r nd res)
  obtain stop c where f: "mc_flag m (nd_ctl nd) = (stop, c)" by fastforce
  have here: "session_inv nd (r, nd)" "session_inv nd (r, nd\<lparr>nd_ctl := c\<rparr>)"
    using step.prems by (simp_all add: session_inv_def same_place_def)
  show ?case
  proof (cases "\<not> ri_connected r \<or> stop")
    case True
    then show ?thesis using step.hyps here f by (auto split: if_splits)
  next
    case False
    then obtain t where t: "session_turn m r (nd\<lparr>nd_ctl := c\<rparr>) = Some t"
      using step.hyps f by (auto split: option.splits)
    have inv: "outcome X (session_inv (nd\<lparr>nd_ctl := c\<rparr>)) t"
      by (rule session_turn_inv [OF t step.prems(1,2)]) (use step.prems(3) in simp)
    show ?thesis
    proof (cases t)
      case (Inl e)
      then show ?thesis using step.hyps f False t inv by auto
    next
      case (Inr x)
      then have s: "session_inv (nd\<lparr>nd_ctl := c\<rparr>) x" using inv by simp
      have "session_turns m (fst x) (snd x) = Some res" using step.hyps f False t Inr by auto
      moreover have "worker_inv (nd_worker (snd x))" using s by (simp add: session_inv_def)
      ultimately have "outcome X (session_inv (snd x)) res" using step.IH step.prems(1,2) by blast
      then show ?thesis by (rule outcome_mono) (use s in \<open>auto simp: session_inv_def same_place_def\<close>)
    qed
  qed
qed

section \<open>Shutting down\<close>

lemma reconcile_attempts_outcome:
  assumes shut: "\<And>s. P s \<Longrightarrow> outcome X (\<lambda>(ok, s'). P s' \<and> ok = R s') (shut s)"
    and wait: "\<And>s. P s \<Longrightarrow> P (wait s) \<and> R (wait s) = R s"
  shows "P s \<Longrightarrow> 0 < n \<or> \<not> R s \<Longrightarrow> outcome X (\<lambda>(ok, s'). P s' \<and> ok = R s') (reconcile_attempts shut wait n s)"
proof (induction n arbitrary: s)
  case (Suc n)
  have step: "outcome X (\<lambda>(ok, s'). P s' \<and> ok = R s') (if ok then Inr (True, s1)
      else reconcile_attempts shut wait n (if 0 < n then wait s1 else s1))" if "P s1" "ok = R s1" for ok s1
    using that Suc.IH [of "if 0 < n then wait s1 else s1"] wait [of s1] by (cases n) auto
  show ?case
    unfolding reconcile_attempts.simps by (rule outcome_and_then [OF shut [OF Suc.prems(1)]]) (use step in auto)
qed auto

lemma offline_env: "env_ok X (session_ctx m) \<Longrightarrow> env_ok X (offline_ctx m)"
  by (auto simp: env_ok_def session_ctx_def offline_ctx_def disconnected_io_def io_ok_def ret_def)

abbreviation no_pods :: "('e, 'w, 'n, 'c) node \<Rightarrow> bool" where
  "no_pods nd \<equiv> wk_pods (nd_worker nd) = []"

text \<open>A worker that is being shut down for good.\<close>

definition ending :: "('e, 'w, 'n, 'c) machine \<Rightarrow> ('e, 'w, 'n, 'c) node \<Rightarrow> ('e, 'w, 'n, 'c) node \<Rightarrow> bool" where
  "ending m nd nd' = (drainable (nd_worker nd') \<and> raised m (nd_ctl nd') \<and> same_place nd nd')"

lemma ending_leave: "ending m nd nd1 \<Longrightarrow> drainable (sy_worker s) \<Longrightarrow> ending m nd (leave s nd1)"
  by (simp add: ending_def same_place_leave worker_simps) (simp add: leave_def)

lemma ending_pause: "sticky m \<Longrightarrow> ending m nd nd1 \<Longrightarrow> ending m nd (pause m nd1)"
  by (simp add: ending_def pause_def stickyD same_place_leave)

lemma session_shutdown_drains:
  assumes "env_ok X (session_ctx m)" "ending m nd (snd x)"
  shows "outcome X (\<lambda>(ok, x'). ending m nd (snd x') \<and> ok = no_pods (snd x')) (session_shutdown m x)"
proof -
  have "drainable (sy_worker (enter (fst x) (snd x)))" using assms(2) by (simp add: ending_def worker_simps)
  from shutdown_drains [OF assms(1) this] show ?thesis
    unfolding session_shutdown_def
    by (rule outcome_and_then) (use ending_leave [OF assms(2)] in \<open>auto simp: worker_simps\<close>)
qed

lemma offline_shutdown_drains:
  assumes "env_ok X (session_ctx m)" "drainable (nd_worker nd)"
  shows "outcome X (\<lambda>(ok, nd'). drainable (nd_worker nd') \<and> ok = no_pods nd') (offline_shutdown m nd)"
  unfolding offline_shutdown_def
  by (rule outcome_and_then [OF shutdown_drains [OF offline_env [OF assms(1)]]]) (use assms(2) in \<open>auto simp: worker_simps\<close>)

lemma shutdown_disconnected_drains:
  assumes "env_ok X (session_ctx m)" "drainable (nd_worker nd)"
  shows "outcome X (\<lambda>(ok, nd'). drainable (nd_worker nd') \<and> ok = no_pods nd') (shutdown_disconnected_worker m nd)"
  unfolding shutdown_disconnected_worker_def reconcile_shutdown_def
  by (rule reconcile_attempts_outcome [where P = "\<lambda>nd. drainable (nd_worker nd)" and R = no_pods])
     (use assms offline_shutdown_drains in \<open>auto simp: worker_simps MAX_SHUTDOWN_RECONCILIATION_ATTEMPTS_def\<close>)

text \<open>What a session leaves: a worker fit for the next one, or, once the flag is set, a worker without pods.\<close>

definition session_left :: "('e, 'w, 'n, 'c) machine \<Rightarrow> ('e, 'w, 'n, 'c) node \<Rightarrow> process_end option \<times> ('e, 'w, 'n, 'c) node \<Rightarrow> bool" where
  "session_left m nd x =
     (same_place nd (snd x)
      \<and> (case fst x of
           None \<Rightarrow> worker_inv (nd_worker (snd x)) \<or> drainable (nd_worker (snd x)) \<and> raised m (nd_ctl (snd x))
         | Some fin \<Rightarrow> fin = Exited 1 \<and> \<not> no_pods (snd x)))"

lemma run_worker_loop_left:
  assumes run: "run_worker_loop m r nd = Some res" and env: "env_ok X (session_ctx m)" "MISSING_KEY \<in> X"
    and m: "sticky m" and inv: "worker_inv (nd_worker nd)"
  shows "outcome X (session_left m nd) res"
proof -
  obtain t where t: "session_turns m r nd = Some t" using run by (auto simp: run_worker_loop_def bind_run_def split: option.splits)
  note turns = session_turns_inv [OF t env inv]
  show ?thesis
  proof (cases t)
    case (Inl e)
    then show ?thesis using run t turns by (auto simp: run_worker_loop_def bind_run_def)
  next
    case (Inr x)
    obtain r1 nd1 where x: "x = (r1, nd1)" by fastforce
    obtain stop c where f: "mc_flag m (nd_ctl nd1) = (stop, c)" by fastforce
    have inv1: "worker_inv (nd_worker nd1)" "same_place nd nd1" using turns Inr x by (simp_all add: session_inv_def)
    let ?nd2 = "nd1\<lparr>nd_ctl := c\<rparr>"
    show ?thesis
    proof (cases stop)
      case False
      then have "res = Inr (None, ?nd2\<lparr>nd_net := ri_stream r1\<rparr>)"
        using run t Inr x f by (simp add: run_worker_loop_def bind_run_def)
      then show ?thesis using inv1 by (simp add: session_left_def same_place_leave)
    next
      case True
      have e: "ending m nd (snd (r1, ?nd2))"
        using inv1 stickyD(1) [OF m] f True by (simp add: ending_def worker_inv_drainable same_place_leave)
      have "outcome X (\<lambda>(ok, x'). ending m nd (snd x') \<and> ok = no_pods (snd x'))
          (reconcile_shutdown (session_shutdown m) (\<lambda>x. (fst x, pause m (snd x))) (r1, ?nd2))"
        unfolding reconcile_shutdown_def
        by (rule reconcile_attempts_outcome [where P = "\<lambda>x. ending m nd (snd x)" and R = "\<lambda>x. no_pods (snd x)",
              OF session_shutdown_drains [OF env(1)]])
           (use e in \<open>auto simp: worker_simps ending_pause [OF m] MAX_SHUTDOWN_RECONCILIATION_ATTEMPTS_def\<close>)
      moreover have "res = and_then (reconcile_shutdown (session_shutdown m) (\<lambda>x. (fst x, pause m (snd x))) (r1, ?nd2))
          (\<lambda>(ok, r3, nd3). Inr (if ok then None else Some (Exited 1), nd3\<lparr>nd_net := ri_stream r3\<rparr>))"
        using run t Inr x f True by (simp add: run_worker_loop_def bind_run_def)
      ultimately show ?thesis
        by (auto simp: ending_def session_left_def same_place_leave elim!: outcome_and_then)
    qed
  qed
qed

text \<open>Between two attempts the replica is one of those given, and the wait is at most ten seconds.\<close>

definition in_range :: "string list \<Rightarrow> ('e, 'w, 'n, 'c) node \<Rightarrow> bool" where
  "in_range addrs nd = (nd_replica_idx nd < length addrs \<and> nd_backoff_ms nd \<le> 10000)"

definition node_left :: "('e, 'w, 'n, 'c) machine \<Rightarrow> string list \<Rightarrow> process_end option \<times> ('e, 'w, 'n, 'c) node \<Rightarrow> bool" where
  "node_left m addrs x =
     (in_range addrs (snd x)
      \<and> (case fst x of
           None \<Rightarrow> worker_inv (nd_worker (snd x)) \<or> drainable (nd_worker (snd x)) \<and> raised m (nd_ctl (snd x))
         | Some fin \<Rightarrow> fin = Exited 1 \<and> \<not> no_pods (snd x)))"

lemma in_range_simps:
  "in_range addrs (nd\<lparr>nd_net := w\<rparr>) = in_range addrs nd" "in_range addrs (nd\<lparr>nd_ctl := c\<rparr>) = in_range addrs nd"
  "in_range addrs (nd\<lparr>nd_worker := wk\<rparr>) = in_range addrs nd"
  by (simp_all add: in_range_def)

lemma in_range_next: "in_range addrs nd \<Longrightarrow> in_range addrs (next_replica addrs nd)"
  by (auto simp: in_range_def next_replica_def intro: mod_less_divisor)

lemma next_replica_simps: "nd_worker (next_replica addrs nd) = nd_worker nd" "nd_ctl (next_replica addrs nd) = nd_ctl nd"
  by (simp_all add: next_replica_def)

lemma on_connection_lost_inv: "worker_inv w \<Longrightarrow> worker_inv (on_connection_lost w)"
  by (simp add: worker_inv_def inv_defs terminal_count_total on_connection_lost_def)

lemma session_left_node:
  "session_left m (nd\<lparr>nd_net := w, nd_backoff_ms := 100\<rparr>) x \<Longrightarrow> in_range addrs nd \<Longrightarrow> node_left m addrs x"
  by (auto simp: session_left_def node_left_def in_range_def same_place_def)

lemma attempt_session_left:
  assumes run: "attempt_session m key addrs nd = Some res" and env: "env_ok X (session_ctx m)" "MISSING_KEY \<in> X"
    and m: "sticky m" and inv: "worker_inv (nd_worker nd)" "in_range addrs nd"
  shows "outcome X (node_left m addrs) res"
proof -
  have idx: "nd_replica_idx nd < length addrs" using inv(2) by (simp add: in_range_def)
  obtain c w where c: "connect_timeout (mc_tcp m) (addrs ! nd_replica_idx nd) key REPLICA_CONNECT_TIMEOUT (nd_net nd) = (c, w)"
    by fastforce
  show ?thesis
  proof (cases c)
    case (Inl e)
    then have "res = Inr (None, next_replica addrs (nd\<lparr>nd_net := w\<rparr>))"
      using run idx c by (simp add: attempt_session_def bind_run_def)
    then show ?thesis using inv in_range_next [of addrs "nd\<lparr>nd_net := w\<rparr>"]
      by (simp add: node_left_def in_range_simps next_replica_simps)
  next
    case (Inr r)
    let ?nd = "nd\<lparr>nd_net := w, nd_backoff_ms := 100\<rparr>"
    obtain t where t: "run_worker_loop m r ?nd = Some t"
      using run idx c Inr by (auto simp: attempt_session_def bind_run_def split: option.splits)
    have left: "outcome X (session_left m ?nd) t" by (rule run_worker_loop_left [OF t env m]) (use inv in simp)
    have res: "res = and_then t (\<lambda>(fin, nd1). if fin \<noteq> None then Inr (fin, nd1)
             else case mc_flag m (nd_ctl nd1) of (stop, c) \<Rightarrow>
               let nd2 = nd1\<lparr>nd_ctl := c\<rparr> in
               Inr (None, if stop then nd2
                          else next_replica addrs (nd2\<lparr>nd_worker := on_connection_lost (nd_worker nd2)\<rparr>)))"
      using run idx c Inr t by (cases t) (auto simp: attempt_session_def bind_run_def Let_def split: prod.splits if_splits)
    show ?thesis
      unfolding res
    proof (rule outcome_and_then [OF left], goal_cases)
      case (1 x)
      have n: "node_left m addrs x" by (rule session_left_node [OF 1 inv(2)])
      obtain fin nd1 where x: "x = (fin, nd1)" by fastforce
      obtain stop c where f: "mc_flag m (nd_ctl nd1) = (stop, c)" by fastforce
      show ?case
        using n stickyD(1) [OF m, of "nd_ctl nd1" c] f
          in_range_next [of addrs "nd1\<lparr>nd_ctl := c\<rparr>\<lparr>nd_worker := on_connection_lost (nd_worker nd1)\<rparr>"]
        by (cases fin; cases stop)
           (auto simp: x node_left_def in_range_simps next_replica_simps raised_def intro: on_connection_lost_inv)
    qed
  qed
qed

lemma back_off_left:
  assumes "back_off m nd = Some nd'" "in_range addrs nd"
  shows "in_range addrs nd' \<and> nd_worker nd' = nd_worker nd"
  using assms by (auto simp: back_off_def in_range_def split: prod.splits)

text \<open>The flag is read once more after an attempt.\<close>

lemma node_left_flag:
  assumes "sticky m" "node_left m addrs x" "fst x = None" "mc_flag m (nd_ctl (snd x)) = (stop, c)"
  shows "node_left m addrs (None, (snd x)\<lparr>nd_ctl := c\<rparr>)"
    "\<not> stop \<Longrightarrow> worker_inv (nd_worker (snd x)) \<and> in_range addrs ((snd x)\<lparr>nd_ctl := c\<rparr>)"
  using assms stickyD(1) [OF assms(1), of "nd_ctl (snd x)" c]
  by (auto simp: node_left_def in_range_simps raised_def)

lemma session_loop_left:
  assumes "session_loop m key addrs nd = Some res" "env_ok X (session_ctx m)" "MISSING_KEY \<in> X"
    "sticky m" "worker_inv (nd_worker nd)" "in_range addrs nd"
  shows "outcome X (node_left m addrs) res"
  using assms
proof (induction rule: session_loop.raw_induct [rotated, consumes 1, case_names step])
  case (step session_loop m key addrs nd res)
  obtain stop c where f: "mc_flag m (nd_ctl nd) = (stop, c)" by fastforce
  show ?case
  proof (cases stop)
    case True
    then show ?thesis using step.hyps step.prems f by (auto simp: node_left_def in_range_simps)
  next
    case False
    then obtain t where t: "attempt_session m key addrs (nd\<lparr>nd_ctl := c\<rparr>) = Some t"
      using step.hyps f by (auto split: option.splits)
    have left: "outcome X (node_left m addrs) t"
      by (rule attempt_session_left [OF t step.prems(1-3)]) (use step.prems in \<open>simp_all add: in_range_simps\<close>)
    show ?thesis
    proof (cases t)
      case (Inl e)
      then show ?thesis using step.hyps f False t left by auto
    next
      case (Inr x)
      have n: "node_left m addrs x" using left Inr by simp
      obtain stop2 c2 where f2: "mc_flag m (nd_ctl (snd x)) = (stop2, c2)" by fastforce
      let ?nd2 = "(snd x)\<lparr>nd_ctl := c2\<rparr>"
      note flag = node_left_flag [OF step.prems(3) n _ f2]
      consider "fst x \<noteq> None" | "fst x = None" "stop2" | "fst x = None" "\<not> stop2" by blast
      then show ?thesis
      proof cases
        case 1
        then show ?thesis using step.hyps f False t Inr n by auto
      next
        case 2
        then show ?thesis using step.hyps f False t Inr f2 flag(1) by auto
      next
        case 3
        obtain nd1 where b: "back_off m ?nd2 = Some nd1"
          using step.hyps f False t Inr f2 3 by (auto split: option.splits)
        have "session_loop m key addrs nd1 = Some res" using step.hyps f False t Inr f2 3 b by auto
        moreover have "worker_inv (nd_worker nd1)" "in_range addrs nd1" using back_off_left [OF b, of addrs] flag(2) [OF 3] by simp_all
        ultimately show ?thesis using step.IH step.prems(1-3) by blast
      qed
    qed
  qed
qed

text \<open>
  C2. The program exits cleanly only when nothing is left running. Started with a fresh worker and at
  least one replica address, through any number of sessions, failed connects and reconnect waits, on
  any machine on which the shutdown flag stays set, the process, if it ends, ends by a panic of the
  environment, normally, or with exit code 1. It ends normally exactly when no pod is tracked, and then
  no failure report is pending and no GPU, CPU or memory is allocated.
\<close>

theorem clean_exit:
  assumes "env_ok X (session_ctx m)" and "MISSING_KEY \<in> X" and "sticky m" and "addrs \<noteq> []"
    and "gpu < - 1" and "cpu < - 1" and "mem < - 1"
    and "nd_worker nd = worker_new r n t gpu cpu mem"
    and "run_node m key addrs nd = Some res"
  shows "outcome X (\<lambda>(fin, nd').
      (fin = Completed \<or> fin = Exited 1)
      \<and> (fin = Completed \<longleftrightarrow> wk_pods (nd_worker nd') = [])
      \<and> (fin = Completed \<longrightarrow> wk_pending_failure_reasons (nd_worker nd') = [] \<and> wk_gpu_allocated (nd_worker nd') = 0
           \<and> wk_cpu_allocated_millicores (nd_worker nd') = 0 \<and> wk_memory_allocated_megabytes (nd_worker nd') = 0)) res"
proof -
  let ?nd = "nd\<lparr>nd_backoff_ms := 100, nd_replica_idx := 0\<rparr>"
  obtain u where u: "session_loop m key addrs ?nd = Some u"
    using assms(9) by (auto simp: run_node_def bind_run_def split: option.splits)
  have "worker_inv (nd_worker ?nd)" "in_range addrs ?nd" using assms by (simp_all add: worker_new_inv in_range_def)
  from session_loop_left [OF u assms(1-3) this] have left: "outcome X (node_left m addrs) u" .
  have res: "res = and_then u (\<lambda>(fin, nd1). case fin of
         Some x \<Rightarrow> Inr (x, nd1)
       | None \<Rightarrow> and_then (shutdown_disconnected_worker m nd1) (\<lambda>(ok, nd2). Inr (if ok then Completed else Exited 1, nd2)))"
    using assms(9) u by (cases u) (auto simp: run_node_def bind_run_def split: option.splits)
  show ?thesis
    unfolding res
  proof (rule outcome_and_then [OF left], goal_cases)
    case (1 x)
    obtain fin nd1 where x: "x = (fin, nd1)" by fastforce
    show ?case
    proof (cases fin)
      case (Some f)
      then show ?thesis using 1 x by (auto simp: node_left_def)
    next
      case None
      then have "drainable (nd_worker nd1)" using 1 x by (auto simp: node_left_def worker_inv_drainable)
      from shutdown_disconnected_drains [OF assms(1) this] show ?thesis
        unfolding x None prod.case option.case
        by (rule outcome_and_then) (auto simp: drainable_empty)
    qed
  qed
qed

text \<open>A machine whose replica refuses the connection, and where the signal comes right after.\<close>

definition refused_machine :: "(nat, nat, nat, nat) machine" where
  "refused_machine =
     \<lparr>mc_os = sample_os, mc_rt = good_rt StatusRunning, mc_aead = plain_seal,
      mc_tcp =
        \<lparr>tcp_connect_timeout = (\<lambda>_ _ w. (Inl (OtherIo, ''connection refused''), w + 1)), tcp_set_nonblocking = (\<lambda>w. (Inr (), w)),
         tcp_set_nodelay = (\<lambda>w. (Inr (), w)), tcp_read = (\<lambda>n w. (Inr [], w)),
         tcp_writer = \<lparr>wr_write_all = (\<lambda>_ w. (Inr (), w)), wr_flush = (\<lambda>w. (Inr (), w))\<rparr>,
         tcp_shutdown = (\<lambda>w. w), tcp_epoch_nanos = (\<lambda>_. 0), tcp_nonce = (\<lambda>w. (replicate NONCE_LEN 0, w))\<rparr>,
      mc_metrics = None, mc_uptime = (\<lambda>_. 0), mc_flag = (\<lambda>c. (0 < c, c + 1)), mc_now = (\<lambda>c. (c, c + 1)),
      mc_sleep = (\<lambda>n c. c + n), mc_sched = (\<lambda>_ _. [])\<rparr>"

definition refused_node :: "(nat, nat, nat, nat) node" where
  "refused_node =
     \<lparr>nd_worker = worker_new sample_resolver ''n1'' H100Sxm 8 16000 65536, nd_env = 5, nd_net = 0, nd_listener = 0,
      nd_ctl = 0, nd_backoff_ms = 0, nd_replica_idx = 0\<rparr>"

definition refused_end :: "(nat, nat, nat, nat) node" where
  "refused_end = refused_node\<lparr>nd_env := 6, nd_net := 1, nd_ctl := 2, nd_backoff_ms := 100\<rparr>"

lemma reconcile_shutdown_first: "shut s = Inr (True, s1) \<Longrightarrow> reconcile_shutdown shut wait s = Inr (True, s1)"
  by (simp add: reconcile_shutdown_def MAX_SHUTDOWN_RECONCILIATION_ATTEMPTS_def numeral_eq_Suc)

lemma refused_sticky: "sticky refused_machine"
  by (simp add: sticky_def raised_def refused_machine_def)

lemma refused_parse: "parse_socket_addr ''10.0.0.1:90'' = Some (SocketV4 [10, 0, 0, 1] 90)"
  by (simp add: parse_socket_addr_def read_socket_addr_v4_def read_ipv4_addr_def read_separator_def read_octet_def
        read_number_def to_digit_def radix_value_def read_given_char_def read_port_def)

lemma refused_run: "run_node refused_machine None [''10.0.0.1:90''] refused_node = Some (Inr (Completed, refused_end))"
proof -
  let ?nd = "refused_node\<lparr>nd_backoff_ms := 100, nd_replica_idx := 0\<rparr>"
  let ?nd1 = "?nd\<lparr>nd_net := 1, nd_ctl := 2\<rparr>"
  have "session_loop refused_machine None [''10.0.0.1:90''] ?nd = Some (Inr (None, ?nd1))"
    by (subst session_loop.simps)
       (simp add: refused_machine_def refused_node_def attempt_session_def bind_run_def index_at_def connect_timeout_def
          REPLICA_CONNECT_TIMEOUT_def next_replica_def refused_parse)
  moreover have "shutdown_disconnected_worker refused_machine ?nd1 = Inr (True, refused_end)"
    unfolding shutdown_disconnected_worker_def
    by (rule reconcile_shutdown_first)
       (simp add: offline_shutdown_def shutdown_def shutdown_with_deadline_def enter_def leave_def refused_node_def worker_new_def
         new_with_lifecycle_concurrency_def hm_eval offline_ctx_def refused_machine_def sample_os_def refused_end_def)
  ultimately show ?thesis by (simp add: run_node_def bind_run_def)
qed

theorem clean_exit_witness:
  "run_node refused_machine None [''10.0.0.1:90''] refused_node = Some (Inr (Completed, refused_end))
   \<and> wk_pods (nd_worker refused_end) = [] \<and> wk_gpu_allocated (nd_worker refused_end) = 0"
proof -
  have "outcome UNIV (\<lambda>(fin, nd'). fin = Completed \<longrightarrow> wk_pods (nd_worker nd') = [] \<and> wk_gpu_allocated (nd_worker nd') = 0)
      (Inr (Completed, refused_end))"
    by (rule outcome_mono [OF clean_exit [OF env_ok_UNIV UNIV_I refused_sticky _ _ _ _ _ refused_run,
          of 8 16000 65536 sample_resolver "''n1''" H100Sxm]])
       (auto simp: refused_node_def word_less_nat_alt unat_minus_one)
  then show ?thesis using refused_run by simp
qed

section \<open>Failover\<close>

text \<open>
  What the standard library documents of the clock: it never runs backwards, and a sleep lasts at
  least as long as was asked for.
\<close>

definition advancing :: "('e, 'w, 'n, 'c) machine \<Rightarrow> ('c \<Rightarrow> instant) \<Rightarrow> bool" where
  "advancing m time =
     (\<forall>c. time c \<le> time (snd (mc_flag m c)) \<and> time c \<le> fst (mc_now m c) \<and> fst (mc_now m c) \<le> time (snd (mc_now m c))
        \<and> (\<forall>n. time c + n \<le> time (mc_sleep m n c)))"

lemma wait_returns:
  assumes clock: "advancing m time"
  shows "\<exists>r. wait_for_reconnect_or_shutdown m deadline c = Some r"
proof (induction "deadline - time c" arbitrary: c rule: less_induct)
  case less
  obtain stop c1 where f: "mc_flag m c = (stop, c1)" by fastforce
  obtain t c2 where n: "mc_now m c1 = (t, c2)" by fastforce
  have le: "time c \<le> t" "t \<le> time c2"
    using clock f n unfolding advancing_def by (metis fst_conv snd_conv order_trans)+
  show ?case
  proof (cases "stop \<or> deadline - t = 0")
    case True
    then show ?thesis by (subst wait_for_reconnect_or_shutdown.simps) (auto simp: f n)
  next
    case False
    let ?c = "mc_sleep m (min (deadline - t) (50 * 10 ^ 6)) c2"
    have "time c2 + min (deadline - t) (50 * 10 ^ 6) \<le> time ?c" using clock by (simp add: advancing_def)
    moreover have "0 < min (deadline - t) (50 * 10 ^ 6)" "t < deadline" using False by simp_all
    ultimately have "time c < time ?c" "time c < deadline" using le by linarith+
    then have "deadline - time ?c < deadline - time c" by (simp add: diff_less_mono2)
    from less [OF this] show ?thesis
      using False by (subst wait_for_reconnect_or_shutdown.simps) (simp add: f n)
  qed
qed

text \<open>
  C19. A replica that cannot be reached does not hold the worker up. On a clock that advances, when the
  connect fails and no signal has come, the wait ends and the loop goes on with the next replica of
  the list, cyclically, with the wait doubled up to ten seconds, and with the same worker and
  environment.
\<close>

theorem failover_round:
  assumes "advancing m time" and "nd_replica_idx nd < length addrs"
    and "mc_flag m (nd_ctl nd) = (False, c)" and "mc_flag m c = (False, c2)"
    and "connect_timeout (mc_tcp m) (addrs ! nd_replica_idx nd) key REPLICA_CONNECT_TIMEOUT (nd_net nd) = (Inl e, w)"
  shows "\<exists>nd'. session_loop m key addrs nd = session_loop m key addrs nd'
    \<and> nd_replica_idx nd' = Suc (nd_replica_idx nd) mod length addrs
    \<and> nd_backoff_ms nd' = min (nd_backoff_ms nd * 2) 10000
    \<and> nd_worker nd' = nd_worker nd \<and> nd_env nd' = nd_env nd \<and> nd_net nd' = w"
proof -
  let ?nd = "next_replica addrs (nd\<lparr>nd_ctl := c, nd_net := w\<rparr>)"
  have a: "attempt_session m key addrs (nd\<lparr>nd_ctl := c\<rparr>) = Some (Inr (None, ?nd))"
    using assms by (simp add: attempt_session_def bind_run_def)
  obtain t c3 where n: "mc_now m c2 = (t, c3)" by fastforce
  obtain b c4 where wt: "wait_for_reconnect_or_shutdown m (t + unat (nd_backoff_ms nd) * 10 ^ 6) c3 = Some (b, c4)"
    using wait_returns [OF assms(1)] by (metis surj_pair)
  let ?nd' = "?nd\<lparr>nd_ctl := c4, nd_backoff_ms := min (nd_backoff_ms nd * 2) 10000\<rparr>"
  have "back_off m (?nd\<lparr>nd_ctl := c2\<rparr>) = Some ?nd'"
    using n wt by (simp add: back_off_def next_replica_def)
  then have "session_loop m key addrs nd = session_loop m key addrs ?nd'"
    by (subst session_loop.simps) (simp add: assms(3,4) a next_replica_simps)
  then show ?thesis by (intro exI [of _ ?nd'] conjI) (simp_all add: next_replica_def)
qed

definition patient_machine :: "(nat, nat, nat, nat) machine" where
  "patient_machine = refused_machine\<lparr>mc_flag := (\<lambda>c. (False, c))\<rparr>"

theorem failover_round_witness:
  "\<exists>nd'. session_loop patient_machine None [''10.0.0.1:90'', ''10.0.0.2:90''] (refused_node\<lparr>nd_backoff_ms := 100\<rparr>)
      = session_loop patient_machine None [''10.0.0.1:90'', ''10.0.0.2:90''] nd'
    \<and> nd_replica_idx nd' = 1 \<and> nd_backoff_ms nd' = 200 \<and> nd_net nd' = 1"
proof -
  have clock: "advancing patient_machine (\<lambda>c. c)"
    by (simp add: advancing_def patient_machine_def refused_machine_def)
  have refuse: "connect_timeout (mc_tcp patient_machine) ''10.0.0.1:90'' None REPLICA_CONNECT_TIMEOUT 0
      = (Inl (OtherIo, ''connection refused''), 1)"
    by (simp add: connect_timeout_def patient_machine_def refused_machine_def REPLICA_CONNECT_TIMEOUT_def refused_parse)
  obtain nd' where n:
      "session_loop patient_machine None [''10.0.0.1:90'', ''10.0.0.2:90''] (refused_node\<lparr>nd_backoff_ms := 100\<rparr>)
        = session_loop patient_machine None [''10.0.0.1:90'', ''10.0.0.2:90''] nd'"
      "nd_replica_idx nd' = 1" "nd_backoff_ms nd' = min (100 * 2) 10000" "nd_net nd' = 1"
    using failover_round [OF clock, of "refused_node\<lparr>nd_backoff_ms := 100\<rparr>" "[''10.0.0.1:90'', ''10.0.0.2:90'']" 0 0 None
        "(OtherIo, ''connection refused'')" 1] refuse
    by (auto simp: refused_node_def patient_machine_def)
  moreover have "min (100 * 2) 10000 = (200 :: u64)" by (simp add: min_def word_le_nat_alt)
  ultimately show ?thesis by metis
qed

end
