(* ===== verification/Spec2Isabelle.thy ===== *)
theory Spec2Isabelle
  imports Hive_Prng Hive_Wire Hive_Frame Worker_Props Worker_Metrics Hive_Fingerprint Real_Io Sim_Runner Sim_Fuzz
    Worker_Drain Worker_Limits Runtime_Process Runtime_Containerd Hive_Main
begin

text \<open>
  Verification of the \<^verbatim>\<open>hivemind\<close> worker: the node agent of a GPU cluster (Rust,
  \<^verbatim>\<open>src/worker/src\<close>), with the deterministic simulation it is tested in.

  \<^bold>\<open>The program.\<close> A worker connects to a replica of the control plane over TCP, registers its node,
  and then runs a loop of ticks. In a tick it takes the commands that have arrived (start, stop, probe a
  pod, forward a request), moves every pod it tracks one step along its life cycle with the help of a
  container runtime, reports what happened, and sends a heartbeat. When the connection is lost it goes
  on with the next replica; on a signal it stops everything and exits. The same worker code runs
  inside a simulator with a faulty network, a faulty runtime and a stub of the control plane, whose
  checker watches the worker after every tick, and a fuzzer runs that simulator over many seeds.

  \<^bold>\<open>Foundations.\<close>
  \<^item> \<^verbatim>\<open>Hive_Prelude\<close>: machine integers as words, results (\<open>Inl\<close> is a panic or an error value), the hash
    map as an association list behind the locale \<open>hash_map\<close>, and the combinators of calls that may panic.
  \<^item> \<^verbatim>\<open>Rust_Text\<close>, \<^verbatim>\<open>Rust_Std\<close>: the parts of the Rust standard library on bytes, UTF-8, strings, numbers,
    indexing and socket addresses that the sources use.
  \<^item> \<^verbatim>\<open>Hive_Prng\<close>: \<^verbatim>\<open>prng.rs\<close>, the generator and the ratios of the fault injectors.

  \<^bold>\<open>The protocol.\<close>
  \<^item> \<^verbatim>\<open>Hive_Messages\<close> (\<^verbatim>\<open>types.rs\<close>, \<^verbatim>\<open>message.rs\<close>): the message types.
  \<^item> \<^verbatim>\<open>Hive_Wire\<close> (payloads of \<^verbatim>\<open>protocol.rs\<close>): encoder and decoder. Decoding inverts the wire layout, accepts
    only the exact length, and every worker message encodes to its documented bytes.
  \<^item> \<^verbatim>\<open>Hive_Frame\<close> (frames of \<^verbatim>\<open>protocol.rs\<close>, \<^verbatim>\<open>crypto.rs\<close>): what is written is read back; the buffered and
    the streaming reader agree; with a key nothing unauthenticated is accepted. The cipher is a parameter
    (\<open>aead\<close>) with the hypothesis \<open>aead_ok\<close>; HKDF is a parameter of the key derivation.
  \<^item> \<^verbatim>\<open>Real_Io\<close> (\<^verbatim>\<open>real_io.rs\<close>): the link over a TCP stream (parameter \<open>tcp\<close>, hypothesis \<open>stream_ok\<close>). It
    delivers the frames of the stream in order and once each, however the bytes are cut, and never hangs.

  \<^bold>\<open>The worker.\<close>
  \<^item> \<^verbatim>\<open>Hive_Runtime\<close> (\<^verbatim>\<open>runtime.rs\<close>, \<^verbatim>\<open>io.rs\<close>): the interfaces \<open>Runtime\<close> and \<open>Io\<close> as records of operations.
  \<^item> \<^verbatim>\<open>Hive_Host\<close> (\<^verbatim>\<open>secrets.rs\<close>, \<^verbatim>\<open>volumes.rs\<close>): secrets with their cache, JuiceFS mounts; the operating
    system is the parameter \<open>os\<close>.
  \<^item> \<^verbatim>\<open>Worker_State\<close>, \<^verbatim>\<open>Worker_Steps\<close>, \<^verbatim>\<open>Worker_Shutdown\<close> (\<^verbatim>\<open>worker.rs\<close>): the record \<open>worker\<close>, one definition for
    each handler and each phase of a tick, and the shutdown. The threads of the lifecycle phase are steps
    that a schedule (an argument of \<open>tick\<close>) interleaves in any order; the statements hold for every schedule.
  \<^item> \<^verbatim>\<open>Worker_Invariant\<close>, \<^verbatim>\<open>Worker_Safety\<close>, \<^verbatim>\<open>Worker_Tick\<close>: the invariant (exact accounting, bounded tombstones,
    no handle or secret left in a terminal pod) and that every operation keeps it and panics only where
    the environment does, with one exception that \<^verbatim>\<open>Worker_Limits\<close> shows to be real.
  \<^item> \<^verbatim>\<open>Worker_Frame\<close>, \<^verbatim>\<open>Worker_Live\<close>, \<^verbatim>\<open>Worker_Props\<close>: what a step leaves alone (locale \<open>framed\<close>), heartbeats and
    registration, reachability and the accounting theorem.
  \<^item> \<^verbatim>\<open>Worker_Drain\<close>: the verdict of a shutdown, also of repeated ones. \<^verbatim>\<open>Worker_Limits\<close>: where the guarantees end.
  \<^item> \<^verbatim>\<open>Worker_Metrics\<close> (\<^verbatim>\<open>metrics.rs\<close>), \<^verbatim>\<open>Hive_Fingerprint\<close> (\<^verbatim>\<open>fingerprint.rs\<close>): the metrics text and endpoint, the
    description of the node; listener, NVML and files are parameters.
  \<^item> \<^verbatim>\<open>Runtime_Process\<close> (\<^verbatim>\<open>runtime/process.rs\<close>): pods as child processes; unique ownership in every interleaving
    of the threads, termination of stops and removals, the verdict of probes.
  \<^item> \<^verbatim>\<open>Runtime_Containerd\<close> (\<^verbatim>\<open>runtime/containerd.rs\<close>): pods as containers driven by \<^verbatim>\<open>ctr\<close>; exclusive creation,
    injective workload identity, base64, redaction. The command runner, SHA-256 and the JSON printer are
    parameters.
  \<^item> \<^verbatim>\<open>Hive_Main\<close> (\<^verbatim>\<open>main.rs\<close>): arguments, checks, the session loop with its reconnects, and the end of the
    process; it composes the link, the worker, the metrics and the shutdown.

  \<^bold>\<open>The simulation.\<close>
  \<^item> \<^verbatim>\<open>Sim_Io\<close>, \<^verbatim>\<open>Sim_Network\<close>, \<^verbatim>\<open>Sim_Runtime\<close>, \<^verbatim>\<open>Sim_Control_Plane\<close>, \<^verbatim>\<open>Sim_Checker\<close>, \<^verbatim>\<open>Sim_Simulator\<close>, \<^verbatim>\<open>Sim_Runner\<close> (the files of
    the same names under \<^verbatim>\<open>sim\<close>), \<^verbatim>\<open>Sim_Fuzz\<close> (\<^verbatim>\<open>bin/fuzz.rs\<close>): the network refines a lossy first-in first-out
    channel, delivers nothing across sessions and nothing more than twice; injected faults are transient;
    workloads are well formed; a run ends and its verdict is about a reachable state; a campaign tests
    every seed once.
  \<^item> \<^verbatim>\<open>Sim_Safety\<close>: the invariant of the whole simulated cluster, the termination of its tick and the panics
    it can end in.

  \<^bold>\<open>This theory\<close> holds two statements that span components: commands written by a control plane reach the
  worker through codec, cipher, frames and link unchanged, in order and once each; and a tick of the
  worker on the process runtime is safe.

  \<^bold>\<open>Loops.\<close> Loops over data are structural recursion. Loops that depend on the environment (the receive
  loops, the session loop, the waits) are partial functions into \<open>option\<close>, so that not returning is
  \<open>None\<close>; that they return is proved where the environment allows it: for the receive loop of the link, the
  tick of the simulation, its runs and campaigns, the stop of a process, and the wait before a
  reconnect. The session loop itself runs until a signal
  comes; what is proved of it is proved for every run that ends. There is no fuel.

  \<^bold>\<open>Panics.\<close> \<open>outcome X Q r\<close> says that \<open>r\<close> is a panic with a message in \<open>X\<close> or a result with \<open>Q\<close>; \<open>env_ok X\<close> says
  that the environment panics only with messages in \<open>X\<close>. A theorem about all environments takes \<open>X\<close> to
  be everything.

  \<^bold>\<open>Not modelled.\<close> Log lines and progress output; the printed fingerprint of the \<^verbatim>\<open>fingerprint\<close> command and
  the dispatch to it; the installation of the signal handlers (their effect is the parameter
  \<open>mc_flag\<close>, with the hypothesis \<open>sticky\<close>); mutex poisoning; the reads of the wall clock, which only
  feed log lines; the tests in the sources. An operation of a
  runtime is one step of its thread, except for the stop of a process, whose two critical sections are
  separate steps. The corpus lines of the fuzzer are in the order of the threads. The control
  plane itself is another program; its side of the protocol is the wire layout above.
\<close>

section \<open>From the control plane to the worker\<close>

text \<open>
  The payload of a command, its frame, and the stream of bytes that a control plane writes for a
  sequence of commands, each frame with a nonce of its own.
\<close>

definition command_payload :: "control_message \<Rightarrow> u8 \<times> u8 list" where
  "command_payload m =
     (case m of
        StartPod c \<Rightarrow> (MSG_START_POD, wire_start_pod c)
      | StopPod c \<Rightarrow> (MSG_STOP_POD, u64_to_le (stp_pod_id c) @ u64_to_le (stp_grace_period_ms c))
      | ProbePod c \<Rightarrow> (MSG_PROBE_POD, u64_to_le (prb_pod_id c))
      | RunRequest c \<Rightarrow> (MSG_RUN_REQUEST, wire_run_request c))"

definition command_ok :: "control_message \<Rightarrow> bool" where
  "command_ok m =
     (case m of
        StartPod c \<Rightarrow> start_pod_fits c \<and> length (sp_env_vars c) \<le> 47
      | RunRequest c \<Rightarrow> length (rr_payload c) \<le> MAX_RUN_PAYLOAD
      | _ \<Rightarrow> True)"

definition command_frame :: "aead \<Rightarrow> u8 list option \<Rightarrow> u8 list \<times> control_message \<Rightarrow> u8 list" where
  "command_frame a key x =
     (let (nonce, m) = x; (msg_type, payload) = command_payload m in frame_bytes a nonce key msg_type payload)"

definition command_stream :: "aead \<Rightarrow> u8 list option \<Rightarrow> (u8 list \<times> control_message) list \<Rightarrow> u8 list" where
  "command_stream a key xs = concat (map (command_frame a key) xs)"

definition sendable :: "u8 list \<times> control_message \<Rightarrow> bool" where
  "sendable x = (length (fst x) = NONCE_LEN \<and> command_ok (snd x))"

lemma length_wire_start_pod: "length (wire_start_pod c) = 1247 + 321 * length (sp_env_vars c)"
  using wire_start_pod_parts [of c] by simp

lemma command_decodes:
  assumes "command_ok m" "command_payload m = (msg_type, payload)"
  shows "decode_control_message msg_type payload = Inr m" "length payload \<le> MAX_FRAME_PAYLOAD"
proof -
  have "decode_control_message msg_type payload = Inr m \<and> length payload \<le> MAX_FRAME_PAYLOAD"
  proof (cases m)
    case (StartPod c)
    then show ?thesis
      using assms decode_start_pod_wire [of c] length_wire_start_pod [of c]
      by (auto simp: command_ok_def command_payload_def decode_control_message_def frame_consts)
  next
    case (StopPod c)
    then show ?thesis
      using assms by (auto simp: command_payload_def decode_control_message_def decode_stop_pod_def msg_tags
          STOP_POD_PAYLOAD_LEN_def layout_simps frame_consts)
  next
    case (ProbePod c)
    then show ?thesis
      using assms by (auto simp: command_payload_def decode_control_message_def decode_probe_pod_def msg_tags
          PROBE_POD_PAYLOAD_LEN_def layout_simps frame_consts)
  next
    case (RunRequest c)
    then show ?thesis
      using assms decode_run_request_wire [of c]
      by (auto simp: command_ok_def command_payload_def wire_run_request_def MAX_RUN_PAYLOAD_def frame_consts)
  qed
  then show "decode_control_message msg_type payload = Inr m" "length payload \<le> MAX_FRAME_PAYLOAD" by simp_all
qed

lemma first_command_frame:
  assumes "aead_ok a" "key_ok key" "sendable x"
  shows "first_frame a key (command_frame a key x @ rest) = Message (snd x) (length (command_frame a key x))"
proof -
  obtain nonce m t payload where x: "x = (nonce, m)" and p: "command_payload m = (t, payload)" by (metis surj_pair)
  have ok: "length nonce = NONCE_LEN" "command_ok m" using assms(3) x by (simp_all add: sendable_def)
  note d = command_decodes [OF ok(2) p]
  show ?thesis
    using decode_frame_bytes [OF assms(1,2) ok(1) d(2), of "replicate MAX_FRAME_PAYLOAD 0" t rest] d
    by (simp add: first_frame_def command_frame_def x p)
qed

lemma stream_of_commands:
  assumes "aead_ok a" "key_ok key" "list_all sendable xs"
  shows "stream_messages a key (command_stream a key xs) = map snd xs"
  using assms(3)
proof (induction xs)
  case Nil
  then show ?case
    by (simp add: command_stream_def stream_messages.simps [of a key "[]"] first_frame_def try_decode_frame_def)
next
  case (Cons x xs)
  then have "first_frame a key (command_frame a key x @ command_stream a key xs) = Message (snd x) (length (command_frame a key x))"
    using first_command_frame [OF assms(1,2)] by simp
  then show ?case
    using Cons by (simp add: command_stream_def stream_messages.simps [of a key "command_frame a key x @ _"])
qed



section \<open>The worker on the process runtime\<close>

text \<open>The only assertion of the process runtime that its own operations do not rule out by themselves.\<close>

definition RUN_DEADLINE :: string where "RUN_DEADLINE = ''run deadline must be positive''"

lemma calls_okI: "(\<And>e. \<exists>r e'. c e = Inr (r, e')) \<Longrightarrow> calls_ok X c"
  unfolding yields_def by (metis (mono_tags, lifting) case_prodI outcome_simps(1))

lemma forward_run_ok:
  assumes "RUN_DEADLINE \<in> X"
  shows "calls_ok X (process_forward_run po h port payload)"
  using assms
  by (auto simp: yields_def process_forward_run_def forward_run_with_deadline_def RUN_DEADLINE_def ensure_def
        split: prod.splits option.splits http_reply.splits)

lemma remove_pod_until_ends:
  assumes "clock_ok po tm"
  shows "\<exists>r e'. process_remove_pod_until po h deadline e = Inr (r, e')"
proof -
  obtain p w where e: "e = (p, w)" by fastforce
  obtain r p' w' where s: "process_stop_pod_until po h 0 deadline (p, w) = Inr (r, (p', w'))" "same_table p p'"
    "r = Inr () \<longrightarrow> (\<exists>process. hm_get (pr_processes p) (ph_container_id h) = Some process \<and> seen_exited po (rp_child process) w')"
    using stop_pod_until_ends [OF assms] by blast
  then show ?thesis
    by (cases r) (auto simp: e process_remove_pod_until_def try_call_def drop_process_def same_table_def split: prod.splits)
qed

lemma process_rt_ok:
  assumes clock: "clock_ok po tm" and "RUN_DEADLINE \<in> X"
  shows "rt_ok X (process_pod_runtime po)"
proof -
  have stop: "\<exists>r e'. process_stop_pod_until po h g d e = Inr (r, e')" for h g d e
    using stop_pod_until_ends [OF clock, of h g d "fst e" "snd e"] by auto
  have "\<exists>r e'. process_stop_pod po h g e = Inr (r, e')" "\<exists>r e'. process_remove_pod po h e = Inr (r, e')" for h g e
    using stop remove_pod_until_ends [OF clock] by (auto simp: process_stop_pod_def process_remove_pod_def split: prod.splits)
  moreover have "\<exists>r e'. process_create_pod po spec e = Inr (r, e')" for spec e
    by (auto simp: process_create_pod_def Let_def split: prod.splits option.splits sum.splits)
  moreover have "\<exists>r e'. process_start_pod po h e = Inr (r, e')" "\<exists>r e'. process_probe_pod po h port path e = Inr (r, e')"
    "\<exists>r e'. process_pod_status po h e = Inr (r, e')" "\<exists>r e'. process_pod_status_until po h d e = Inr (r, e')" for h port path d e
    by (auto simp: process_start_pod_def process_probe_pod_def process_pod_status_def process_pod_status_until_def
          split: prod.splits option.splits sum.splits)
  ultimately show ?thesis
    using stop remove_pod_until_ends [OF clock] forward_run_ok [OF assms(2), of po]
    by (simp add: rt_ok_def process_pod_runtime_def calls_okI ret_def)
qed

text \<open>
  C11. The worker is safe on the process runtime. On a clock that a sleep moves forward, every operation of
  the process runtime returns in every state of its table; a tick of the worker on top of it keeps the
  worker's invariant for every schedule of its threads, and panics only where the operating system or the
  link does, where the scan meets a pruned tombstone, or on the runtime's check of its deadline.
\<close>

theorem process_worker_tick:
  assumes "clock_ok po tm" and "os_ok X os" and "io_ok X io" and "MISSING_KEY \<in> X" and "RUN_DEADLINE \<in> X"
    and "worker_inv (sy_worker s)"
    and "tick \<lparr>cx_os = os, cx_rt = process_pod_runtime po, cx_io = io\<rparr> sched s = Some r"
  shows "outcome X (\<lambda>s'. worker_inv (sy_worker s')) r"
  by (rule tick_inv [OF assms(7) _ assms(4,6)]) (simp add: env_ok_def assms process_rt_ok [OF assms(1,5)])

text \<open>A host on which nothing fails, under the process runtime, with a probe of an unknown pod waiting.\<close>

definition quiet_os :: "'e os" where
  "quiet_os =
     \<lparr>os_instant_now = ret 0, os_env_var = (\<lambda>n e. None), os_create_dir_all = (\<lambda>p. ret (Inr ())),
      os_command = (\<lambda>args. ret (Inr \<lparr>out_success = True, out_code = Some 0, out_stdout = [], out_stderr = []\<rparr>)),
      os_read_to_string = (\<lambda>p. ret (Inr [])), os_remove_dir_all = (\<lambda>p. ret (Inr ())), os_path_exists = (\<lambda>p e. False),
      os_http_secret = (\<lambda>url auth. ret (Inr None))\<rparr>"

theorem process_worker_tick_witness:
  "\<exists>r. tick \<lparr>cx_os = quiet_os, cx_rt = process_pod_runtime script_os, cx_io = script_io\<rparr> (\<lambda>_. [])
         \<lparr>sy_worker = small_worker, sy_env = (with_base_port 15000, (0, [], [], [])), sy_io = [ProbePod \<lparr>prb_pod_id = 7\<rparr>], sy_out = []\<rparr> = Some r
     \<and> outcome {MISSING_KEY, RUN_DEADLINE} (\<lambda>s'. worker_inv (sy_worker s')) r"
proof -
  let ?cx = "\<lparr>cx_os = quiet_os, cx_rt = process_pod_runtime script_os, cx_io = script_io\<rparr>"
  let ?s = "\<lparr>sy_worker = small_worker, sy_env = (with_base_port 15000, (0, [], [], [])), sy_io = [ProbePod \<lparr>prb_pod_id = 7\<rparr>], sy_out = []\<rparr>"
  have clock: "clock_ok script_os fst" by (simp add: clock_ok_def script_os_def split: prod.splits)
  have os: "os_ok X quiet_os" "io_ok X script_io" for X
    by (simp_all add: os_ok_def io_ok_def quiet_os_def script_io_def yields_def ret_def split: list.split)
  have inv: "worker_inv (sy_worker ?s)"
    by (simp add: small_worker_def worker_new_inv word_less_nat_alt unat_minus_one)
  have "\<exists>r. tick ?cx (\<lambda>_. []) ?s = Some r"
    by (simp add: tick_def register_step_def send_def modify_worker_def script_io_def small_worker_def
        new_with_lifecycle_concurrency_def worker_new_def recv_loop.simps handle_probe_pod_def hm_eval bind_run_def)
  then show ?thesis
    using process_worker_tick [OF clock os, of "{MISSING_KEY, RUN_DEADLINE}" ?s "\<lambda>_. []"] inv by auto
qed

end
